(* ===== verification/Prelude.thy ===== *)
theory Prelude
  imports Main "HOL-Library.Word"
begin

text \<open>
  Shared vocabulary of the development: Go's machine integers, strings and byte slices, the
  functions of Go's \<^verbatim>\<open>strings\<close>, \<^verbatim>\<open>fmt\<close> and \<^verbatim>\<open>path/filepath\<close> packages that the program calls, and the
  generic lemmas on lists and decimal numbers that the components share.

  A Go \<^verbatim>\<open>string\<close> is a sequence of bytes and is modelled as a HOL \<open>string\<close> (a list of 8-bit
  characters); a \<^verbatim>\<open>[]byte\<close> that is read bit by bit is a list of \<open>8 word\<close>.
\<close>

section \<open>Collections of facts\<close>

named_theorems go_str "evaluation of the models of Go's string functions"
named_theorems res_simps "inversion of result values"

section \<open>Machine types\<close>

type_synonym byte = "8 word"
type_synonym u64 = "64 word"

text \<open>
  Go's \<^verbatim>\<open>int\<close>, \<^verbatim>\<open>int64\<close> and \<^verbatim>\<open>time.Duration\<close> are 64-bit two's complement integers. They are held as
  \<open>int\<close>, and every arithmetic operation of the code that can leave the range goes through \<open>s64\<close>.
\<close>

definition s64 :: "int \<Rightarrow> int" where
  "s64 x = (x + 2 ^ 63) mod 2 ^ 64 - 2 ^ 63"

definition in_s64 :: "int \<Rightarrow> bool" where
  "in_s64 x \<longleftrightarrow> - (2 ^ 63) \<le> x \<and> x < 2 ^ 63"

lemma s64_range [simp]: "in_s64 (s64 x)"
  by (simp add: in_s64_def s64_def)

lemma s64_id [simp]: "in_s64 x \<Longrightarrow> s64 x = x"
  by (simp add: in_s64_def s64_def)

lemma s64_idem [simp]: "s64 (s64 x) = s64 x"
  by simp

lemma s64_wraps: "s64 (2 ^ 63) = - (2 ^ 63)"
  by (simp add: s64_def)

text \<open>Go's \<^verbatim>\<open>/\<close> and \<^verbatim>\<open>%\<close> truncate towards zero.\<close>

definition go_div :: "int \<Rightarrow> int \<Rightarrow> int" where
  "go_div a b = sgn a * sgn b * (\<bar>a\<bar> div \<bar>b\<bar>)"

definition go_mod :: "int \<Rightarrow> int \<Rightarrow> int" where
  "go_mod a b = a - b * go_div a b"

lemma go_div_nonneg: "0 \<le> a \<Longrightarrow> 0 < b \<Longrightarrow> go_div a b = a div b"
  by (cases "a = 0") (simp_all add: go_div_def)

lemma go_mod_nonneg: "0 \<le> a \<Longrightarrow> 0 < b \<Longrightarrow> go_mod a b = a mod b"
  by (simp add: go_mod_def go_div_nonneg minus_mult_div_eq_mod)

lemma go_mod_neg: "0 \<le> a \<Longrightarrow> 0 < b \<Longrightarrow> go_mod (- a) b = - (a mod b)"
proof -
  assume a: "0 \<le> a" and b: "0 < b"
  have "go_div (- a) b = - (a div b)"
    using a b by (cases "a = 0") (simp_all add: go_div_def)
  then show ?thesis
    by (simp add: go_mod_def minus_mult_div_eq_mod [symmetric])
qed

section \<open>Results: a value, an error or a run-time panic\<close>

text \<open>
  A Go function with result \<^verbatim>\<open>(T, error)\<close> returns \<open>Ok\<close> or \<open>Err\<close> with the error. \<open>Panic\<close> is a
  run-time panic (an index out of range, a nil pointer, a closed channel), which no function of the
  program recovers.
\<close>

datatype ('e, 'a) res = Ok 'a | Err 'e | Panic string

fun bind_res :: "('e, 'a) res \<Rightarrow> ('a \<Rightarrow> ('e, 'b) res) \<Rightarrow> ('e, 'b) res" where
  "bind_res (Ok x) f = f x"
| "bind_res (Err e) f = Err e"
| "bind_res (Panic p) f = Panic p"

lemma bind_res_Ok_iff [res_simps]:
  "bind_res m f = Ok y \<longleftrightarrow> (\<exists>x. m = Ok x \<and> f x = Ok y)"
  by (cases m) auto

lemma bind_res_Err_iff [res_simps]:
  "bind_res m f = Err e \<longleftrightarrow> m = Err e \<or> (\<exists>x. m = Ok x \<and> f x = Err e)"
  by (cases m) auto

lemma bind_res_Panic_iff [res_simps]:
  "bind_res m f = Panic e \<longleftrightarrow> m = Panic e \<or> (\<exists>x. m = Ok x \<and> f x = Panic e)"
  by (cases m) auto

section \<open>First match in a list\<close>

text \<open>
  The program keeps its tunnels and its peers in slices, looks one up with a loop that returns the
  first match, and deletes with a loop that cuts the first match out.
\<close>

fun remove_first :: "('a \<Rightarrow> bool) \<Rightarrow> 'a list \<Rightarrow> 'a list" where
  "remove_first P [] = []"
| "remove_first P (x # xs) = (if P x then xs else x # remove_first P xs)"

lemma set_remove_first_subset: "set (remove_first P xs) \<subseteq> set xs"
  by (induction xs) auto

lemma remove_first_cong:
  "(\<And>x. x \<in> set xs \<Longrightarrow> P x = Q x) \<Longrightarrow> remove_first P xs = remove_first Q xs"
  by (induction xs) auto

lemma remove_first_id [simp]: "\<forall>x\<in>set xs. \<not> P x \<Longrightarrow> remove_first P xs = xs"
  by (induction xs) auto

lemma distinct_remove_first: "distinct xs \<Longrightarrow> distinct (remove_first P xs)"
  by (induction xs) (use set_remove_first_subset in fastforce)+

lemma distinct_map_remove_first: "distinct (map f xs) \<Longrightarrow> distinct (map f (remove_first P xs))"
  by (induction xs) (use set_remove_first_subset in fastforce)+

lemma remove_first_split:
  "find P xs = Some x \<Longrightarrow>
     \<exists>us vs. xs = us @ x # vs \<and> P x \<and> (\<forall>u\<in>set us. \<not> P u) \<and> remove_first P xs = us @ vs"
proof (induction xs)
  case Nil
  then show ?case by simp
next
  case (Cons y ys)
  show ?case
  proof (cases "P y")
    case True
    with Cons.prems have "y # ys = [] @ x # ys \<and> P x \<and> (\<forall>u\<in>set []. \<not> P u)
        \<and> remove_first P (y # ys) = [] @ ys"
      by simp
    then show ?thesis by blast
  next
    case False
    with Cons obtain us vs where
      eqs: "ys = us @ x # vs" "P x" "\<forall>u\<in>set us. \<not> P u" "remove_first P ys = us @ vs"
      by auto
    with False have "y # ys = (y # us) @ x # vs \<and> P x \<and> (\<forall>u\<in>set (y # us). \<not> P u)
        \<and> remove_first P (y # ys) = (y # us) @ vs"
      using eqs by simp
    then show ?thesis by blast
  qed
qed

lemma length_remove_first:
  "find P xs = Some x \<Longrightarrow> length xs = Suc (length (remove_first P xs))"
  by (drule remove_first_split) auto

lemma find_remove_first_other:
  "(\<And>x. Q x \<Longrightarrow> \<not> P x) \<Longrightarrow> find Q (remove_first P xs) = find Q xs"
  by (induction xs) auto

lemma find_SomeD: "find P xs = Some x \<Longrightarrow> x \<in> set xs \<and> P x"
  by (induction xs) (auto split: if_splits)

lemma find_append: "find P (xs @ ys) = (case find P xs of None \<Rightarrow> find P ys | Some x \<Rightarrow> Some x)"
  by (induction xs) auto

lemma in_map_filter: "y \<in> set (List.map_filter f xs) \<longleftrightarrow> (\<exists>x\<in>set xs. f x = Some y)"
  by (force simp: List.map_filter_def)

text \<open>With distinct keys a removed key is gone.\<close>

lemma find_remove_first_same:
  "distinct (map f xs) \<Longrightarrow> find (\<lambda>x. f x = k) (remove_first (\<lambda>x. f x = k) xs) = None"
proof (induction xs)
  case Nil
  then show ?case by simp
next
  case (Cons x xs)
  show ?case
  proof (cases "f x = k")
    case True
    with Cons.prems have "\<not> (\<exists>y. y \<in> set xs \<and> f y = k)" by (auto simp: image_iff)
    with True show ?thesis by (simp add: find_None_iff)
  next
    case False
    with Cons show ?thesis by simp
  qed
qed

section \<open>Bytes and strings\<close>

definition byte_char :: "byte \<Rightarrow> char" where
  "byte_char b = char_of (unat b)"

definition char_byte :: "char \<Rightarrow> byte" where
  "char_byte c = of_nat (of_char c)"

lemma char_byte_byte_char [simp]: "char_byte (byte_char b) = b"
proof -
  have "unat b < 256"
    using unsigned_less [of b, where 'a = nat] by simp
  then have "of_char (byte_char b) = unat b"
    by (simp add: byte_char_def)
  then show ?thesis
    by (simp add: char_byte_def)
qed

lemma byte_char_char_byte [simp]: "byte_char (char_byte c) = c"
proof -
  have "(of_char c :: nat) < 256"
    by simp
  then have "unat (char_byte c) = of_char c"
    by (simp add: char_byte_def unat_of_nat)
  then show ?thesis
    by (simp add: byte_char_def)
qed

definition bytes_of :: "string \<Rightarrow> byte list" where
  "bytes_of s = map char_byte s"

definition str_of :: "byte list \<Rightarrow> string" where
  "str_of bs = map byte_char bs"

lemma str_of_bytes_of [simp]: "str_of (bytes_of s) = s"
  by (simp add: str_of_def bytes_of_def comp_def)

lemma bytes_of_str_of [simp]: "bytes_of (str_of s) = s"
  by (simp add: str_of_def bytes_of_def comp_def)

lemma str_of_inj [simp]: "str_of a = str_of b \<longleftrightarrow> a = b"
  by (metis bytes_of_str_of)

lemma length_bytes_of [simp]: "length (bytes_of s) = length s"
  by (simp add: bytes_of_def)

lemma length_str_of [simp]: "length (str_of s) = length s"
  by (simp add: str_of_def)

section \<open>Decimal numbers\<close>

definition is_digit :: "char \<Rightarrow> bool" where
  "is_digit c \<longleftrightarrow> 48 \<le> (of_char c :: nat) \<and> (of_char c :: nat) \<le> 57"

definition digit_val :: "char \<Rightarrow> nat" where
  "digit_val c = of_char c - 48"

definition digit_char :: "nat \<Rightarrow> char" where
  "digit_char d = char_of (48 + d)"

text \<open>The verb \<^verbatim>\<open>%d\<close> of \<^verbatim>\<open>fmt.Sprintf\<close>.\<close>

fun show_nat :: "nat \<Rightarrow> string" where
  "show_nat n = (if n < 10 then [digit_char n] else show_nat (n div 10) @ [digit_char (n mod 10)])"

declare show_nat.simps [simp del]

text \<open>Evaluation goes through the binary integers, whose division is fast in the simplifier.\<close>

definition show_nat_at :: "int \<Rightarrow> string" where
  "show_nat_at i = show_nat (nat i)"

lemma show_nat_at_code [code]:
  "show_nat_at i =
     (if i < 10 then [digit_char (nat i)] else show_nat_at (i div 10) @ [digit_char (nat (i mod 10))])"
proof (cases "i < 10")
  case True
  then have "nat i < 10" by linarith
  with True show ?thesis by (simp add: show_nat_at_def show_nat.simps [of "nat i"])
next
  case False
  then have "\<not> nat i < 10" "nat (i div 10) = nat i div 10" "nat (i mod 10) = nat i mod 10"
    by (simp_all add: nat_div_distrib nat_mod_distrib)
  with False show ?thesis by (simp add: show_nat_at_def show_nat.simps [of "nat i"])
qed

lemma show_nat_code [code]: "show_nat n = show_nat_at (int n)"
  by (simp add: show_nat_at_def)

definition show_int :: "int \<Rightarrow> string" where
  "show_int i = (if i < 0 then CHR ''-'' # show_nat (nat (- i)) else show_nat (nat i))"

definition dec_step :: "nat \<Rightarrow> char \<Rightarrow> nat" where
  "dec_step n c = n * 10 + digit_val c"

definition read_nat :: "string \<Rightarrow> nat" where
  "read_nat s = foldl dec_step 0 s"

lemma foldl_dec_mono: "m \<le> foldl dec_step m t"
proof (induction t arbitrary: m)
  case (Cons c cs)
  have "m \<le> dec_step m c" by (simp add: dec_step_def)
  also have "\<dots> \<le> foldl dec_step (dec_step m c) cs" by (rule Cons.IH)
  finally show ?case by simp
qed simp

lemma of_char_digit_char: "d < 10 \<Longrightarrow> of_char (digit_char d) = 48 + d"
  by (simp add: digit_char_def)

lemma is_digit_digit_char [simp]: "d < 10 \<Longrightarrow> is_digit (digit_char d)"
  by (simp add: is_digit_def of_char_digit_char)

lemma digit_val_digit_char [simp]: "d < 10 \<Longrightarrow> digit_val (digit_char d) = d"
  by (simp add: digit_val_def of_char_digit_char)

lemma show_nat_digits: "c \<in> set (show_nat n) \<Longrightarrow> is_digit c"
proof (induction n rule: show_nat.induct)
  case (1 n)
  show ?case
  proof (cases "n < 10")
    case True
    with 1 show ?thesis by (simp add: show_nat.simps [of n])
  next
    case False
    with 1 show ?thesis by (auto simp: show_nat.simps [of n])
  qed
qed

lemma show_nat_nonempty [simp]: "show_nat n \<noteq> []"
  by (subst show_nat.simps) simp

lemma read_nat_snoc: "read_nat (s @ [c]) = read_nat s * 10 + digit_val c"
  by (simp add: read_nat_def dec_step_def)

lemma read_nat_show_nat [simp]: "read_nat (show_nat n) = n"
proof (induction n rule: show_nat.induct)
  case (1 n)
  show ?case
  proof (cases "n < 10")
    case True
    then show ?thesis
      by (simp add: show_nat.simps [of n] read_nat_def dec_step_def)
  next
    case False
    with 1 show ?thesis
      by (simp add: show_nat.simps [of n] read_nat_snoc)
  qed
qed

lemma show_nat_inj [simp]: "show_nat m = show_nat n \<longleftrightarrow> m = n"
  by (metis read_nat_show_nat)

lemma digit_not_minus: "is_digit c \<Longrightarrow> c \<noteq> CHR ''-''"
  by (auto simp: is_digit_def)

lemma show_int_inj [simp]: "show_int i = show_int j \<longleftrightarrow> i = j"
proof
  have no: "CHR ''-'' # s \<noteq> show_nat n" for s n
    using show_nat_digits [of "CHR ''-''" n] digit_not_minus by (metis list.set_intros(1))
  assume "show_int i = show_int j"
  then show "i = j"
    by (auto simp: show_int_def no no [symmetric] split: if_splits)
qed simp

end
