(* ===== verification/Go_Strings.thy ===== *)
theory Go_Strings
  imports Prelude
begin

text \<open>
  The functions of Go's \<^verbatim>\<open>strings\<close> and \<^verbatim>\<open>path/filepath\<close> packages that the program calls, on byte
  strings: \<^verbatim>\<open>HasPrefix\<close>, \<^verbatim>\<open>HasSuffix\<close>, \<^verbatim>\<open>TrimPrefix\<close>, \<^verbatim>\<open>TrimSuffix\<close>, \<^verbatim>\<open>Split\<close>, \<^verbatim>\<open>SplitN\<close> with limit 2,
  \<^verbatim>\<open>ToUpper\<close>, \<^verbatim>\<open>TrimSpace\<close>, \<^verbatim>\<open>Fields\<close>, \<^verbatim>\<open>Contains\<close>, \<^verbatim>\<open>filepath.Clean\<close> and \<^verbatim>\<open>filepath.Join\<close>.
\<close>

section \<open>Prefixes and suffixes\<close>

definition has_prefix :: "string \<Rightarrow> string \<Rightarrow> bool" where
  "has_prefix s p \<longleftrightarrow> take (length p) s = p"

definition has_suffix :: "string \<Rightarrow> string \<Rightarrow> bool" where
  "has_suffix s p \<longleftrightarrow> length p \<le> length s \<and> drop (length s - length p) s = p"

definition trim_prefix :: "string \<Rightarrow> string \<Rightarrow> string" where
  "trim_prefix s p = (if has_prefix s p then drop (length p) s else s)"

definition trim_suffix :: "string \<Rightarrow> string \<Rightarrow> string" where
  "trim_suffix s p = (if has_suffix s p then take (length s - length p) s else s)"

fun contains :: "string \<Rightarrow> string \<Rightarrow> bool" where
  "contains [] p = (p = [])"
| "contains (c # s) p = (has_prefix (c # s) p \<or> contains s p)"

lemma has_prefix_append [simp]: "has_prefix (p @ s) p"
  by (simp add: has_prefix_def)

lemma has_suffix_append [simp]: "has_suffix (s @ p) p"
  by (simp add: has_suffix_def)

lemma trim_prefix_append [simp]: "trim_prefix (p @ s) p = s"
  by (simp add: trim_prefix_def)

lemma trim_suffix_append [simp]: "trim_suffix (s @ p) p = s"
  by (simp add: trim_suffix_def)

lemma has_suffixD: "has_suffix s p \<Longrightarrow> s = trim_suffix s p @ p"
  unfolding has_suffix_def trim_suffix_def
  by (metis append_take_drop_id)

section \<open>Splitting\<close>

fun split_on :: "char \<Rightarrow> string \<Rightarrow> string list" where
  "split_on c [] = [[]]"
| "split_on c (x # xs) =
     (if x = c then [] # split_on c xs
      else (case split_on c xs of [] \<Rightarrow> [[x]] | y # ys \<Rightarrow> (x # y) # ys))"

text \<open>\<^verbatim>\<open>strings.SplitN(s, sep, 2)\<close>: at most two parts.\<close>

fun split2 :: "char \<Rightarrow> string \<Rightarrow> string list" where
  "split2 c [] = [[]]"
| "split2 c (x # xs) =
     (if x = c then [[], xs]
      else (case split2 c xs of [] \<Rightarrow> [[x]] | y # ys \<Rightarrow> (x # y) # ys))"

fun join_with :: "string \<Rightarrow> string list \<Rightarrow> string" where
  "join_with sep [] = []"
| "join_with sep [x] = x"
| "join_with sep (x # y # ys) = x @ sep @ join_with sep (y # ys)"

lemma split_on_nonempty [simp]: "split_on c s \<noteq> []"
  by (cases s) (auto split: list.splits)

lemma split2_nonempty [simp]: "split2 c s \<noteq> []"
  by (cases s) (auto split: list.splits)

lemma split_on_absent: "c \<notin> set s \<Longrightarrow> split_on c s = [s]"
  by (induction s) auto

lemma split2_absent: "c \<notin> set s \<Longrightarrow> split2 c s = [s]"
  by (induction s) auto

lemma split_on_append: "c \<notin> set a \<Longrightarrow> split_on c (a @ c # b) = a # split_on c b"
  by (induction a) auto

lemma split2_append: "c \<notin> set a \<Longrightarrow> split2 c (a @ c # b) = [a, b]"
  by (induction a) auto

lemma hd_split2_absent: "c \<notin> set (hd (split2 c s))"
proof (induction s)
  case Nil
  then show ?case by simp
next
  case (Cons x xs)
  then show ?case by (auto split: list.splits)
qed

lemma split_on_parts_absent: "p \<in> set (split_on c s) \<Longrightarrow> c \<notin> set p"
proof (induction s arbitrary: p)
  case Nil
  then show ?case by simp
next
  case (Cons x xs)
  show ?case
  proof (cases "x = c")
    case True
    with Cons show ?thesis by auto
  next
    case False
    obtain y ys where s: "split_on c xs = y # ys"
      using split_on_nonempty [of c xs] by (cases "split_on c xs") auto
    with Cons.IH have "c \<notin> set y" and "\<And>q. q \<in> set ys \<Longrightarrow> c \<notin> set q"
      by auto
    with False s Cons.prems show ?thesis by auto
  qed
qed

lemma join_split_on: "join_with [c] (split_on c s) = s"
proof (induction s)
  case Nil
  then show ?case by simp
next
  case (Cons x xs)
  obtain y ys where s: "split_on c xs = y # ys"
    using split_on_nonempty [of c xs] by (cases "split_on c xs") auto
  with Cons show ?case
    by (cases ys) auto
qed

lemma hd_split2_eq_split_on: "hd (split2 c s) = hd (split_on c s)"
proof (induction s)
  case Nil
  then show ?case by simp
next
  case (Cons x xs)
  obtain y ys where "split_on c xs = y # ys"
    using split_on_nonempty [of c xs] by (cases "split_on c xs") auto
  moreover obtain z zs where "split2 c xs = z # zs"
    using split2_nonempty [of c xs] by (cases "split2 c xs") auto
  ultimately show ?case using Cons by simp
qed

section \<open>Case and white space\<close>

definition is_ascii :: "string \<Rightarrow> bool" where
  "is_ascii s \<longleftrightarrow> (\<forall>c \<in> set s. (of_char c :: nat) < 128)"

definition upper_char :: "char \<Rightarrow> char" where
  "upper_char c =
     (if 97 \<le> (of_char c :: nat) \<and> (of_char c :: nat) \<le> 122 then char_of (of_char c - 32 :: nat) else c)"

text \<open>
  \<^verbatim>\<open>strings.ToUpper\<close> maps ASCII letters byte by byte; a string with a byte above 127 goes through
  Unicode's case tables, which are the parameter \<open>uni\<close>.
\<close>

definition to_upper :: "(string \<Rightarrow> string) \<Rightarrow> string \<Rightarrow> string" where
  "to_upper uni s = (if is_ascii s then map upper_char s else uni s)"

text \<open>
  \<open>ws_len s\<close> is the number of bytes of the white-space rune (\<^verbatim>\<open>unicode.IsSpace\<close>) that \<open>s\<close> starts
  with, 0 when it starts with none: the ASCII spaces, and the UTF-8 forms of U+0085, U+00A0, U+1680,
  U+2000 to U+200A, U+2028, U+2029, U+202F, U+205F and U+3000.
\<close>

definition ws_len :: "string \<Rightarrow> nat" where
  "ws_len s =
     (case map of_char (take 3 s) :: nat list of
        [] \<Rightarrow> 0
      | a # r \<Rightarrow>
          if a = 32 \<or> (9 \<le> a \<and> a \<le> 13) then 1
          else (case r of
              [] \<Rightarrow> 0
            | b # r' \<Rightarrow>
                if a = 194 \<and> (b = 133 \<or> b = 160) then 2
                else (case r' of
                    [] \<Rightarrow> 0
                  | c # _ \<Rightarrow>
                      if a = 225 \<and> b = 154 \<and> c = 128
                         \<or> a = 226 \<and> b = 128 \<and> (128 \<le> c \<and> c \<le> 138 \<or> c = 168 \<or> c = 169 \<or> c = 175)
                         \<or> a = 226 \<and> b = 129 \<and> c = 159
                         \<or> a = 227 \<and> b = 128 \<and> c = 128
                      then 3 else 0)))"

definition ws_suffix_len :: "string \<Rightarrow> nat" where
  "ws_suffix_len s =
     (let n = length s in
      if 1 \<le> n \<and> ws_len (drop (n - 1) s) = 1 then 1
      else if 2 \<le> n \<and> ws_len (drop (n - 2) s) = 2 then 2
      else if 3 \<le> n \<and> ws_len (drop (n - 3) s) = 3 then 3
      else 0)"

lemma ws_len_Nil [simp]: "ws_len [] = 0"
  by (simp add: ws_len_def)

lemma ws_suffix_len_le: "ws_suffix_len s \<le> length s"
  by (simp add: ws_suffix_len_def Let_def)

function trim_left :: "string \<Rightarrow> string" where
  "trim_left s = (if ws_len s = 0 then s else trim_left (drop (ws_len s) s))"
  by pat_completeness auto
termination
proof (relation "measure length", goal_cases)
  case 1
  show ?case by simp
next
  case (2 s)
  then have "s \<noteq> []" by auto
  with 2 show ?case by simp
qed

function trim_right :: "string \<Rightarrow> string" where
  "trim_right s =
     (if ws_suffix_len s = 0 then s else trim_right (take (length s - ws_suffix_len s) s))"
  by pat_completeness auto
termination
proof (relation "measure length", goal_cases)
  case 1
  show ?case by simp
next
  case (2 s)
  with ws_suffix_len_le [of s] show ?case by simp
qed

declare trim_left.simps [simp del] trim_right.simps [simp del]

definition trim_space :: "string \<Rightarrow> string" where
  "trim_space s = trim_right (trim_left s)"

text \<open>\<^verbatim>\<open>strings.Fields\<close>: the maximal runs without white space; \<open>cur\<close> is the run read so far.\<close>

function fields_from :: "string \<Rightarrow> string \<Rightarrow> string list" where
  "fields_from cur [] = (if cur = [] then [] else [cur])"
| "fields_from cur (c # s) =
     (if ws_len (c # s) = 0 then fields_from (cur @ [c]) s
      else (if cur = [] then [] else [cur]) @ fields_from [] (drop (ws_len (c # s)) (c # s)))"
  by pat_completeness auto
termination
  by (relation "measure (\<lambda>(cur, s). length s)") (auto simp: neq0_conv)

declare fields_from.simps [simp del]

definition fields :: "string \<Rightarrow> string list" where
  "fields s = fields_from [] s"

section \<open>Slash-separated paths\<close>

text \<open>
  \<^verbatim>\<open>filepath.Clean\<close> on Unix: empty and \<^verbatim>\<open>.\<close> elements go away, \<^verbatim>\<open>..\<close> removes the element before it,
  leading \<^verbatim>\<open>..\<close> elements go away in a rooted path and stay in a relative one. The stack holds the
  elements kept so far, last first.
\<close>

fun clean_elems :: "bool \<Rightarrow> string list \<Rightarrow> string list \<Rightarrow> string list" where
  "clean_elems rooted st [] = rev st"
| "clean_elems rooted st (e # es) =
     (if e = [] \<or> e = ''.'' then clean_elems rooted st es
      else if e = ''..'' then
        (case st of
           [] \<Rightarrow> clean_elems rooted (if rooted then [] else [''..'']) es
         | t # ts \<Rightarrow> clean_elems rooted (if t = ''..'' then ''..'' # st else ts) es)
      else clean_elems rooted (e # st) es)"

definition path_clean :: "string \<Rightarrow> string" where
  "path_clean s =
     (let rooted = has_prefix s ''/'';
          body = join_with ''/'' (clean_elems rooted [] (split_on (CHR ''/'') s))
      in if rooted then CHR ''/'' # body else if body = [] then ''.'' else body)"

text \<open>\<^verbatim>\<open>filepath.Join(a, b)\<close>.\<close>

definition path_join :: "string \<Rightarrow> string \<Rightarrow> string" where
  "path_join a b =
     (if a \<noteq> [] then path_clean (a @ ''/'' @ b) else if b \<noteq> [] then path_clean b else [])"


text \<open>
  A clean directory path stays itself under \<^verbatim>\<open>Clean\<close>. Joining it with one plain element appends
  that element, and the result is clean again.
\<close>

definition plain_elem :: "string \<Rightarrow> bool" where
  "plain_elem e \<longleftrightarrow> e \<noteq> [] \<and> e \<noteq> ''.'' \<and> e \<noteq> ''..'' \<and> CHR ''/'' \<notin> set e"

definition clean_dir :: "string \<Rightarrow> bool" where
  "clean_dir d \<longleftrightarrow> path_clean d = d \<and> d \<noteq> ''/'' \<and> d \<noteq> ''.''"

lemma split_on_snoc: "c \<notin> set e \<Longrightarrow> split_on c (d @ c # e) = split_on c d @ [e]"
proof (induction d)
  case Nil
  then show ?case by (simp add: split_on_absent)
next
  case (Cons x xs)
  obtain y ys where "split_on c xs = y # ys"
    using split_on_nonempty [of c xs] by (cases "split_on c xs") auto
  with Cons show ?case by simp
qed

lemma clean_elems_append:
  "clean_elems r st (xs @ ys) = clean_elems r (rev (clean_elems r st xs)) ys"
  by (induction r st xs rule: clean_elems.induct) (auto split: list.splits)

lemma clean_elems_plain: "plain_elem e \<Longrightarrow> clean_elems r st [e] = rev (e # st)"
  by (simp add: plain_elem_def)

lemma join_with_snoc: "xs \<noteq> [] \<Longrightarrow> join_with sep (xs @ [e]) = join_with sep xs @ sep @ e"
  by (induction sep xs rule: join_with.induct) auto

lemma path_clean_child:
  assumes "clean_dir d" and "plain_elem e"
  shows "path_clean (d @ ''/'' @ e) = d @ ''/'' @ e"
proof -
  let ?r = "has_prefix d ''/''"
  let ?D = "clean_elems ?r [] (split_on (CHR ''/'') d)"
  have d: "path_clean d = d" and nr: "d \<noteq> ''/''" "d \<noteq> ''.''"
    using assms(1) by (simp_all add: clean_dir_def)
  have D: "?D \<noteq> []"
    using d nr by (auto simp: path_clean_def Let_def split: if_splits)
  have dn: "d \<noteq> []"
    using d by (auto simp: path_clean_def Let_def has_prefix_def)
  then have r: "has_prefix (d @ ''/'' @ e) ''/'' = ?r"
    by (cases d) (simp_all add: has_prefix_def)
  have "split_on (CHR ''/'') (d @ ''/'' @ e) = split_on (CHR ''/'') d @ [e]"
    using assms(2) by (simp add: split_on_snoc plain_elem_def)
  then have "clean_elems ?r [] (split_on (CHR ''/'') (d @ ''/'' @ e)) = ?D @ [e]"
    using clean_elems_plain [OF assms(2)] by (simp add: clean_elems_append del: clean_elems.simps)
  moreover have "join_with ''/'' (?D @ [e]) = join_with ''/'' ?D @ ''/'' @ e"
    using D by (rule join_with_snoc)
  ultimately have "path_clean (d @ ''/'' @ e) =
      (if ?r then CHR ''/'' # join_with ''/'' ?D else join_with ''/'' ?D) @ ''/'' @ e"
    using r by (cases ?r) (simp_all add: path_clean_def Let_def)
  also have "(if ?r then CHR ''/'' # join_with ''/'' ?D else join_with ''/'' ?D) = d"
    using d nr(2) by (auto simp: path_clean_def Let_def split: if_splits)
  finally show ?thesis .
qed

lemma clean_dir_nonempty: "clean_dir d \<Longrightarrow> d \<noteq> []"
  by (auto simp: clean_dir_def path_clean_def Let_def has_prefix_def)

lemma path_join_child: "clean_dir d \<Longrightarrow> plain_elem e \<Longrightarrow> path_join d e = d @ ''/'' @ e"
  using path_clean_child [of d e] by (simp add: path_join_def clean_dir_nonempty)

lemma plain_elem_conf: "CHR ''/'' \<notin> set n \<Longrightarrow> plain_elem (n @ ''.conf'')"
  by (auto simp: plain_elem_def append_eq_Cons_conv)

end
