(* ===== verification/Utf8.thy ===== *)
theory Utf8
  imports Go_Strings
begin

text \<open>
  UTF-8 as Go decodes it, and \<^verbatim>\<open>%q\<close>, with which the program's error messages quote names. Which
  runes outside ASCII are printable is a table of the Unicode standard; it is an argument.
\<close>

definition hex_char :: "nat \<Rightarrow> char" where
  "hex_char d = char_of (if d < 10 then 48 + d else 87 + d)"

section \<open>UTF-8\<close>

definition byte_in :: "nat \<Rightarrow> nat \<Rightarrow> char \<Rightarrow> bool" where
  "byte_in lo hi c \<longleftrightarrow> lo \<le> (of_char c :: nat) \<and> (of_char c :: nat) \<le> hi"

definition cont :: "char \<Rightarrow> bool" where
  "cont c \<longleftrightarrow> byte_in 0x80 0xBF c"

text \<open>The valid sequences of two, three and four bytes, and the length of the one a string begins with.\<close>

definition utf8_2 :: "char \<Rightarrow> char \<Rightarrow> bool" where
  "utf8_2 a b \<longleftrightarrow> byte_in 0xC2 0xDF a \<and> cont b"

definition utf8_3 :: "char \<Rightarrow> char \<Rightarrow> char \<Rightarrow> bool" where
  "utf8_3 a b c \<longleftrightarrow> cont c \<and>
     (byte_in 0xE0 0xE0 a \<and> byte_in 0xA0 0xBF b \<or>
      byte_in 0xE1 0xEC a \<and> cont b \<or>
      byte_in 0xED 0xED a \<and> byte_in 0x80 0x9F b \<or>
      byte_in 0xEE 0xEF a \<and> cont b)"

definition utf8_4 :: "char \<Rightarrow> char \<Rightarrow> char \<Rightarrow> char \<Rightarrow> bool" where
  "utf8_4 a b c e \<longleftrightarrow> cont c \<and> cont e \<and>
     (byte_in 0xF0 0xF0 a \<and> byte_in 0x90 0xBF b \<or>
      byte_in 0xF1 0xF3 a \<and> cont b \<or>
      byte_in 0xF4 0xF4 a \<and> byte_in 0x80 0x8F b)"

definition rune_len :: "string \<Rightarrow> nat" where
  "rune_len s =
     (case s of
        [] \<Rightarrow> 0
      | a # s1 \<Rightarrow>
          if byte_in 0 0x7F a then 1
          else (case s1 of
              [] \<Rightarrow> 0
            | b # s2 \<Rightarrow>
                if utf8_2 a b then 2
                else (case s2 of
                    [] \<Rightarrow> 0
                  | c # s3 \<Rightarrow>
                      if utf8_3 a b c then 3
                      else (case s3 of [] \<Rightarrow> 0 | e # s4 \<Rightarrow> if utf8_4 a b c e then 4 else 0))))"

lemma rune_cases [case_names nil one two three more]:
  fixes s :: string
  obtains "s = []" | a where "s = [a]" | a b where "s = [a, b]" | a b c where "s = [a, b, c]"
    | a b c e t where "s = a # b # c # e # t"
  by (cases s rule: list.exhaust; metis list.exhaust)

lemma rune_len_le4: "rune_len s \<le> 4"
  by (simp add: rune_len_def split: list.split)

lemma rune_len_le: "rune_len s \<le> length s"
  by (cases s rule: rune_cases) (simp_all add: rune_len_def)

lemma rune_len_append: "0 < rune_len s \<Longrightarrow> rune_len (s @ r) = rune_len s"
  by (cases s rule: rune_cases) (simp_all add: rune_len_def split: if_splits)

lemma rune_len_take: "0 < rune_len s \<Longrightarrow> rune_len (take (rune_len s) s) = rune_len s"
  by (cases s rule: rune_cases) (simp_all add: rune_len_def split: if_splits)

lemma rune_len_nonempty [simp]: "rune_len [] = 0"
  by (simp add: rune_len_def)

function valid_utf8 :: "string \<Rightarrow> bool" where
  "valid_utf8 s =
     (if s = [] then True else if rune_len s = 0 then False else valid_utf8 (drop (rune_len s) s))"
  by pat_completeness auto
termination
  by (relation "measure length") auto

declare valid_utf8.simps [simp del]

definition replacement :: string where
  "replacement = [CHR 0xEF, CHR 0xBF, CHR 0xBD]"

text \<open>The UTF-8 form of a code point; surrogates and numbers out of range give the replacement.\<close>

definition utf8_enc :: "nat \<Rightarrow> string" where
  "utf8_enc n =
     (if n < 0x80 then [char_of n]
      else if n < 0x800 then [char_of (0xC0 + n div 64), char_of (0x80 + n mod 64)]
      else if 0xD800 \<le> n \<and> n < 0xE000 \<or> 0x10FFFF < n then replacement
      else if n < 0x10000
      then [char_of (0xE0 + n div 4096), char_of (0x80 + n div 64 mod 64), char_of (0x80 + n mod 64)]
      else [char_of (0xF0 + n div 262144), char_of (0x80 + n div 4096 mod 64),
            char_of (0x80 + n div 64 mod 64), char_of (0x80 + n mod 64)])"

section \<open>Quoting\<close>

text \<open>The code point of a valid sequence.\<close>

definition rune_value :: "string \<Rightarrow> nat" where
  "rune_value s =
     (case map of_char s of
        [a] \<Rightarrow> a
      | [a, b] \<Rightarrow> (a mod 32) * 64 + b mod 64
      | [a, b, c] \<Rightarrow> (a mod 16) * 4096 + (b mod 64) * 64 + c mod 64
      | [a, b, c, d] \<Rightarrow> (a mod 8) * 262144 + (b mod 64) * 4096 + (c mod 64) * 64 + d mod 64
      | _ \<Rightarrow> 0)"

fun hex_digits :: "nat \<Rightarrow> nat \<Rightarrow> string" where
  "hex_digits 0 n = []"
| "hex_digits (Suc k) n = hex_digits k (n div 16) @ [hex_char (n mod 16)]"

definition quote_rune :: "(string \<Rightarrow> bool) \<Rightarrow> string \<Rightarrow> string" where
  "quote_rune pr r =
     (let n = rune_value r; c = hd r; b = CHR 0x5C in
      if n = 0x22 \<or> n = 0x5C then [b, c]
      else if (if n < 0x80 then 0x20 \<le> n \<and> n < 0x7F else pr r) then r
      else if n = 7 then [b, CHR ''a'']
      else if n = 8 then [b, CHR ''b'']
      else if n = 12 then [b, CHR ''f'']
      else if n = 10 then [b, CHR ''n'']
      else if n = 13 then [b, CHR ''r'']
      else if n = 9 then [b, CHR ''t'']
      else if n = 11 then [b, CHR ''v'']
      else if n < 0x20 \<or> n = 0x7F then b # CHR ''x'' # hex_digits 2 n
      else if n < 0x10000 then b # CHR ''u'' # hex_digits 4 n
      else b # CHR ''U'' # hex_digits 8 n)"

function quote_body :: "(string \<Rightarrow> bool) \<Rightarrow> string \<Rightarrow> string" where
  "quote_body pr s =
     (if s = [] then []
      else if rune_len s = 0
      then CHR 0x5C # CHR ''x'' # hex_digits 2 (of_char (hd s)) @ quote_body pr (drop 1 s)
      else quote_rune pr (take (rune_len s) s) @ quote_body pr (drop (rune_len s) s))"
  by pat_completeness auto
termination
  by (relation "measure (length \<circ> snd)") auto

declare quote_body.simps [simp del]

definition go_quote :: "(string \<Rightarrow> bool) \<Rightarrow> string \<Rightarrow> string" where
  "go_quote pr s = CHR 0x22 # quote_body pr s @ [CHR 0x22]"

end
