(* ===== verification/Os.thy ===== *)
theory Os
  imports Utf8 "HOL-Library.AList" "HOL-Library.List_Lexorder" "HOL-Library.Char_ord"
begin

text \<open>
  The part of the operating system that the program sees through Go's \<^verbatim>\<open>os\<close>, \<^verbatim>\<open>os/exec\<close> and \<^verbatim>\<open>time\<close>
  packages. A \<open>world\<close> holds the regular files (by cleaned path), the directories, the number of
  system calls made so far and the log of commands and signals the program has issued. An \<open>env\<close> is
  what the machine decides: at each system call, numbered by \<open>tick\<close>, whether it fails and with
  which text, what a command prints, what the clock shows, what random bytes come out. Every theorem
  is about all environments.
\<close>

datatype os_err = NotExist string | OsErr string

fun os_text :: "os_err \<Rightarrow> string" where
  "os_text (NotExist s) = s"
| "os_text (OsErr s) = s"

datatype event =
    Exec "string list" string  \<comment> \<open>a command run to its end: argument vector and standard input\<close>
  | Spawn "string list" nat    \<comment> \<open>a command started in the background, with its process id\<close>
  | Interrupt nat
  | Kill nat

record world =
  files :: "(string \<times> string) list"
  dirs :: "string list"
  tick :: nat
  trace :: "event list"

record env =
  read_fault :: "nat \<Rightarrow> string \<Rightarrow> string option"
  dir_fault :: "nat \<Rightarrow> string \<Rightarrow> string option"
  write_fault :: "nat \<Rightarrow> string \<Rightarrow> (string \<times> string option) option"
  remove_fault :: "nat \<Rightarrow> string \<Rightarrow> string option"
  temp_fault :: "nat \<Rightarrow> string \<Rightarrow> string option"
  temp_rand :: "nat \<Rightarrow> string"
  temp_dir :: string
  exec_result :: "nat \<Rightarrow> string list \<Rightarrow> string \<Rightarrow> string \<times> string option"
  spawn_result :: "nat \<Rightarrow> string list \<Rightarrow> string + nat"
  clock :: "nat \<Rightarrow> int"
  entropy :: "nat \<Rightarrow> string + byte list"
  exits_in_time :: "nat \<Rightarrow> nat \<Rightarrow> bool"  \<comment> \<open>the process ends within five seconds of an interrupt\<close>
  uni_upper :: "string \<Rightarrow> string"       \<comment> \<open>Unicode upper case of a string that is not ASCII\<close>
  uni_print :: "string \<Rightarrow> bool"         \<comment> \<open>a rune outside ASCII is printable\<close>

definition tock :: "world \<Rightarrow> world" where
  "tock w = w\<lparr>tick := Suc (tick w)\<rparr>"

definition file_at :: "world \<Rightarrow> string \<Rightarrow> string option" where
  "file_at w p = map_of (files w) (path_clean p)"

section \<open>Files\<close>

definition read_file :: "env \<Rightarrow> world \<Rightarrow> string \<Rightarrow> (os_err, string) res \<times> world" where
  "read_file E w p =
     ((case read_fault E (tick w) p of
         Some e \<Rightarrow> Err (OsErr e)
       | None \<Rightarrow>
           (case file_at w p of
              None \<Rightarrow> Err (NotExist (''open '' @ p @ '': no such file or directory''))
            | Some s \<Rightarrow> Ok s)),
      tock w)"

text \<open>
  A failing \<^verbatim>\<open>os.WriteFile\<close> either could not open the file, which then keeps its content, or stopped
  part of the way, which leaves a partial content.
\<close>

definition write_file :: "env \<Rightarrow> world \<Rightarrow> string \<Rightarrow> string \<Rightarrow> os_err option \<times> world" where
  "write_file E w p s =
     (case write_fault E (tick w) p of
        None \<Rightarrow> (None, tock (w\<lparr>files := AList.update (path_clean p) s (files w)\<rparr>))
      | Some (e, None) \<Rightarrow> (Some (OsErr e), tock w)
      | Some (e, Some part) \<Rightarrow>
          (Some (OsErr e), tock (w\<lparr>files := AList.update (path_clean p) part (files w)\<rparr>)))"

definition remove_file :: "env \<Rightarrow> world \<Rightarrow> string \<Rightarrow> os_err option \<times> world" where
  "remove_file E w p =
     (case remove_fault E (tick w) p of
        Some e \<Rightarrow> (Some (OsErr e), tock w)
      | None \<Rightarrow>
          (case file_at w p of
             None \<Rightarrow> (Some (NotExist (''remove '' @ p @ '': no such file or directory'')), tock w)
           | Some _ \<Rightarrow> (None, tock (w\<lparr>files := AList.delete (path_clean p) (files w)\<rparr>))))"

text \<open>
  \<^verbatim>\<open>os.CreateTemp("", pattern)\<close>: the last star of the pattern becomes a random string (which is
  appended when there is no star); a pattern with a slash is refused; an existing file is never
  opened.
\<close>

definition temp_path :: "env \<Rightarrow> nat \<Rightarrow> string \<Rightarrow> string" where
  "temp_path E n pattern =
     (let r = rev pattern;
          suf = takeWhile (\<lambda>c. c \<noteq> CHR ''*'') r;
          rest = drop (Suc (length suf)) r
      in temp_dir E @ ''/'' @
         (if CHR ''*'' \<in> set pattern then rev rest @ temp_rand E n @ rev suf
          else pattern @ temp_rand E n))"

definition create_temp :: "env \<Rightarrow> world \<Rightarrow> string \<Rightarrow> (os_err, string) res \<times> world" where
  "create_temp E w pattern =
     (if CHR ''/'' \<in> set pattern
      then (Err (OsErr (''createtemp '' @ pattern @ '': pattern contains path separator'')), tock w)
      else (case temp_fault E (tick w) pattern of
          Some e \<Rightarrow> (Err (OsErr e), tock w)
        | None \<Rightarrow>
            (let p = temp_path E (tick w) pattern in
             if file_at w p = None
             then (Ok p, tock (w\<lparr>files := AList.update (path_clean p) [] (files w)\<rparr>))
             else (Err (OsErr (''createtemp '' @ p @ '': file exists'')), tock w))))"

text \<open>
  \<^verbatim>\<open>os.ReadDir\<close>: the entries of a directory sorted by name, each with whether it is a directory.
\<close>

definition entry_of :: "string \<Rightarrow> string \<Rightarrow> string option" where
  "entry_of d p =
     (if has_prefix p (d @ ''/'') \<and> drop (Suc (length d)) p \<noteq> []
         \<and> CHR ''/'' \<notin> set (drop (Suc (length d)) p)
      then Some (drop (Suc (length d)) p) else None)"

definition read_dir :: "env \<Rightarrow> world \<Rightarrow> string \<Rightarrow> (os_err, (string \<times> bool) list) res \<times> world" where
  "read_dir E w d =
     ((case dir_fault E (tick w) d of
         Some e \<Rightarrow> Err (OsErr e)
       | None \<Rightarrow>
           if path_clean d \<notin> set (dirs w)
           then Err (NotExist (''open '' @ d @ '': no such file or directory''))
           else Ok (sort_key fst (map (\<lambda>n. (n, False)) (List.map_filter (entry_of (path_clean d)) (map fst (files w)))
                      @ map (\<lambda>n. (n, True)) (List.map_filter (entry_of (path_clean d)) (dirs w))))),
      tock w)"

section \<open>Commands, clock and random bytes\<close>

definition exec :: "env \<Rightarrow> world \<Rightarrow> string list \<Rightarrow> string \<Rightarrow> (string \<times> string option) \<times> world" where
  "exec E w argv inp =
     (exec_result E (tick w) argv inp, tock (w\<lparr>trace := trace w @ [Exec argv inp]\<rparr>))"

definition spawn :: "env \<Rightarrow> world \<Rightarrow> string list \<Rightarrow> (string + nat) \<times> world" where
  "spawn E w argv =
     (case spawn_result E (tick w) argv of
        Inl e \<Rightarrow> (Inl e, tock w)
      | Inr pid \<Rightarrow> (Inr pid, tock (w\<lparr>trace := trace w @ [Spawn argv pid]\<rparr>)))"

definition note_event :: "world \<Rightarrow> event \<Rightarrow> world" where
  "note_event w e = tock (w\<lparr>trace := trace w @ [e]\<rparr>)"

definition now :: "env \<Rightarrow> world \<Rightarrow> int \<times> world" where
  "now E w = (clock E (tick w), tock w)"

section \<open>What the calls do to the files\<close>

lemma tock_simps [simp]:
  "files (tock w) = files w" "dirs (tock w) = dirs w" "trace (tock w) = trace w"
  by (simp_all add: tock_def)

lemma file_at_tock [simp]: "file_at (tock w) p = file_at w p"
  by (simp add: file_at_def)

lemma file_at_trace [simp]: "file_at (w\<lparr>trace := t\<rparr>) p = file_at w p"
  by (simp add: file_at_def)

lemma file_at_update [simp]:
  "file_at (w\<lparr>files := AList.update (path_clean p) s (files w)\<rparr>) q =
     (if path_clean q = path_clean p then Some s else file_at w q)"
  by (auto simp: file_at_def update_conv')

lemma file_at_delete [simp]:
  "file_at (w\<lparr>files := AList.delete (path_clean p) (files w)\<rparr>) q =
     (if path_clean q = path_clean p then None else file_at w q)"
  by (auto simp: file_at_def delete_conv')

lemma snd_read_file [simp]: "snd (read_file E w p) = tock w"
  by (simp add: read_file_def)

lemma read_file_Ok_iff: "fst (read_file E w p) = Ok s \<longleftrightarrow>
   read_fault E (tick w) p = None \<and> file_at w p = Some s"
  by (auto simp: read_file_def split: option.splits)

lemma write_file_ok:
  "write_file E w p s = (None, w') \<Longrightarrow> file_at w' p = Some s"
  by (auto simp: write_file_def split: option.splits)

lemma write_file_frame:
  "path_clean q \<noteq> path_clean p \<Longrightarrow> file_at (snd (write_file E w p s)) q = file_at w q"
  by (auto simp: write_file_def split: option.splits)

lemma remove_file_frame:
  "path_clean q \<noteq> path_clean p \<Longrightarrow> file_at (snd (remove_file E w p)) q = file_at w q"
  by (auto simp: remove_file_def split: option.splits)

lemma remove_file_gone:
  "fst (remove_file E w p) \<noteq> None \<Longrightarrow> snd (remove_file E w p) = tock w"
  "fst (remove_file E w p) = None \<Longrightarrow> file_at (snd (remove_file E w p)) p = None"
  by (auto simp: remove_file_def split: option.splits)

lemma create_temp_Ok:
  assumes "create_temp E w pat = (Ok p, w')"
  shows "file_at w p = None" "file_at w' p = Some []"
    "path_clean q \<noteq> path_clean p \<Longrightarrow> file_at w' q = file_at w q"
  using assms by (auto simp: create_temp_def Let_def split: if_splits option.splits)

lemma create_temp_keeps:
  "file_at w q = Some s \<Longrightarrow> file_at (snd (create_temp E w pat)) q = Some s"
  by (auto simp: create_temp_def Let_def file_at_def update_conv' split: if_splits option.splits)

lemma entry_of_join [simp]:
  "n \<noteq> [] \<Longrightarrow> CHR ''/'' \<notin> set n \<Longrightarrow> entry_of d (d @ ''/'' @ n) = Some n"
  by (simp add: entry_of_def has_prefix_def)

lemma entry_of_SomeD: "entry_of d p = Some n \<Longrightarrow> p = d @ ''/'' @ n \<and> CHR ''/'' \<notin> set n \<and> n \<noteq> []"
  unfolding entry_of_def has_prefix_def
  by (auto split: if_splits)
     (metis append_Cons append_Nil append_assoc append_take_drop_id length_append_singleton)

end
