(* ===== verification/Tunnels.thy ===== *)
theory Tunnels
  imports Os
begin

text \<open>
  The tunnel manager, \<^verbatim>\<open>internal/tunnels/manager.go\<close>. The tunnels are shared through pointers (the
  manager's slice, the snapshots \<^verbatim>\<open>GetTunnels\<close> returns, the country proxies and the goroutines all
  hold them), so they live in a heap, \<open>m_heap\<close>, and a pointer is an index into it. Every section of
  the code that runs under a tunnel's mutex is one function here; a goroutine blocked in
  \<^verbatim>\<open>cmd.Wait\<close> is an element of \<open>m_waiters\<close>, and \<open>wait_exit\<close> is what it does when the process ends.
\<close>

section \<open>Data\<close>

datatype TunnelStatus =
    StatusStopped | StatusStarting | StatusRunning | StatusUnhealthy | StatusError
  | StatusDisconnected

fun status_String :: "TunnelStatus \<Rightarrow> string" where
  "status_String StatusStopped = ''stopped''"
| "status_String StatusStarting = ''starting''"
| "status_String StatusRunning = ''healthy''"
| "status_String StatusUnhealthy = ''unhealthy''"
| "status_String StatusError = ''error''"
| "status_String StatusDisconnected = ''disconnected''"

lemma status_String_inj: "status_String a = status_String b \<longleftrightarrow> a = b"
  by (cases a; cases b) simp_all

record tunnel =
  t_Name :: string
  t_ConfigPath :: string
  t_ProxyPort :: int
  t_Status :: TunnelStatus
  t_Latency :: int
  t_LastCheck :: "int option"
  t_StartedAt :: "int option"
  t_Error :: string
  t_Country :: string
  t_ExitIP :: string
  t_BytesIn :: int
  t_BytesOut :: int
  t_ConnCount :: int
  t_cmd :: "nat option"
  t_tmpConf :: string
  t_done :: "nat option"

record manager =
  m_tunnels :: "nat list"
  m_configDir :: string
  m_basePort :: int
  m_nextPort :: int
  m_heap :: "tunnel list"
  m_nchan :: nat
  m_closed :: "nat list"
  m_waiters :: "(nat \<times> nat) list"

datatype tun_err =
    ReadingConfigDir string os_err
  | TunnelNotFound string
  | ReadingConfig os_err
  | CreatingTemp os_err
  | WritingConfig os_err
  | RemovingConfigFile os_err
  | WritingConfigFile os_err

definition NewManager :: "string \<Rightarrow> int \<Rightarrow> manager" where
  "NewManager dir base =
     \<lparr>m_tunnels = [], m_configDir = dir, m_basePort = base, m_nextPort = base, m_heap = [],
      m_nchan = 0, m_closed = [], m_waiters = []\<rparr>"

abbreviation tun :: "manager \<Rightarrow> nat \<Rightarrow> tunnel" where
  "tun m i \<equiv> m_heap m ! i"

definition upd :: "manager \<Rightarrow> nat \<Rightarrow> (tunnel \<Rightarrow> tunnel) \<Rightarrow> manager" where
  "upd m i f = m\<lparr>m_heap := (m_heap m)[i := f (tun m i)]\<rparr>"

definition IsHealthy :: "tunnel \<Rightarrow> bool" where
  "IsHealthy t \<longleftrightarrow> t_Status t = StatusRunning"

section \<open>Loading and looking up\<close>

definition extractCountryFromName :: "env \<Rightarrow> string \<Rightarrow> string" where
  "extractCountryFromName E name =
     (let p = hd (split2 (CHR ''-'') name)
      in if length p = 2 then to_upper (uni_upper E) p else [])"

text \<open>The struct literal that \<^verbatim>\<open>LoadConfigs\<close> and \<^verbatim>\<open>ImportConfig\<close> share.\<close>

definition new_tunnel :: "env \<Rightarrow> string \<Rightarrow> string \<Rightarrow> int \<Rightarrow> tunnel" where
  "new_tunnel E name confPath port =
     \<lparr>t_Name = name, t_ConfigPath = confPath, t_ProxyPort = port, t_Status = StatusStopped,
      t_Latency = 0, t_LastCheck = None, t_StartedAt = None, t_Error = [],
      t_Country = extractCountryFromName E name, t_ExitIP = [], t_BytesIn = 0, t_BytesOut = 0,
      t_ConnCount = 0, t_cmd = None, t_tmpConf = [], t_done = None\<rparr>"

definition add_tunnel :: "env \<Rightarrow> manager \<Rightarrow> string \<Rightarrow> string \<Rightarrow> manager" where
  "add_tunnel E m name confPath =
     m\<lparr>m_heap := m_heap m @ [new_tunnel E name confPath (m_nextPort m)],
       m_tunnels := m_tunnels m @ [length (m_heap m)],
       m_nextPort := s64 (m_nextPort m + 1)\<rparr>"

fun load_entries :: "env \<Rightarrow> manager \<Rightarrow> (string \<times> bool) list \<Rightarrow> manager" where
  "load_entries E m [] = m"
| "load_entries E m ((name, isDir) # es) =
     (if isDir \<or> \<not> has_suffix name ''.conf'' then load_entries E m es
      else load_entries E
             (add_tunnel E m (trim_suffix name ''.conf'') (path_join (m_configDir m) name)) es)"

definition LoadConfigs :: "env \<Rightarrow> world \<Rightarrow> manager \<Rightarrow> (tun_err, manager) res \<times> world" where
  "LoadConfigs E w m =
     (case read_dir E w (m_configDir m) of
        (Ok entries, w') \<Rightarrow> (Ok (load_entries E m entries), w')
      | (Err e, w') \<Rightarrow> (Err (ReadingConfigDir (m_configDir m) e), w')
      | (Panic p, w') \<Rightarrow> (Panic p, w'))"

definition GetTunnel :: "manager \<Rightarrow> string \<Rightarrow> nat option" where
  "GetTunnel m name = find (\<lambda>i. t_Name (tun m i) = name) (m_tunnels m)"

definition GetTunnels :: "manager \<Rightarrow> nat list" where
  "GetTunnels m = m_tunnels m"

definition HealthyBackends :: "manager \<Rightarrow> int list" where
  "HealthyBackends m = map (\<lambda>i. t_ProxyPort (tun m i)) (filter (\<lambda>i. IsHealthy (tun m i)) (m_tunnels m))"

section \<open>Starting a tunnel\<close>

definition socks5_section :: "int \<Rightarrow> string" where
  "socks5_section port =
     [CHR 0x0A] @ ''[Socks5]'' @ [CHR 0x0A] @ ''BindAddress = 127.0.0.1:'' @ show_int port @ [CHR 0x0A]"

definition generateWireproxyConfig ::
    "env \<Rightarrow> world \<Rightarrow> tunnel \<Rightarrow> (tun_err, string) res \<times> world" where
  "generateWireproxyConfig E w t =
     (case read_file E w (t_ConfigPath t) of
        (Err e, w1) \<Rightarrow> (Err (ReadingConfig e), w1)
      | (Panic p, w1) \<Rightarrow> (Panic p, w1)
      | (Ok srcData, w1) \<Rightarrow>
          (let content = srcData @ socks5_section (t_ProxyPort t) in
           case create_temp E w1 (''wg-proxy-'' @ t_Name t @ ''-*.conf'') of
             (Err e, w2) \<Rightarrow> (Err (CreatingTemp e), w2)
           | (Panic p, w2) \<Rightarrow> (Panic p, w2)
           | (Ok tmp, w2) \<Rightarrow>
               (case write_file E w2 tmp content of
                  (Some e, w3) \<Rightarrow> (Err (WritingConfig e), snd (remove_file E w3 tmp))
                | (None, w3) \<Rightarrow> (Ok tmp, w3))))"

fun tun_err_text :: "env \<Rightarrow> tun_err \<Rightarrow> string" where
  "tun_err_text E (ReadingConfigDir d e) = ''reading config dir '' @ d @ '': '' @ os_text e"
| "tun_err_text E (TunnelNotFound n) = ''tunnel '' @ go_quote (uni_print E) n @ '' not found''"
| "tun_err_text E (ReadingConfig e) = ''reading config: '' @ os_text e"
| "tun_err_text E (CreatingTemp e) = ''creating temp file: '' @ os_text e"
| "tun_err_text E (WritingConfig e) = ''writing config: '' @ os_text e"
| "tun_err_text E (RemovingConfigFile e) = ''removing config file: '' @ os_text e"
| "tun_err_text E (WritingConfigFile e) = ''writing config file: '' @ os_text e"

definition start_begin :: "manager \<Rightarrow> nat \<Rightarrow> manager" where
  "start_begin m i = upd m i (\<lambda>t. t\<lparr>t_Status := StatusStarting, t_Error := []\<rparr>)"

definition start_error :: "manager \<Rightarrow> nat \<Rightarrow> string \<Rightarrow> manager" where
  "start_error m i txt = upd m i (\<lambda>t. t\<lparr>t_Status := StatusError, t_Error := txt\<rparr>)"

definition start_conf :: "manager \<Rightarrow> nat \<Rightarrow> string \<Rightarrow> manager" where
  "start_conf m i tmp =
     (upd m i (\<lambda>t. t\<lparr>t_tmpConf := tmp, t_done := Some (m_nchan m)\<rparr>))\<lparr>m_nchan := Suc (m_nchan m)\<rparr>"

definition start_run :: "manager \<Rightarrow> nat \<Rightarrow> nat \<Rightarrow> int \<Rightarrow> manager" where
  "start_run m i pid at =
     (upd m i (\<lambda>t. t\<lparr>t_cmd := Some pid, t_StartedAt := Some at, t_Status := StatusRunning\<rparr>))
       \<lparr>m_waiters := (pid, i) # m_waiters m\<rparr>"

definition startTunnel :: "env \<Rightarrow> world \<Rightarrow> manager \<Rightarrow> nat \<Rightarrow> manager \<times> world" where
  "startTunnel E w m i =
     (let m1 = start_begin m i in
      case generateWireproxyConfig E w (tun m1 i) of
        (Ok tmp, w1) \<Rightarrow>
          (let m2 = start_conf m1 i tmp in
           case spawn E w1 [''wireproxy'', ''-c'', tmp] of
             (Inl e, w2) \<Rightarrow> (start_error m2 i (''failed to start wireproxy: '' @ e), w2)
           | (Inr pid, w2) \<Rightarrow> (let (at, w3) = now E w2 in (start_run m2 i pid at, w3)))
      | (Err e, w1) \<Rightarrow> (start_error m1 i (''config generation failed: '' @ tun_err_text E e), w1)
      | (Panic p, w1) \<Rightarrow> (m1, w1))"

text \<open>
  The goroutine that waits for the process: the section under the mutex, then \<^verbatim>\<open>close(t.done)\<close> on
  whatever channel the field holds by then. Closing a closed or a nil channel panics.
\<close>

definition exit_text :: "string option \<Rightarrow> string" where
  "exit_text err = (case err of Some e \<Rightarrow> ''process exited: '' @ e
                              | None \<Rightarrow> ''process exited unexpectedly'')"

definition close_done :: "manager \<Rightarrow> nat \<Rightarrow> ('e, manager) res" where
  "close_done m i =
     (case t_done (tun m i) of
        None \<Rightarrow> Panic ''close of nil channel''
      | Some c \<Rightarrow>
          if c \<in> set (m_closed m) then Panic ''close of closed channel''
          else Ok (m\<lparr>m_closed := c # m_closed m\<rparr>))"

definition wait_exit :: "manager \<Rightarrow> nat \<Rightarrow> nat \<Rightarrow> string option \<Rightarrow> ('e, manager) res" where
  "wait_exit m pid i err =
     close_done
       ((upd m i (\<lambda>t. (if t_Status t \<noteq> StatusStopped
                       then t\<lparr>t_Status := StatusError, t_Error := exit_text err\<rparr> else t)
                      \<lparr>t_cmd := None\<rparr>))
          \<lparr>m_waiters := remove1 (pid, i) (m_waiters m)\<rparr>) i"

section \<open>Stopping, restarting, deleting\<close>

definition stop_mark :: "manager \<Rightarrow> nat \<Rightarrow> manager" where
  "stop_mark m i = upd m i (\<lambda>t. t\<lparr>t_Status := StatusStopped, t_Error := []\<rparr>)"

text \<open>
  \<^verbatim>\<open>select\<close> on \<^verbatim>\<open>done\<close> and a five-second timer. When the process ends in time its waiter runs
  first, which closes the channel; otherwise the process is killed and its waiter is left to run
  later.
\<close>

definition stop_wait ::
    "env \<Rightarrow> world \<Rightarrow> manager \<Rightarrow> nat \<Rightarrow> nat \<Rightarrow> nat \<Rightarrow> ('e, manager) res \<times> world" where
  "stop_wait E w m i pid c =
     (if c \<in> set (m_closed m) then (Ok m, w)
      else if exits_in_time E (tick w) pid \<and> (pid, i) \<in> set (m_waiters m)
      then (case wait_exit m pid i None of
              Ok m' \<Rightarrow> (Ok m', if c \<in> set (m_closed m') then w else note_event w (Kill pid))
            | Err e \<Rightarrow> (Err e, w)
            | Panic p \<Rightarrow> (Panic p, w))
      else (Ok m, note_event w (Kill pid)))"

definition stop_signal :: "env \<Rightarrow> world \<Rightarrow> manager \<Rightarrow> nat \<Rightarrow> ('e, manager) res \<times> world" where
  "stop_signal E w m i =
     (let cmd = t_cmd (tun m i); don = t_done (tun m i); m1 = stop_mark m i in
      case cmd of
        None \<Rightarrow> (Ok m1, w)
      | Some pid \<Rightarrow>
          (let w1 = note_event w (Interrupt pid) in
           case don of None \<Rightarrow> (Ok m1, w1) | Some c \<Rightarrow> stop_wait E w1 m1 i pid c))"

definition stopTunnel :: "env \<Rightarrow> world \<Rightarrow> manager \<Rightarrow> nat \<Rightarrow> ('e, manager) res \<times> world" where
  "stopTunnel E w m i =
     (case stop_signal E w m i of
        (Ok m', w1) \<Rightarrow>
          (Ok m', if t_tmpConf (tun m' i) \<noteq> [] then snd (remove_file E w1 (t_tmpConf (tun m' i)))
                  else w1)
      | r \<Rightarrow> r)"

fun start_each :: "env \<Rightarrow> world \<Rightarrow> manager \<Rightarrow> nat list \<Rightarrow> manager \<times> world" where
  "start_each E w m [] = (m, w)"
| "start_each E w m (i # is) = (case startTunnel E w m i of (m', w') \<Rightarrow> start_each E w' m' is)"

definition StartAll :: "env \<Rightarrow> world \<Rightarrow> manager \<Rightarrow> manager \<times> world" where
  "StartAll E w m = start_each E w m (m_tunnels m)"

fun stop_each :: "env \<Rightarrow> world \<Rightarrow> manager \<Rightarrow> nat list \<Rightarrow> ('e, manager) res \<times> world" where
  "stop_each E w m [] = (Ok m, w)"
| "stop_each E w m (i # is) =
     (case stopTunnel E w m i of (Ok m', w') \<Rightarrow> stop_each E w' m' is | r \<Rightarrow> r)"

definition StopAll :: "env \<Rightarrow> world \<Rightarrow> manager \<Rightarrow> ('e, manager) res \<times> world" where
  "StopAll E w m = stop_each E w m (m_tunnels m)"

definition Restart :: "env \<Rightarrow> world \<Rightarrow> manager \<Rightarrow> string \<Rightarrow> (tun_err, manager) res \<times> world" where
  "Restart E w m name =
     (case GetTunnel m name of
        None \<Rightarrow> (Err (TunnelNotFound name), w)
      | Some i \<Rightarrow>
          (case stopTunnel E w m i of
             (Ok m1, w1) \<Rightarrow> (case startTunnel E w1 m1 i of (m2, w2) \<Rightarrow> (Ok m2, w2))
           | r \<Rightarrow> r))"

definition Disconnect :: "env \<Rightarrow> world \<Rightarrow> manager \<Rightarrow> string \<Rightarrow> (tun_err, manager) res \<times> world" where
  "Disconnect E w m name =
     (case GetTunnel m name of
        None \<Rightarrow> (Err (TunnelNotFound name), w)
      | Some i \<Rightarrow>
          (case stopTunnel E w m i of
             (Ok m1, w1) \<Rightarrow> (Ok (upd m1 i (\<lambda>t. t\<lparr>t_Status := StatusDisconnected\<rparr>)), w1)
           | r \<Rightarrow> r))"

text \<open>
  \<^verbatim>\<open>Delete\<close> stops the tunnel before it removes the file; when the removal fails for another reason
  than a missing file, the stopped tunnel stays in the list. The result carries the manager on
  every path.
\<close>

definition Delete ::
    "env \<Rightarrow> world \<Rightarrow> manager \<Rightarrow> string \<Rightarrow> (tun_err, unit) res \<times> manager \<times> world" where
  "Delete E w m name =
     (case GetTunnel m name of
        None \<Rightarrow> (Err (TunnelNotFound name), m, w)
      | Some i \<Rightarrow>
          (case stopTunnel E w m i of
             (Ok m1, w1) \<Rightarrow>
               (case remove_file E w1 (t_ConfigPath (tun m1 i)) of
                  (Some (OsErr e), w2) \<Rightarrow> (Err (RemovingConfigFile (OsErr e)), m1, w2)
                | (_, w2) \<Rightarrow>
                    (Ok (),
                     m1\<lparr>m_tunnels := remove_first (\<lambda>j. t_Name (tun m1 j) = name) (m_tunnels m1)\<rparr>,
                     w2))
           | (Err e, w1) \<Rightarrow> (Err e, m, w1)
           | (Panic p, w1) \<Rightarrow> (Panic p, m, w1)))"

definition ImportConfig ::
    "env \<Rightarrow> world \<Rightarrow> manager \<Rightarrow> string \<Rightarrow> string \<Rightarrow> (tun_err, manager) res \<times> world" where
  "ImportConfig E w m name confContent =
     (let confPath = path_join (m_configDir m) (name @ ''.conf'') in
      case write_file E w confPath confContent of
        (Some e, w1) \<Rightarrow> (Err (WritingConfigFile e), w1)
      | (None, w1) \<Rightarrow>
          (case startTunnel E w1 (add_tunnel E m name confPath) (length (m_heap m)) of
             (m2, w2) \<Rightarrow> (Ok m2, w2)))"

definition ConfigDir :: "manager \<Rightarrow> string" where
  "ConfigDir m = m_configDir m"

section \<open>Process output\<close>

text \<open>
  \<^verbatim>\<open>monitorOutput\<close> logs the lines of a process's standard output and standard error, each stream in a
  goroutine of its own. \<^verbatim>\<open>bufio.Scanner\<close> ends a line at a line feed, drops one carriage return before
  it, takes a last line without a line feed only if it is not empty, and gives up at the first line
  that does not fit into its buffer of 65536 bytes together with a line feed.
\<close>

definition drop_cr :: "string \<Rightarrow> string" where
  "drop_cr l = (if l \<noteq> [] \<and> last l = CHR 0x0D then butlast l else l)"

definition scan_lines :: "string \<Rightarrow> string list" where
  "scan_lines s =
     (let ls = split_on (CHR 0x0A) s
      in map drop_cr (takeWhile (\<lambda>l. length l < 65536) (if last ls = [] then butlast ls else ls)))"

definition monitorOutput :: "tunnel \<Rightarrow> string \<Rightarrow> string \<Rightarrow> string list \<times> string list" where
  "monitorOutput t stdout stderr =
     (map (\<lambda>l. ''[wireproxy/'' @ t_Name t @ ''] '' @ l) (scan_lines stdout),
      map (\<lambda>l. ''[wireproxy/'' @ t_Name t @ ''] ERR: '' @ l) (scan_lines stderr))"

end
