(* ===== verification/Tunnels_Inv.thy ===== *)
theory Tunnels_Inv
  imports Tunnels
begin

text \<open>
  Invariants of the tunnel manager. The static part of a manager (which tunnels there are, their
  names, configuration files, ports and countries) changes only when tunnels are loaded, imported
  or deleted; starting, stopping and process exits leave it alone. The dynamic part is about the
  goroutines that wait for the processes: in a calm manager each of them can close its channel.
\<close>

section \<open>Field updates of one tunnel\<close>

lemma upd_simps [simp]:
  "m_tunnels (upd m i f) = m_tunnels m" "m_configDir (upd m i f) = m_configDir m"
  "m_basePort (upd m i f) = m_basePort m" "m_nextPort (upd m i f) = m_nextPort m"
  "length (m_heap (upd m i f)) = length (m_heap m)" "m_nchan (upd m i f) = m_nchan m"
  "m_closed (upd m i f) = m_closed m" "m_waiters (upd m i f) = m_waiters m"
  by (simp_all add: upd_def)

lemma tun_upd: "i < length (m_heap m) \<Longrightarrow> tun (upd m i f) j = (if j = i then f (tun m i) else tun m j)"
  by (simp add: upd_def)

lemma tun_upd_same [simp]: "i < length (m_heap m) \<Longrightarrow> tun (upd m i f) i = f (tun m i)"
  by (simp add: tun_upd)

lemma tun_upd_other [simp]: "j \<noteq> i \<Longrightarrow> tun (upd m i f) j = tun m j"
  by (simp add: upd_def)

definition ident :: "tunnel \<Rightarrow> string \<times> string \<times> int \<times> string" where
  "ident t = (t_Name t, t_ConfigPath t, t_ProxyPort t, t_Country t)"

definition static ::
    "manager \<Rightarrow> nat list \<times> string \<times> int \<times> int \<times> (string \<times> string \<times> int \<times> string) list" where
  "static m = (m_tunnels m, m_configDir m, m_basePort m, m_nextPort m, map ident (m_heap m))"

lemma static_upd [simp]: "(\<And>t. ident (f t) = ident t) \<Longrightarrow> static (upd m i f) = static m"
proof -
  assume f: "\<And>t. ident (f t) = ident t"
  have "map ident ((m_heap m)[i := f (tun m i)]) = map ident (m_heap m)"
    by (cases "i < length (m_heap m)")
       (auto intro!: nth_equalityI simp: nth_list_update f list_update_beyond)
  then show ?thesis by (simp add: static_def upd_def)
qed

lemma static_fields [simp]:
  "static (m\<lparr>m_nchan := a\<rparr>) = static m" "static (m\<lparr>m_closed := b\<rparr>) = static m"
  "static (m\<lparr>m_waiters := c\<rparr>) = static m"
  by (simp_all add: static_def)

lemma static_length: "static m' = static m \<Longrightarrow> length (m_heap m') = length (m_heap m)"
  unfolding static_def by (metis Pair_inject length_map)

lemma static_ident:
  "static m' = static m \<Longrightarrow> i < length (m_heap m) \<Longrightarrow> ident (tun m' i) = ident (tun m i)"
  using static_length [of m' m] unfolding static_def by (metis Pair_inject nth_map)

lemma static_start_blocks [simp]:
  "static (start_begin m i) = static m" "static (start_error m i e) = static m"
  "static (start_conf m i p) = static m" "static (start_run m i pid at) = static m"
  "static (stop_mark m i) = static m"
  by (simp_all add: start_begin_def start_error_def start_conf_def start_run_def stop_mark_def
        ident_def)

lemma static_startTunnel [simp]: "static (fst (startTunnel E w m i)) = static m"
  by (auto simp: startTunnel_def Let_def split: res.splits sum.splits prod.splits)

lemma static_close_done: "close_done m i = Ok m' \<Longrightarrow> static m' = static m"
  by (auto simp: close_done_def split: option.splits if_splits)

lemma static_wait_exit: "wait_exit m pid i err = Ok m' \<Longrightarrow> static m' = static m"
  unfolding wait_exit_def by (drule static_close_done) (simp add: ident_def)

lemma static_stop_wait: "fst (stop_wait E w m i pid c) = Ok m' \<Longrightarrow> static m' = static m"
  by (auto simp: stop_wait_def dest!: static_wait_exit split: if_splits res.splits)

lemma static_stop_signal: "fst (stop_signal E w m i) = Ok m' \<Longrightarrow> static m' = static m"
  by (auto simp: stop_signal_def Let_def dest!: static_stop_wait split: option.splits)

lemma fst_stopTunnel [simp]: "fst (stopTunnel E w m i) = fst (stop_signal E w m i)"
  by (auto simp: stopTunnel_def split: prod.splits res.splits)

lemma static_stopTunnel: "fst (stopTunnel E w m i) = Ok m' \<Longrightarrow> static m' = static m"
  by (simp add: static_stop_signal)

lemma static_start_each [simp]: "static (fst (start_each E w m is)) = static m"
proof (induction "is" arbitrary: w m)
  case Nil
  then show ?case by simp
next
  case (Cons i "is")
  then show ?case
    by (simp split: prod.splits) (metis fst_conv static_startTunnel)
qed

lemma static_stop_each:
  "fst (stop_each E w m is :: ('e, manager) res \<times> world) = Ok m' \<Longrightarrow> static m' = static m"
proof (induction "is" arbitrary: w m)
  case Nil
  then show ?case by simp
next
  case (Cons i "is")
  obtain r :: "('e, manager) res" and w1 where s: "stopTunnel E w m i = (r, w1)" by fastforce
  with Cons.prems obtain m1 where r: "r = Ok m1" by (cases r) auto
  from s r have "fst (stopTunnel E w m i :: ('e, manager) res \<times> world) = Ok m1" by simp
  then have "static m1 = static m" by (rule static_stopTunnel)
  with Cons s r show ?case by simp
qed

lemma GetTunnel_static: 
  assumes "static m' = static m" and "\<forall>i\<in>set (m_tunnels m). i < length (m_heap m)"
  shows "GetTunnel m' n = GetTunnel m n"
proof -
  have "m_tunnels m' = m_tunnels m"
    using assms(1) by (simp add: static_def)
  moreover have "t_Name (tun m' i) = t_Name (tun m i)" if "i \<in> set (m_tunnels m)" for i
    using static_ident [OF assms(1), of i] assms(2) that by (simp add: ident_def)
  ultimately show ?thesis
    by (auto simp: GetTunnel_def intro: find_cong)
qed

section \<open>The static invariant\<close>

definition wf_static :: "env \<Rightarrow> manager \<Rightarrow> bool" where
  "wf_static E m \<longleftrightarrow>
     distinct (m_tunnels m) \<and> (\<forall>i\<in>set (m_tunnels m). i < length (m_heap m))
     \<and> m_nextPort m = s64 (m_basePort m + int (length (m_heap m)))
     \<and> (\<forall>i<length (m_heap m).
          t_ProxyPort (tun m i) = s64 (m_basePort m + int i)
          \<and> t_ConfigPath (tun m i) = path_join (m_configDir m) (t_Name (tun m i) @ ''.conf'')
          \<and> t_Country (tun m i) = extractCountryFromName E (t_Name (tun m i)))"

lemma wf_static_cong: "static m' = static m \<Longrightarrow> wf_static E m' = wf_static E m"
proof -
  assume st: "static m' = static m"
  then have "ident (tun m' i) = ident (tun m i)" if "i < length (m_heap m)" for i
    using static_ident that by blast
  with st static_length [OF st] show ?thesis
    by (auto simp: wf_static_def static_def ident_def)
qed

lemma wf_static_transfer: "static m' = static m \<Longrightarrow> wf_static E m \<Longrightarrow> wf_static E m'"
  using wf_static_cong by blast

lemma wf_static_NewManager: "in_s64 base \<Longrightarrow> wf_static E (NewManager dir base)"
  by (simp add: wf_static_def NewManager_def)

lemma s64_add: "s64 (s64 a + b) = s64 (a + b)"
  by (simp add: s64_def mod_simps algebra_simps)

lemma wf_static_add_tunnel:
  assumes "wf_static E m" and "confPath = path_join (m_configDir m) (name @ ''.conf'')"
  shows "wf_static E (add_tunnel E m name confPath)"
  using assms
  by (auto simp: wf_static_def add_tunnel_def new_tunnel_def nth_append less_Suc_eq s64_add add.assoc add.commute [of 1])

lemma add_tunnel_dir [simp]: "m_configDir (add_tunnel E m name p) = m_configDir m"
  by (simp add: add_tunnel_def)

lemma wf_static_load_entries: "wf_static E m \<Longrightarrow> wf_static E (load_entries E m es)"
proof (induction E m es rule: load_entries.induct)
  case (1 E m)
  then show ?case by simp
next
  case (2 E m name isDir es)
  show ?case
  proof (cases "isDir \<or> \<not> has_suffix name ''.conf''")
    case True
    with 2 show ?thesis by simp
  next
    case False
    then have "name = trim_suffix name ''.conf'' @ ''.conf''"
      using has_suffixD by blast
    then have "wf_static E (add_tunnel E m (trim_suffix name ''.conf'') (path_join (m_configDir m) name))"
      using wf_static_add_tunnel [OF "2.prems"] by metis
    with 2 False show ?thesis by simp
  qed
qed

lemma wf_static_remove:
  "wf_static E m \<Longrightarrow> wf_static E (m\<lparr>m_tunnels := remove_first P (m_tunnels m)\<rparr>)"
  using set_remove_first_subset [of P "m_tunnels m"]
  by (auto simp: wf_static_def distinct_remove_first)

lemma wf_static_GetTunnel:
  assumes "wf_static E m" and "GetTunnel m n = Some i"
  shows "i \<in> set (m_tunnels m)" "i < length (m_heap m)" "t_Name (tun m i) = n"
  using assms find_SomeD unfolding GetTunnel_def wf_static_def by fast+

text \<open>Ports of different tunnels differ as long as the 64-bit counter has not come round.\<close>

lemma s64_inj:
  assumes "s64 (b + int i) = s64 (b + int j)" and "i < 2 ^ 64" and "j < 2 ^ 64"
  shows "i = j"
proof -
  have "(b + int i + 2 ^ 63) mod 2 ^ 64 = (b + int j + 2 ^ 63) mod 2 ^ 64"
    using assms(1) by (simp add: s64_def)
  then have "(2 ^ 64 :: int) dvd (int i - int j)"
    by (simp add: mod_eq_dvd_iff)
  moreover have "int i < 2 ^ 64" "int j < 2 ^ 64"
    using assms(2,3) by simp_all
  then have "\<bar>int i - int j\<bar> < 2 ^ 64"
    by linarith
  ultimately have "int i - int j = 0"
    using dvd_imp_le_int [of "int i - int j" "2 ^ 64"] by linarith
  then show ?thesis by simp
qed

lemma wf_static_ports:
  assumes "wf_static E m" and "length (m_heap m) \<le> 2 ^ 64"
  shows "distinct (map (\<lambda>i. t_ProxyPort (tun m i)) (m_tunnels m))"
proof -
  have "inj_on (\<lambda>i. t_ProxyPort (tun m i)) (set (m_tunnels m))"
  proof (rule inj_onI)
    fix i j
    assume ij: "i \<in> set (m_tunnels m)" "j \<in> set (m_tunnels m)"
      and eq: "t_ProxyPort (tun m i) = t_ProxyPort (tun m j)"
    with assms have "i < length (m_heap m)" "j < length (m_heap m)"
      and "s64 (m_basePort m + int i) = s64 (m_basePort m + int j)"
      by (auto simp: wf_static_def)
    with assms(2) show "i = j" by (intro s64_inj [of "m_basePort m"]) auto
  qed
  with assms(1) show ?thesis by (simp add: distinct_map wf_static_def)
qed

end
