(* ===== verification/Tunnels_Run.thy ===== *)
theory Tunnels_Run
  imports Tunnels_Inv
begin

text \<open>
  Runs of the tunnel manager: sequences of its operations and of process exits, with the goroutines
  that \<^verbatim>\<open>StartAll\<close>, \<^verbatim>\<open>Restart\<close> and \<^verbatim>\<open>ImportConfig\<close> launch run at the point of launch, and every
  waiting goroutine run when its process ends. A step is \<open>None\<close> when the program panics.
\<close>

section \<open>Steps and runs\<close>

datatype tm_op =
    OpLoad
  | OpStartAll
  | OpStopAll
  | OpRestart string
  | OpDisconnect string
  | OpDelete string
  | OpImport string string
  | OpExit nat nat "string option"

fun keep_on_error :: "manager \<Rightarrow> ('e, manager) res \<times> world \<Rightarrow> (manager \<times> world) option" where
  "keep_on_error m (Ok m', w) = Some (m', w)"
| "keep_on_error m (Err e, w) = Some (m, w)"
| "keep_on_error m (Panic p, w) = None"

fun tm_step :: "env \<Rightarrow> tm_op \<Rightarrow> manager \<times> world \<Rightarrow> (manager \<times> world) option" where
  "tm_step E OpLoad (m, w) = keep_on_error m (LoadConfigs E w m)"
| "tm_step E OpStartAll (m, w) = Some (StartAll E w m)"
| "tm_step E OpStopAll (m, w) = keep_on_error m (StopAll E w m :: (unit, manager) res \<times> world)"
| "tm_step E (OpRestart n) (m, w) = keep_on_error m (Restart E w m n)"
| "tm_step E (OpDisconnect n) (m, w) = keep_on_error m (Disconnect E w m n)"
| "tm_step E (OpDelete n) (m, w) =
     (case Delete E w m n of (Panic p, _, _) \<Rightarrow> None | (_, m', w') \<Rightarrow> Some (m', w'))"
| "tm_step E (OpImport n c) (m, w) = keep_on_error m (ImportConfig E w m n c)"
| "tm_step E (OpExit pid i err) (m, w) =
     (if (pid, i) \<in> set (m_waiters m)
      then keep_on_error m (wait_exit m pid i err :: (unit, manager) res, w) else Some (m, w))"

fun tm_run :: "env \<Rightarrow> tm_op list \<Rightarrow> manager \<times> world \<Rightarrow> (manager \<times> world) option" where
  "tm_run E [] s = Some s"
| "tm_run E (op # ops) s = Option.bind (tm_step E op s) (tm_run E ops)"

section \<open>The static invariant along runs\<close>

lemma keep_on_error_wf:
  assumes "keep_on_error m r = Some (m', w')" and "wf_static E m"
    and "\<And>m1. fst r = Ok m1 \<Longrightarrow> wf_static E m1"
  shows "wf_static E m'"
  using assms by (cases r rule: prod.exhaust, cases "fst r") (auto split: res.splits)

lemma wf_static_LoadConfigs:
  "wf_static E m \<Longrightarrow> fst (LoadConfigs E w m) = Ok m' \<Longrightarrow> wf_static E m'"
  by (auto simp: LoadConfigs_def wf_static_load_entries split: prod.splits res.splits)

lemma wf_static_Restart:
  assumes "wf_static E m" and "fst (Restart E w m n) = Ok m'"
  shows "wf_static E m'"
proof -
  obtain i m1 w1 where "stopTunnel E w m i = ((Ok m1 :: (tun_err, manager) res), w1)"
    and m': "m' = fst (startTunnel E w1 m1 i)"
    using assms(2) by (auto simp: Restart_def split: option.splits prod.splits res.splits)
  then have "static m1 = static m"
    using static_stopTunnel [of E w m i m1, where 'a = tun_err] by (simp del: fst_stopTunnel)
  then show ?thesis
    using assms(1) m' wf_static_cong [of m' m E] by simp
qed

lemma wf_static_Disconnect:
  assumes "wf_static E m" and "fst (Disconnect E w m n) = Ok m'"
  shows "wf_static E m'"
proof -
  obtain i m1 w1 where "stopTunnel E w m i = ((Ok m1 :: (tun_err, manager) res), w1)"
    and m': "m' = upd m1 i (\<lambda>t. t\<lparr>t_Status := StatusDisconnected\<rparr>)"
    using assms(2) by (auto simp: Disconnect_def split: option.splits prod.splits res.splits)
  then have "static m1 = static m"
    using static_stopTunnel [of E w m i m1, where 'a = tun_err] by (simp del: fst_stopTunnel)
  then have "static m' = static m"
    using m' by (simp add: ident_def)
  then show ?thesis
    using assms(1) wf_static_cong by blast
qed

lemma wf_static_Delete:
  assumes "wf_static E m"
  shows "wf_static E (fst (snd (Delete E w m n)))"
proof (cases "GetTunnel m n")
  case None
  with assms show ?thesis by (simp add: Delete_def)
next
  case (Some i)
  obtain r :: "(tun_err, manager) res" and w1 where s: "stopTunnel E w m i = (r, w1)" by fastforce
  show ?thesis
  proof (cases r)
    case (Ok m1)
    with s have "static m1 = static m"
      using static_stopTunnel [of E w m i m1, where 'a = tun_err] by (simp del: fst_stopTunnel)
    then have "wf_static E m1"
      using assms wf_static_cong by blast
    then show ?thesis
      using Some s Ok by (auto simp: Delete_def wf_static_remove split: prod.splits option.splits os_err.splits)
  qed (use Some s assms in \<open>auto simp: Delete_def\<close>)
qed

lemma wf_static_ImportConfig:
  assumes "wf_static E m" and "fst (ImportConfig E w m n c) = Ok m'"
  shows "wf_static E m'"
proof -
  let ?p = "path_join (m_configDir m) (n @ ''.conf'')"
  obtain w1 i where "m' = fst (startTunnel E w1 (add_tunnel E m n ?p) i)"
    using assms(2) by (auto simp: ImportConfig_def Let_def split: prod.splits option.splits) (metis fst_conv)
  then have "static m' = static (add_tunnel E m n ?p)" by simp
  moreover have "wf_static E (add_tunnel E m n ?p)"
    using assms(1) by (rule wf_static_add_tunnel) simp
  ultimately show ?thesis using wf_static_cong by blast
qed

lemma wf_static_step:
  assumes "wf_static E (fst s)" and "tm_step E op s = Some s'"
  shows "wf_static E (fst s')"
proof -
  obtain m w m' w' where s: "s = (m, w)" "s' = (m', w')" by fastforce
  show ?thesis
  proof (cases op)
    case OpLoad
    with assms s show ?thesis
      by (auto elim!: keep_on_error_wf intro: wf_static_LoadConfigs)
  next
    case OpStartAll
    then have "m' = fst (start_each E w m (m_tunnels m))"
      using assms s by (simp add: StartAll_def)
    then have "static m' = static m" by simp
    then show ?thesis using assms(1) s by (auto intro: wf_static_transfer)
  next
    case OpStopAll
    with assms(2) s have "keep_on_error m (StopAll E w m :: (unit, manager) res \<times> world) = Some (m', w')"
      by simp
    then have "wf_static E m'"
    proof (rule keep_on_error_wf)
      show "wf_static E m" using assms(1) s by simp
      fix m1 assume "fst (StopAll E w m :: (unit, manager) res \<times> world) = Ok m1"
      then have "static m1 = static m" unfolding StopAll_def by (rule static_stop_each)
      then show "wf_static E m1" using assms(1) s by (auto intro: wf_static_transfer)
    qed
    then show ?thesis using s by simp
  next
    case (OpRestart n)
    with assms s show ?thesis by (auto elim!: keep_on_error_wf intro: wf_static_Restart)
  next
    case (OpDisconnect n)
    with assms s show ?thesis by (auto elim!: keep_on_error_wf intro: wf_static_Disconnect)
  next
    case (OpDelete n)
    with assms s show ?thesis
      using wf_static_Delete [of E m w n] by (auto split: prod.splits res.splits)
  next
    case (OpImport n c)
    with assms s show ?thesis by (auto elim!: keep_on_error_wf intro: wf_static_ImportConfig)
  next
    case (OpExit pid i err)
    with assms s show ?thesis
      by (auto elim!: keep_on_error_wf intro: wf_static_transfer [OF static_wait_exit] split: if_splits)
  qed
qed

lemma wf_static_run:
  "wf_static E (fst s) \<Longrightarrow> tm_run E ops s = Some s' \<Longrightarrow> wf_static E (fst s')"
proof (induction ops arbitrary: s)
  case Nil
  then show ?case by simp
next
  case (Cons op ops)
  then obtain s1 where "tm_step E op s = Some s1" "tm_run E ops s1 = Some s'"
    by (auto simp: bind_eq_Some_conv)
  with Cons wf_static_step show ?case by blast
qed

end
