(* ===== verification/Tunnels_Calm.thy ===== *)
theory Tunnels_Calm
  imports Tunnels_Run
begin

text \<open>
  Channels and waiting goroutines. A manager is calm when every goroutine that waits for a process
  belongs to the process its tunnel refers to and will find the tunnel's \<^verbatim>\<open>done\<close> channel open. In a
  calm manager a process exit cannot panic, and every operation but \<^verbatim>\<open>StartAll\<close> keeps it calm as long
  as interrupted processes end within the five seconds \<^verbatim>\<open>stopTunnel\<close> grants them.
\<close>

section \<open>The dynamic invariant\<close>

definition idle :: "manager \<Rightarrow> nat \<Rightarrow> bool" where
  "idle m i \<longleftrightarrow> i \<notin> snd ` set (m_waiters m)"

definition chans_ok :: "manager \<Rightarrow> bool" where
  "chans_ok m \<longleftrightarrow>
     (\<forall>i c. i < length (m_heap m) \<and> t_done (tun m i) = Some c \<longrightarrow> c < m_nchan m)
     \<and> (\<forall>c. c \<in> set (m_closed m) \<longrightarrow> c < m_nchan m)
     \<and> (\<forall>i j c. i < length (m_heap m) \<and> j < length (m_heap m)
          \<and> t_done (tun m i) = Some c \<and> t_done (tun m j) = Some c \<longrightarrow> i = j)"

definition waiters_ok :: "manager \<Rightarrow> bool" where
  "waiters_ok m \<longleftrightarrow>
     distinct (map snd (m_waiters m))
     \<and> (\<forall>p i. (p, i) \<in> set (m_waiters m) \<longrightarrow>
          i < length (m_heap m) \<and> t_cmd (tun m i) = Some p
          \<and> (\<exists>c. t_done (tun m i) = Some c \<and> c \<notin> set (m_closed m)))
     \<and> (\<forall>i p. i < length (m_heap m) \<and> t_cmd (tun m i) = Some p \<longrightarrow> (p, i) \<in> set (m_waiters m))"

lemma chans_okI:
  assumes "\<And>i c. i < length (m_heap m) \<Longrightarrow> t_done (tun m i) = Some c \<Longrightarrow> c < m_nchan m"
    and "\<And>c. c \<in> set (m_closed m) \<Longrightarrow> c < m_nchan m"
    and "\<And>i j c. i < length (m_heap m) \<Longrightarrow> j < length (m_heap m) \<Longrightarrow>
           t_done (tun m i) = Some c \<Longrightarrow> t_done (tun m j) = Some c \<Longrightarrow> i = j"
  shows "chans_ok m"
  using assms unfolding chans_ok_def by blast

lemma chans_okD:
  assumes "chans_ok m"
  shows "i < length (m_heap m) \<Longrightarrow> t_done (tun m i) = Some c \<Longrightarrow> c < m_nchan m"
    and "c \<in> set (m_closed m) \<Longrightarrow> c < m_nchan m"
    and "i < length (m_heap m) \<Longrightarrow> j < length (m_heap m) \<Longrightarrow>
           t_done (tun m i) = Some c \<Longrightarrow> t_done (tun m j) = Some c \<Longrightarrow> i = j"
  using assms unfolding chans_ok_def by blast+

lemma chans_ok_transfer:
  assumes "chans_ok m" and "length (m_heap m') = length (m_heap m)" and "m_nchan m' = m_nchan m"
    and "\<And>j. t_done (tun m' j) = t_done (tun m j)"
    and "\<And>c. c \<in> set (m_closed m') \<Longrightarrow> c < m_nchan m"
  shows "chans_ok m'"
  using assms(1) unfolding chans_ok_def assms(2-4) using assms(5) by blast

lemma waiters_okI:
  assumes "distinct (map snd (m_waiters m))"
    and "\<And>p i. (p, i) \<in> set (m_waiters m) \<Longrightarrow>
          i < length (m_heap m) \<and> t_cmd (tun m i) = Some p
          \<and> (\<exists>c. t_done (tun m i) = Some c \<and> c \<notin> set (m_closed m))"
    and "\<And>p i. i < length (m_heap m) \<Longrightarrow> t_cmd (tun m i) = Some p \<Longrightarrow> (p, i) \<in> set (m_waiters m)"
  shows "waiters_ok m"
  using assms unfolding waiters_ok_def by blast

lemma waiters_okD:
  assumes "waiters_ok m"
  shows "distinct (map snd (m_waiters m))"
    and "(p, i) \<in> set (m_waiters m) \<Longrightarrow> i < length (m_heap m)"
    and "(p, i) \<in> set (m_waiters m) \<Longrightarrow> t_cmd (tun m i) = Some p"
    and "(p, i) \<in> set (m_waiters m) \<Longrightarrow> \<exists>c. t_done (tun m i) = Some c \<and> c \<notin> set (m_closed m)"
    and "i < length (m_heap m) \<Longrightarrow> t_cmd (tun m i) = Some p \<Longrightarrow> (p, i) \<in> set (m_waiters m)"
  using assms unfolding waiters_ok_def by blast+

definition calm :: "manager \<Rightarrow> bool" where
  "calm m \<longleftrightarrow> chans_ok m \<and> waiters_ok m"

lemma calm_NewManager: "calm (NewManager dir base)"
  by (simp add: calm_def chans_ok_def waiters_ok_def NewManager_def)

lemma calm_upd:
  assumes "\<And>t. t_cmd (f t) = t_cmd t" "\<And>t. t_done (f t) = t_done t"
  shows "calm (upd m i f) = calm m"
proof (cases "i < length (m_heap m)")
  case True
  then have "t_cmd (tun (upd m i f) j) = t_cmd (tun m j)"
    "t_done (tun (upd m i f) j) = t_done (tun m j)" for j
    using assms by (simp_all add: tun_upd)
  then show ?thesis by (simp add: calm_def chans_ok_def waiters_ok_def)
next
  case False
  then have "upd m i f = m" by (simp add: upd_def list_update_beyond)
  then show ?thesis by simp
qed

lemma idle_simps [simp]:
  "idle (upd m i f) j = idle m j" "idle (start_begin m i) j = idle m j"
  "idle (start_conf m i p) j = idle m j" "idle (start_error m i e) j = idle m j"
  "idle (stop_mark m i) j = idle m j"
  by (simp_all add: idle_def start_begin_def start_conf_def start_error_def stop_mark_def)

lemma calm_marks [simp]:
  "calm (start_begin m i) = calm m" "calm (start_error m i e) = calm m"
  "calm (stop_mark m i) = calm m"
  by (simp_all add: start_begin_def start_error_def stop_mark_def calm_upd)

lemma calm_start_conf:
  assumes "calm m" and "idle m i" and "i < length (m_heap m)"
  shows "calm (start_conf m i p)"
proof -
  have tn: "t_done (tun (start_conf m i p) j) = (if j = i then Some (m_nchan m) else t_done (tun m j))"
    "t_cmd (tun (start_conf m i p) j) = t_cmd (tun m j)" for j
    using assms(3) by (simp_all add: start_conf_def tun_upd)
  have [simp]: "m_nchan (start_conf m i p) = Suc (m_nchan m)"
    "m_closed (start_conf m i p) = m_closed m" "m_waiters (start_conf m i p) = m_waiters m"
    "length (m_heap (start_conf m i p)) = length (m_heap m)"
    by (simp_all add: start_conf_def)
  have ch: "chans_ok m" and wt: "waiters_ok m" using assms(1) by (simp_all add: calm_def)
  have "chans_ok (start_conf m i p)"
  proof (rule chans_okI)
    fix j c assume "j < length (m_heap (start_conf m i p))"
      and "t_done (tun (start_conf m i p) j) = Some c"
    then show "c < m_nchan (start_conf m i p)"
      using chans_okD(1) [OF ch, of j c] by (auto simp: tn split: if_splits)
  next
    fix c assume "c \<in> set (m_closed (start_conf m i p))"
    then show "c < m_nchan (start_conf m i p)" using chans_okD(2) [OF ch, of c] by simp
  next
    fix j k c assume "j < length (m_heap (start_conf m i p))" "k < length (m_heap (start_conf m i p))"
      and "t_done (tun (start_conf m i p) j) = Some c" "t_done (tun (start_conf m i p) k) = Some c"
    then show "j = k"
      using chans_okD(1) [OF ch, of j c] chans_okD(1) [OF ch, of k c] chans_okD(3) [OF ch, of j k c]
      by (auto simp: tn split: if_splits)
  qed
  moreover have "waiters_ok (start_conf m i p)"
  proof (rule waiters_okI)
    fix q j assume j: "(q, j) \<in> set (m_waiters (start_conf m i p))"
    then have "j \<noteq> i" using assms(2) by (force simp: idle_def)
    with j show "j < length (m_heap (start_conf m i p)) \<and> t_cmd (tun (start_conf m i p) j) = Some q
        \<and> (\<exists>c. t_done (tun (start_conf m i p) j) = Some c \<and> c \<notin> set (m_closed (start_conf m i p)))"
      using waiters_okD(2-4) [OF wt, of q j] by (simp add: tn)
  qed (use waiters_okD(1,5) [OF wt] in \<open>simp_all add: tn\<close>)
  ultimately show ?thesis by (simp add: calm_def)
qed

lemma calm_start_run:
  assumes "calm m" and "idle m i" and "i < length (m_heap m)"
    and "t_done (tun m i) = Some c" and "c \<notin> set (m_closed m)"
  shows "calm (start_run m i pid at)"
proof -
  have tn: "t_done (tun (start_run m i pid at) j) = t_done (tun m j)"
    "t_cmd (tun (start_run m i pid at) j) = (if j = i then Some pid else t_cmd (tun m j))" for j
    using assms(3) by (simp_all add: start_run_def tun_upd)
  have [simp]: "m_nchan (start_run m i pid at) = m_nchan m"
    "m_closed (start_run m i pid at) = m_closed m"
    "m_waiters (start_run m i pid at) = (pid, i) # m_waiters m"
    "length (m_heap (start_run m i pid at)) = length (m_heap m)"
    by (simp_all add: start_run_def)
  have ch: "chans_ok m" and wt: "waiters_ok m" using assms(1) by (simp_all add: calm_def)
  have "chans_ok (start_run m i pid at)"
    by (rule chans_ok_transfer [OF ch]) (simp_all add: tn chans_okD(2) [OF ch])
  moreover have "waiters_ok (start_run m i pid at)"
  proof (rule waiters_okI)
    show "distinct (map snd (m_waiters (start_run m i pid at)))"
      using waiters_okD(1) [OF wt] assms(2) by (simp add: idle_def)
  next
    fix q j assume j: "(q, j) \<in> set (m_waiters (start_run m i pid at))"
    show "j < length (m_heap (start_run m i pid at)) \<and> t_cmd (tun (start_run m i pid at) j) = Some q
        \<and> (\<exists>c. t_done (tun (start_run m i pid at) j) = Some c
             \<and> c \<notin> set (m_closed (start_run m i pid at)))"
    proof (cases "(q, j) = (pid, i)")
      case True
      with assms show ?thesis by (simp add: tn)
    next
      case False
      with j have "(q, j) \<in> set (m_waiters m)" by auto
      moreover from this have "j \<noteq> i" using assms(2) by (force simp: idle_def)
      ultimately show ?thesis using waiters_okD(2-4) [OF wt, of q j] by (simp add: tn)
    qed
  next
    fix q j assume "j < length (m_heap (start_run m i pid at))"
      and "t_cmd (tun (start_run m i pid at) j) = Some q"
    then show "(q, j) \<in> set (m_waiters (start_run m i pid at))"
      using waiters_okD(5) [OF wt] by (auto simp: tn split: if_splits)
  qed
  ultimately show ?thesis by (simp add: calm_def)
qed

lemma fresh_chan_open: "calm m \<Longrightarrow> m_nchan m \<notin> set (m_closed m)"
  by (auto simp: calm_def chans_ok_def)

lemma calm_startTunnel:
  assumes "calm m" and "idle m i" and i: "i < length (m_heap m)"
  shows "calm (fst (startTunnel E w m i))"
proof -
  let ?m1 = "start_begin m i"
  have len: "i < length (m_heap ?m1)" using i by (simp add: start_begin_def)
  have conf: "calm (start_conf ?m1 i p)" for p
    by (rule calm_start_conf) (use assms len in simp_all)
  have "calm (start_run (start_conf ?m1 i p) i pid at)" for p pid at
  proof (rule calm_start_run)
    show "calm (start_conf ?m1 i p)" by (rule conf)
    show "idle (start_conf ?m1 i p) i" using assms(2) by simp
    show "i < length (m_heap (start_conf ?m1 i p))" using len by (simp add: start_conf_def)
    show "t_done (tun (start_conf ?m1 i p) i) = Some (m_nchan ?m1)"
      using len by (simp add: start_conf_def)
    show "m_nchan ?m1 \<notin> set (m_closed (start_conf ?m1 i p))"
      using fresh_chan_open [of ?m1] assms(1) by (simp add: start_conf_def)
  qed
  with conf assms(1) show ?thesis
    by (auto simp: startTunnel_def Let_def split: res.splits sum.splits prod.splits)
qed

lemma startTunnel_idle_other:
  "j \<noteq> i \<Longrightarrow> idle (fst (startTunnel E w m i)) j = idle m j"
  by (auto simp: startTunnel_def Let_def start_run_def idle_def start_error_def start_conf_def
        start_begin_def split: res.splits sum.splits prod.splits)

section \<open>Process exits\<close>

lemma remove1_distinct_snd:
  assumes "distinct (map snd xs)" and "(p, i) \<in> set xs"
  shows "distinct (map snd (remove1 (p, i) xs))" "i \<notin> snd ` set (remove1 (p, i) xs)"
    "set (remove1 (p, i) xs) = set xs - {(p, i)}"
proof -
  have d: "distinct xs" using assms(1) by (simp add: distinct_map)
  then show s: "set (remove1 (p, i) xs) = set xs - {(p, i)}"
    by (simp add: set_remove1_eq)
  have "inj_on snd (set xs)" using assms(1) by (simp add: distinct_map)
  then show "i \<notin> snd ` set (remove1 (p, i) xs)"
    using assms(2) s by (fastforce simp: inj_on_def)
  show "distinct (map snd (remove1 (p, i) xs))"
    using \<open>inj_on snd (set xs)\<close> d s by (auto simp: distinct_map intro: inj_on_subset)
qed

lemma calm_wait_exit:
  assumes "calm m" and w: "(pid, i) \<in> set (m_waiters m)"
  shows "\<exists>m' c. (wait_exit m pid i err :: ('e, manager) res) = Ok m' \<and> calm m' \<and> idle m' i
     \<and> t_done (tun m i) = Some c \<and> m_closed m' = c # m_closed m"
proof -
  let ?f = "\<lambda>t. (if t_Status t \<noteq> StatusStopped
      then t\<lparr>t_Status := StatusError, t_Error := exit_text err\<rparr> else t)\<lparr>t_cmd := None\<rparr>"
  let ?m1 = "(upd m i ?f)\<lparr>m_waiters := remove1 (pid, i) (m_waiters m)\<rparr>"
  have ch: "chans_ok m" and wt: "waiters_ok m" using assms(1) by (simp_all add: calm_def)
  from waiters_okD(2,4) [OF wt w] obtain c where i: "i < length (m_heap m)"
    and c: "t_done (tun m i) = Some c" and op: "c \<notin> set (m_closed m)" by blast
  note d = waiters_okD(1) [OF wt]
  note rm = remove1_distinct_snd [OF d w]
  have tn: "t_done (tun ?m1 j) = t_done (tun m j)"
    "t_cmd (tun ?m1 j) = (if j = i then None else t_cmd (tun m j))" for j
    using i by (simp_all add: tun_upd)
  let ?m2 = "?m1\<lparr>m_closed := c # m_closed m\<rparr>"
  have "wait_exit m pid i err = (Ok ?m2 :: ('e, manager) res)"
    using tn(1) [of i] c op by (simp add: wait_exit_def close_done_def)
  moreover have "idle ?m2 i"
    using rm(2) by (simp add: idle_def)
  moreover have "chans_ok ?m2"
    by (rule chans_ok_transfer [OF ch])
       (use tn(1) chans_okD(1) [OF ch i c] chans_okD(2) [OF ch] in auto)
  moreover have "waiters_ok ?m2"
  proof (rule waiters_okI)
    show "distinct (map snd (m_waiters ?m2))" using rm(1) by simp
  next
    fix q j assume "(q, j) \<in> set (m_waiters ?m2)"
    then have qj: "(q, j) \<in> set (m_waiters m)" and ji: "j \<noteq> i"
      using rm(2,3) by force+
    from waiters_okD(2,3,4) [OF wt qj] obtain c' where
      j: "j < length (m_heap m)" "t_cmd (tun m j) = Some q"
        "t_done (tun m j) = Some c'" "c' \<notin> set (m_closed m)" by blast
    have "c' \<noteq> c" using chans_okD(3) [OF ch j(1) i j(3)] c ji by auto
    with j ji tn [of j] show "j < length (m_heap ?m2) \<and> t_cmd (tun ?m2 j) = Some q
        \<and> (\<exists>c. t_done (tun ?m2 j) = Some c \<and> c \<notin> set (m_closed ?m2))"
      by simp
  next
    fix q j assume "j < length (m_heap ?m2)" and "t_cmd (tun ?m2 j) = Some q"
    then have "j \<noteq> i" "(q, j) \<in> set (m_waiters m)"
      using tn(2) [of j] waiters_okD(5) [OF wt] by (auto split: if_splits)
    then show "(q, j) \<in> set (m_waiters ?m2)" using rm(3) by simp
  qed
  ultimately show ?thesis using c by (auto simp: calm_def)
qed


lemma close_done_heap: "close_done m i = Ok m' \<Longrightarrow> m_heap m' = m_heap m"
  by (auto simp: close_done_def split: option.splits if_splits)

lemma wait_exit_tun:
  assumes "wait_exit m pid i err = Ok m'"
  shows "m_heap m' = m_heap (upd m i (\<lambda>t. (if t_Status t \<noteq> StatusStopped
      then t\<lparr>t_Status := StatusError, t_Error := exit_text err\<rparr> else t)\<lparr>t_cmd := None\<rparr>))"
  using close_done_heap [OF assms [unfolded wait_exit_def]] by simp

section \<open>Stopping in a calm manager\<close>

definition prompt :: "env \<Rightarrow> bool" where
  "prompt E \<longleftrightarrow> (\<forall>n pid. exits_in_time E n pid)"

lemma stop_mark_tun:
  "i < length (m_heap m) \<Longrightarrow>
     tun (stop_mark m i) j = (if j = i then (tun m i)\<lparr>t_Status := StatusStopped, t_Error := []\<rparr> else tun m j)"
  by (simp add: stop_mark_def tun_upd)

lemma length_stop_mark [simp]: "length (m_heap (stop_mark m i)) = length (m_heap m)"
  by (simp add: stop_mark_def)

lemma calm_stop_signal:
  assumes "calm m" and "prompt E" and i: "i < length (m_heap m)"
  shows "\<exists>m' w'. (stop_signal E w m i :: ('e, manager) res \<times> world) = (Ok m', w') \<and> calm m' \<and> idle m' i
     \<and> tun m' i = (tun m i)\<lparr>t_Status := StatusStopped, t_Error := [], t_cmd := None\<rparr>
     \<and> (\<forall>j. j \<noteq> i \<longrightarrow> tun m' j = tun m j)"
proof (cases "t_cmd (tun m i)")
  case None
  have "waiters_ok m" using assms(1) by (simp add: calm_def)
  with None have "idle m i"
    using waiters_okD(3) by (fastforce simp: idle_def)
  with None assms show ?thesis
    by (simp add: stop_signal_def stop_mark_tun)
next
  case (Some pid)
  have wt: "waiters_ok m" using assms(1) by (simp add: calm_def)
  have w: "(pid, i) \<in> set (m_waiters m)"
    using waiters_okD(5) [OF wt i Some] .
  from waiters_okD(4) [OF wt w] obtain c where
    c: "t_done (tun m i) = Some c" "c \<notin> set (m_closed m)" by blast
  let ?m1 = "stop_mark m i" and ?w1 = "note_event w (Interrupt pid)"
  have w1: "(pid, i) \<in> set (m_waiters ?m1)" using w by (simp add: stop_mark_def)
  have c1: "t_done (tun ?m1 i) = Some c" "c \<notin> set (m_closed ?m1)"
    using c i by (simp_all add: stop_mark_tun) (simp add: stop_mark_def)
  from calm_wait_exit [OF _ w1, of None] assms(1) obtain m' where
    m': "(wait_exit ?m1 pid i None :: ('e, manager) res) = Ok m'" "calm m'" "idle m' i"
      "m_closed m' = c # m_closed ?m1"
    using c1 by auto
  note heap = wait_exit_tun [OF m'(1)]
  have "stop_wait E ?w1 ?m1 i pid c = (Ok m' :: ('e, manager) res, ?w1)"
    using assms(2) w1 c1(2) m' by (simp add: stop_wait_def prompt_def)
  then have "stop_signal E w m i = (Ok m' :: ('e, manager) res, ?w1)"
    using Some c(1) by (simp add: stop_signal_def Let_def)
  moreover have "tun m' i = (tun m i)\<lparr>t_Status := StatusStopped, t_Error := [], t_cmd := None\<rparr>"
    using heap i by (simp add: stop_mark_tun)
  moreover have "tun m' j = tun m j" if "j \<noteq> i" for j
    using heap i that by (simp add: stop_mark_tun)
  ultimately show ?thesis using m' by blast
qed

lemma calm_stopTunnel:
  assumes "calm m" and "prompt E" and i: "i < length (m_heap m)"
  shows "\<exists>m' w'. (stopTunnel E w m i :: ('e, manager) res \<times> world) = (Ok m', w') \<and> calm m' \<and> idle m' i
     \<and> tun m' i = (tun m i)\<lparr>t_Status := StatusStopped, t_Error := [], t_cmd := None\<rparr>
     \<and> (\<forall>j. j \<noteq> i \<longrightarrow> tun m' j = tun m j)"
proof -
  from calm_stop_signal [OF assms, of w] obtain m' w1 where
    "(stop_signal E w m i :: ('e, manager) res \<times> world) = (Ok m', w1)" and
    "calm m' \<and> idle m' i
     \<and> tun m' i = (tun m i)\<lparr>t_Status := StatusStopped, t_Error := [], t_cmd := None\<rparr>
     \<and> (\<forall>j. j \<noteq> i \<longrightarrow> tun m' j = tun m j)" by blast
  then show ?thesis by (simp add: stopTunnel_def)
qed

lemma calm_stop_each:
  assumes "calm m" and "prompt E" and "\<forall>i\<in>set is. i < length (m_heap m)"
  shows "\<exists>m' w'. (stop_each E w m is :: ('e, manager) res \<times> world) = (Ok m', w') \<and> calm m'"
  using assms
proof (induction "is" arbitrary: m w)
  case Nil
  then show ?case by simp
next
  case (Cons i "is")
  from Cons.prems have i: "i < length (m_heap m)" by simp
  from calm_stopTunnel [OF Cons.prems(1,2) i, of w] obtain m1 w1 where
    s: "(stopTunnel E w m i :: ('e, manager) res \<times> world) = (Ok m1, w1)" and "calm m1" by blast
  have "fst (stopTunnel E w m i :: ('e, manager) res \<times> world) = Ok m1" using s by simp
  then have "length (m_heap m1) = length (m_heap m)"
    using static_length static_stopTunnel by blast
  with Cons.IH [of m1 w1] \<open>calm m1\<close> Cons.prems s show ?case by simp
qed

lemma calm_start_each:
  assumes "calm m" and "distinct is" and "\<forall>i\<in>set is. i < length (m_heap m) \<and> idle m i"
  shows "calm (fst (start_each E w m is))"
  using assms
proof (induction "is" arbitrary: m w)
  case Nil
  then show ?case by simp
next
  case (Cons i "is")
  obtain m1 w1 where s: "startTunnel E w m i = (m1, w1)" by fastforce
  then have m1: "m1 = fst (startTunnel E w m i)" by simp
  have "calm m1" using Cons.prems calm_startTunnel m1 by simp
  moreover have "length (m_heap m1) = length (m_heap m)"
    using m1 static_length static_startTunnel by blast
  moreover have "\<forall>j\<in>set is. idle m1 j"
    using Cons.prems startTunnel_idle_other m1 by (metis distinct.simps(2) list.set_intros(2))
  ultimately show ?case using Cons.IH [of m1 w1] Cons.prems s by simp
qed

lemma calm_add_tunnel:
  assumes "calm m"
  shows "calm (add_tunnel E m n p)" "idle m i \<Longrightarrow> idle (add_tunnel E m n p) i"
    "idle (add_tunnel E m n p) (length (m_heap m))"
proof -
  have ch: "chans_ok m" and wt: "waiters_ok m" using assms by (simp_all add: calm_def)
  have "chans_ok (add_tunnel E m n p)"
  proof (rule chans_okI)
    fix i c assume "i < length (m_heap (add_tunnel E m n p))"
      and "t_done (tun (add_tunnel E m n p) i) = Some c"
    then show "c < m_nchan (add_tunnel E m n p)"
      using chans_okD(1) [OF ch, of i c]
      by (auto simp: add_tunnel_def nth_append new_tunnel_def less_Suc_eq split: if_splits)
  next
    fix c assume "c \<in> set (m_closed (add_tunnel E m n p))"
    then show "c < m_nchan (add_tunnel E m n p)"
      using chans_okD(2) [OF ch, of c] by (simp add: add_tunnel_def)
  next
    fix i j c assume "i < length (m_heap (add_tunnel E m n p))" "j < length (m_heap (add_tunnel E m n p))"
      and "t_done (tun (add_tunnel E m n p) i) = Some c" "t_done (tun (add_tunnel E m n p) j) = Some c"
    then show "i = j"
      using chans_okD(3) [OF ch, of i j c]
      by (auto simp: add_tunnel_def nth_append new_tunnel_def less_Suc_eq split: if_splits)
  qed
  moreover have "waiters_ok (add_tunnel E m n p)"
  proof (rule waiters_okI)
    show "distinct (map snd (m_waiters (add_tunnel E m n p)))"
      using waiters_okD(1) [OF wt] by (simp add: add_tunnel_def)
  next
    fix q j assume "(q, j) \<in> set (m_waiters (add_tunnel E m n p))"
    then show "j < length (m_heap (add_tunnel E m n p)) \<and> t_cmd (tun (add_tunnel E m n p) j) = Some q
        \<and> (\<exists>c. t_done (tun (add_tunnel E m n p) j) = Some c \<and> c \<notin> set (m_closed (add_tunnel E m n p)))"
      using waiters_okD(2-4) [OF wt, of q j] by (auto simp: add_tunnel_def nth_append)
  next
    fix j q assume "j < length (m_heap (add_tunnel E m n p))"
      and "t_cmd (tun (add_tunnel E m n p) j) = Some q"
    then show "(q, j) \<in> set (m_waiters (add_tunnel E m n p))"
      using waiters_okD(5) [OF wt, of j q]
      by (auto simp: add_tunnel_def nth_append new_tunnel_def less_Suc_eq split: if_splits)
  qed
  ultimately show "calm (add_tunnel E m n p)" by (simp add: calm_def)
  show "idle m i \<Longrightarrow> idle (add_tunnel E m n p) i" by (simp add: idle_def add_tunnel_def)
  show "idle (add_tunnel E m n p) (length (m_heap m))"
    using waiters_okD(2) [OF wt] by (fastforce simp: idle_def add_tunnel_def)
qed

lemma calm_load_entries:
  "calm m \<Longrightarrow> calm (load_entries E m es) \<and> m_waiters (load_entries E m es) = m_waiters m"
  by (induction E m es rule: load_entries.induct)
     (simp_all add: calm_add_tunnel(1), simp add: add_tunnel_def)

lemma calm_tunnels_irrelevant [simp]: "calm (m\<lparr>m_tunnels := xs\<rparr>) = calm m"
  by (simp add: calm_def chans_ok_def waiters_ok_def)


section \<open>Runs without a panic\<close>

lemma calm_Restart:
  assumes "calm m" "prompt E" "wf_static E m"
  shows "(\<exists>m' w'. Restart E w m n = (Ok m', w') \<and> calm m') \<or> fst (Restart E w m n) = Err (TunnelNotFound n)"
proof (cases "GetTunnel m n")
  case None
  then show ?thesis by (simp add: Restart_def)
next
  case (Some i)
  have i: "i < length (m_heap m)" using wf_static_GetTunnel [OF assms(3) Some] by simp
  from calm_stopTunnel [OF assms(1,2) i, of w] obtain m1 w1 where
    s: "(stopTunnel E w m i :: (tun_err, manager) res \<times> world) = (Ok m1, w1)"
    and m1: "calm m1" "idle m1 i" by blast
  then have "fst (stopTunnel E w m i :: (tun_err, manager) res \<times> world) = Ok m1" by simp
  then have "length (m_heap m1) = length (m_heap m)"
    using static_length static_stopTunnel by blast
  with m1 i have "calm (fst (startTunnel E w1 m1 i))" by (simp add: calm_startTunnel)
  with Some s show ?thesis by (auto simp: Restart_def split: prod.splits)
qed

lemma calm_Disconnect:
  assumes "calm m" "prompt E" "wf_static E m"
  shows "(\<exists>m' w'. Disconnect E w m n = (Ok m', w') \<and> calm m')
     \<or> fst (Disconnect E w m n) = Err (TunnelNotFound n)"
proof (cases "GetTunnel m n")
  case None
  then show ?thesis by (simp add: Disconnect_def)
next
  case (Some i)
  have i: "i < length (m_heap m)" using wf_static_GetTunnel [OF assms(3) Some] by simp
  from calm_stopTunnel [OF assms(1,2) i, of w] obtain m1 w1 where
    "(stopTunnel E w m i :: (tun_err, manager) res \<times> world) = (Ok m1, w1)" "calm m1" by blast
  with Some show ?thesis by (simp add: Disconnect_def calm_upd)
qed

lemma calm_Delete:
  assumes "calm m" "prompt E" "wf_static E m"
  shows "\<exists>r m' w'. Delete E w m n = (r, m', w') \<and> calm m' \<and> (\<forall>p. r \<noteq> Panic p)"
proof (cases "GetTunnel m n")
  case None
  with assms(1) show ?thesis by (simp add: Delete_def)
next
  case (Some i)
  have i: "i < length (m_heap m)" using wf_static_GetTunnel [OF assms(3) Some] by simp
  from calm_stopTunnel [OF assms(1,2) i, of w] obtain m1 w1 where
    "(stopTunnel E w m i :: (tun_err, manager) res \<times> world) = (Ok m1, w1)" "calm m1" by blast
  with Some show ?thesis
    by (auto simp: Delete_def split: prod.splits option.splits os_err.splits)
qed

lemma calm_ImportConfig:
  assumes "calm m"
  shows "\<exists>r w'. ImportConfig E w m n c = (r, w') \<and> (\<forall>p. r \<noteq> Panic p) \<and> (\<forall>m'. r = Ok m' \<longrightarrow> calm m')"
proof -
  let ?m = "add_tunnel E m n (path_join (m_configDir m) (n @ ''.conf''))"
  have "calm (fst (startTunnel E w1 ?m (length (m_heap m))))" for w1
    by (rule calm_startTunnel) (simp_all add: calm_add_tunnel assms, simp add: add_tunnel_def)
  then show ?thesis
    by (auto simp: ImportConfig_def Let_def split: prod.splits option.splits) (metis fst_conv)
qed

lemma calm_step:
  assumes "calm (fst s)" "prompt E" "wf_static E (fst s)" "op \<noteq> OpStartAll"
  shows "\<exists>s'. tm_step E op s = Some s' \<and> calm (fst s')"
proof -
  obtain m w where s: "s = (m, w)" by fastforce
  with assms have m: "calm m" "wf_static E m" by simp_all
  show ?thesis
  proof (cases op)
    case OpLoad
    with s m show ?thesis
      by (auto simp: LoadConfigs_def calm_load_entries read_dir_def split: option.splits)
  next
    case OpStartAll
    with assms(4) show ?thesis by simp
  next
    case OpStopAll
    have "\<forall>i\<in>set (m_tunnels m). i < length (m_heap m)"
      using m(2) by (simp add: wf_static_def)
    from calm_stop_each [OF m(1) assms(2) this, of w] obtain m' w' where
      "(stop_each E w m (m_tunnels m) :: (unit, manager) res \<times> world) = (Ok m', w')" "calm m'" by blast
    with OpStopAll s show ?thesis by (simp add: StopAll_def)
  next
    case (OpRestart n)
    with s m(1) calm_Restart [OF m(1) assms(2) m(2), of w n] show ?thesis
      by (cases "Restart E w m n") auto
  next
    case (OpDisconnect n)
    with s m(1) calm_Disconnect [OF m(1) assms(2) m(2), of w n] show ?thesis
      by (cases "Disconnect E w m n") auto
  next
    case (OpDelete n)
    from calm_Delete [OF m(1) assms(2) m(2), of w n] obtain r m' w' where
      "Delete E w m n = (r, m', w')" "calm m'" "\<forall>p. r \<noteq> Panic p" by blast
    with OpDelete s show ?thesis by (cases r) simp_all
  next
    case (OpImport n c)
    from calm_ImportConfig [OF m(1), of E w n c] obtain r w' where
      "ImportConfig E w m n c = (r, w')" "\<forall>p. r \<noteq> Panic p" "\<forall>m'. r = Ok m' \<longrightarrow> calm m'" by blast
    with OpImport s m(1) show ?thesis by (cases r) simp_all
  next
    case (OpExit pid i err)
    show ?thesis
    proof (cases "(pid, i) \<in> set (m_waiters m)")
      case True
      from calm_wait_exit [OF m(1) True, of err] obtain m' where
        "(wait_exit m pid i err :: (unit, manager) res) = Ok m'" "calm m'" by blast
      with OpExit s True show ?thesis by simp
    qed (use OpExit s m in simp)
  qed
qed

lemma calm_run:
  assumes "calm (fst s)" "prompt E" "wf_static E (fst s)" "OpStartAll \<notin> set ops"
  shows "\<exists>s'. tm_run E ops s = Some s' \<and> calm (fst s')"
  using assms
proof (induction ops arbitrary: s)
  case Nil
  then show ?case by simp
next
  case (Cons op ops)
  then obtain s1 where s1: "tm_step E op s = Some s1" "calm (fst s1)"
    using calm_step [of s E op] by auto
  with Cons wf_static_step have "wf_static E (fst s1)" by blast
  with Cons s1 show ?case by simp
qed

lemma calm_StartAll:
  assumes "calm m" "wf_static E m" "m_waiters m = []"
  shows "calm (fst (StartAll E w m))"
  unfolding StartAll_def
  by (rule calm_start_each) (use assms in \<open>auto simp: wf_static_def idle_def\<close>)

end
