(* ===== verification/Tunnels_Props.thy ===== *)
theory Tunnels_Props
  imports Tunnels_Calm
begin

text \<open>
  What the tunnel manager guarantees: its ports, its processes, its files and its list of tunnels.
\<close>

section \<open>Helper lemmas on single operations\<close>

lemma generate_ok:
  assumes "generateWireproxyConfig E w t = (Ok tmp, w')"
  shows "\<exists>src. file_at w (t_ConfigPath t) = Some src
     \<and> file_at w' tmp = Some (src @ socks5_section (t_ProxyPort t)) \<and> file_at w tmp = None"
proof -
  obtain src w1 w2 where
    r: "read_file E w (t_ConfigPath t) = (Ok src, w1)"
    and c: "create_temp E w1 (''wg-proxy-'' @ t_Name t @ ''-*.conf'') = (Ok tmp, w2)"
    and wr: "write_file E w2 tmp (src @ socks5_section (t_ProxyPort t)) = (None, w')"
    using assms
    by (auto simp: generateWireproxyConfig_def Let_def split: prod.splits res.splits option.splits)
  have "fst (read_file E w (t_ConfigPath t)) = Ok src" and w1: "w1 = tock w"
    using r snd_read_file [of E w "t_ConfigPath t"] by simp_all
  then have "file_at w (t_ConfigPath t) = Some src" by (simp add: read_file_Ok_iff)
  moreover have "file_at w tmp = None" using create_temp_Ok(1) [OF c] w1 by simp
  ultimately show ?thesis using write_file_ok [OF wr] by blast
qed

text \<open>Generating a configuration never changes a file that existed before.\<close>

lemma generate_frame:
  assumes "file_at w q = Some s"
  shows "file_at (snd (generateWireproxyConfig E w t)) q = Some s"
proof (cases "fst (create_temp E (tock w) (''wg-proxy-'' @ t_Name t @ ''-*.conf''))")
  case (Ok tmp)
  let ?ct = "create_temp E (tock w) (''wg-proxy-'' @ t_Name t @ ''-*.conf'')"
  have c: "?ct = (Ok tmp, snd ?ct)" using Ok by (metis prod.collapse)
  have "file_at w tmp = None" using create_temp_Ok(1) [OF c] by simp
  then have ne: "path_clean q \<noteq> path_clean tmp" using assms by (auto simp: file_at_def)
  have k: "file_at (snd ?ct) q = Some s" using create_temp_Ok(3) [OF c ne] assms by simp
  have "file_at (snd (write_file E (snd ?ct) tmp x)) q = Some s" for x
    using write_file_frame [OF ne] k by simp
  moreover have "file_at (snd (remove_file E w' tmp)) q = file_at w' q" for w'
    by (rule remove_file_frame [OF ne])
  ultimately show ?thesis
    using assms c unfolding generateWireproxyConfig_def
    by (auto simp: Let_def read_file_def split: res.splits prod.splits option.splits)
      (metis snd_conv)+
next
  case (Err e)
  then show ?thesis
    using assms create_temp_keeps [of "tock w" q s E]
    unfolding generateWireproxyConfig_def
    by (auto simp: Let_def read_file_def split: res.splits prod.splits option.splits)
      (metis snd_conv)+
next
  case (Panic p)
  then show ?thesis
    by (auto simp: create_temp_def Let_def split: if_splits option.splits)
qed

lemma spawn_frame [simp]: "file_at (snd (spawn E w argv)) q = file_at w q"
  by (auto simp: spawn_def split: sum.splits)

lemma now_frame [simp]: "file_at (snd (now E w)) q = file_at w q"
  by (simp add: now_def)

lemma note_event_frame [simp]: "file_at (note_event w e) q = file_at w q"
  by (simp add: note_event_def)

lemma startTunnel_frame:
  assumes "file_at w q = Some s"
  shows "file_at (snd (startTunnel E w m i)) q = Some s"
proof -
  have g: "file_at (snd (generateWireproxyConfig E w t)) q = Some s" for t
    using assms by (rule generate_frame)
  have sp: "file_at w' q = file_at w0 q" if "spawn E w0 a = (r, w')" for w0 a r w'
    using spawn_frame [of E w0 a q] that by simp
  have nw: "file_at w' q = file_at w0 q" if "now E w0 = (r, w')" for w0 r w'
    using now_frame [of E w0 q] that by simp
  show ?thesis
    using g [of "tun (start_begin m i) i"] unfolding startTunnel_def
    by (auto simp: Let_def split: res.splits sum.splits prod.splits dest!: sp nw)
qed


lemma trace_read_file [simp]: "trace (snd (read_file E w p)) = trace w"
  by simp

lemma trace_write_file [simp]: "trace (snd (write_file E w p s)) = trace w"
  by (auto simp: write_file_def split: option.splits)

lemma trace_remove_file [simp]: "trace (snd (remove_file E w p)) = trace w"
  by (auto simp: remove_file_def split: option.splits)

lemma trace_create_temp [simp]: "trace (snd (create_temp E w p)) = trace w"
  by (auto simp: create_temp_def Let_def split: option.splits)

lemma trace_generate [simp]: "trace (snd (generateWireproxyConfig E w t)) = trace w"
proof -
  have "trace w' = trace w0" if "read_file E w0 p = (r, w')" for w0 p r w'
    using trace_read_file [of E w0 p] that by simp
  moreover have "trace w' = trace w0" if "create_temp E w0 p = (r, w')" for w0 p r w'
    using trace_create_temp [of E w0 p] that by simp
  moreover have "trace w' = trace w0" if "write_file E w0 p x = (r, w')" for w0 p x r w'
    using trace_write_file [of E w0 p x] that by simp
  ultimately show ?thesis
    unfolding generateWireproxyConfig_def
    by (auto simp: Let_def split: res.splits prod.splits option.splits)
qed

lemma tun_err_text_nonempty [simp]: "tun_err_text E e \<noteq> []"
  by (cases e) simp_all

lemma start_blocks_tun:
  "i < length (m_heap m) \<Longrightarrow> tun (start_begin m i) j =
     (if j = i then (tun m i)\<lparr>t_Status := StatusStarting, t_Error := []\<rparr> else tun m j)"
  "i < length (m_heap m) \<Longrightarrow> tun (start_error m i e) j =
     (if j = i then (tun m i)\<lparr>t_Status := StatusError, t_Error := e\<rparr> else tun m j)"
  "i < length (m_heap m) \<Longrightarrow> tun (start_conf m i p) j =
     (if j = i then (tun m i)\<lparr>t_tmpConf := p, t_done := Some (m_nchan m)\<rparr> else tun m j)"
  "i < length (m_heap m) \<Longrightarrow> tun (start_run m i pid at) j =
     (if j = i then (tun m i)\<lparr>t_cmd := Some pid, t_StartedAt := Some at, t_Status := StatusRunning\<rparr>
      else tun m j)"
  "length (m_heap (start_begin m i)) = length (m_heap m)"
  "length (m_heap (start_conf m i p)) = length (m_heap m)"
  by (simp_all add: start_begin_def start_error_def start_conf_def start_run_def tun_upd)

lemma startTunnel_Running:
  assumes i: "i < length (m_heap m)"
    and g: "generateWireproxyConfig E w (tun (start_begin m i) i) = (Ok tmp, w1)"
    and sp: "spawn E w1 [''wireproxy'', ''-c'', tmp] = (Inr pid, w2)"
  shows "startTunnel E w m i =
     (start_run (start_conf (start_begin m i) i tmp) i pid (clock E (tick w2)), tock w2)"
  using assms by (simp add: startTunnel_def Let_def now_def)

lemma startTunnel_spawn_fails:
  assumes "generateWireproxyConfig E w (tun (start_begin m i) i) = (Ok tmp, w1)"
    and "spawn E w1 [''wireproxy'', ''-c'', tmp] = (Inl e, w2)"
  shows "startTunnel E w m i =
     (start_error (start_conf (start_begin m i) i tmp) i (''failed to start wireproxy: '' @ e), w2)"
  using assms by (simp add: startTunnel_def Let_def)

lemma startTunnel_config_fails:
  assumes "generateWireproxyConfig E w (tun (start_begin m i) i) = (Err e, w1)"
  shows "startTunnel E w m i =
     (start_error (start_begin m i) i (''config generation failed: '' @ tun_err_text E e), w1)"
  using assms by (simp add: startTunnel_def Let_def)

text \<open>The operations on one tunnel leave the others as they are.\<close>

lemma start_blocks_others:
  assumes "j \<noteq> i"
  shows "tun (start_begin m i) j = tun m j" "tun (start_error m i e) j = tun m j"
    "tun (start_conf m i p) j = tun m j" "tun (start_run m i pid at) j = tun m j"
  using tun_upd_other [OF assms] by (simp_all add: start_begin_def start_error_def start_conf_def start_run_def)

lemma startTunnel_others: "j \<noteq> i \<Longrightarrow> tun (fst (startTunnel E w m i)) j = tun m j"
  by (simp add: startTunnel_def Let_def start_blocks_others split: res.split sum.split prod.split)

lemma wait_exit_others: "wait_exit m pid i err = Ok m' \<Longrightarrow> j \<noteq> i \<Longrightarrow> tun m' j = tun m j"
  by (simp add: wait_exit_tun)

lemma stopTunnel_others:
  assumes "fst (stopTunnel E w m i) = Ok m'" and "j \<noteq> i"
  shows "tun m' j = tun m j"
proof -
  have "tun (stop_mark m i) j = tun m j" using assms(2) by (simp add: stop_mark_def)
  then show ?thesis
    using assms by (auto simp: wait_exit_others stop_signal_def stop_wait_def Let_def split: option.splits if_splits res.splits)
qed

section \<open>Properties\<close>

text \<open>
  C5. Wireproxy backends never share a port: after any sequence of loads, starts, stops, restarts,
  disconnects, deletes, imports and process exits the tunnels of the manager have pairwise different
  SOCKS5 ports, so the list of healthy backends has no duplicates. The bound says that fewer than
  \<open>2 ^ 64\<close> tunnels have been created since the port counter started.
\<close>

theorem ports_never_shared:
  assumes "in_s64 base"
    and "tm_run E ops (NewManager dir base, w) = Some (m, w')"
    and "length (m_heap m) \<le> 2 ^ 64"
  shows "distinct (map (\<lambda>i. t_ProxyPort (tun m i)) (m_tunnels m)) \<and> distinct (HealthyBackends m)"
proof -
  have "wf_static E m"
    using wf_static_run [OF _ assms(2)] wf_static_NewManager [OF assms(1)] by simp
  then have "distinct (map (\<lambda>i. t_ProxyPort (tun m i)) (m_tunnels m))"
    using assms(3) by (rule wf_static_ports)
  then show ?thesis
    by (simp add: HealthyBackends_def distinct_map_filter)
qed

text \<open>A machine on which nothing fails, for the examples.\<close>

definition calm_env :: env where
  "calm_env =
     \<lparr>read_fault = (\<lambda>_ _. None), dir_fault = (\<lambda>_ _. None), write_fault = (\<lambda>_ _. None),
      remove_fault = (\<lambda>_ _. None), temp_fault = (\<lambda>_ _. None), temp_rand = (\<lambda>_. ''7''),
      temp_dir = ''/tmp'', exec_result = (\<lambda>_ _ _. ([], None)), spawn_result = (\<lambda>n _. Inr n),
      clock = int, entropy = (\<lambda>_. Inr (replicate 32 0)), exits_in_time = (\<lambda>_ _. True),
      uni_upper = (\<lambda>s. s), uni_print = (\<lambda>_. True)\<rparr>"

definition empty_world :: world where
  "empty_world = \<lparr>files = [], dirs = [''/c''], tick = 0, trace = []\<rparr>"

theorem ports_never_shared_witness:
  "\<exists>m w'. tm_run calm_env [OpImport ''a'' ''x'', OpImport ''b'' ''y''] (NewManager ''/c'' 10001, empty_world)
       = Some (m, w') \<and> length (m_heap m) = 2 \<and> distinct (HealthyBackends m)"
proof -
  let ?r = "tm_run calm_env [OpImport ''a'' ''x'', OpImport ''b'' ''y''] (NewManager ''/c'' 10001, empty_world)"
  have s: "?r \<noteq> None" and l: "length (m_heap (fst (the ?r))) = 2"
    by code_simp+
  obtain m w' where r: "?r = Some (m, w')" using s by (metis not_None_eq surj_pair)
  have lm: "length (m_heap m) = 2" using l unfolding r by simp
  have "distinct (HealthyBackends m)"
    using ports_never_shared [OF _ r] lm by (simp add: in_s64_def)
  with r lm show ?thesis by blast
qed



text \<open>
  C33. When a process outlives the five seconds, a restart breaks the tunnel: the old process's
  goroutine, run after the new process has started, marks the healthy tunnel as failed, drops the
  new process from the tunnel and closes the new process's channel; when the new process ends in its
  turn, the channel is closed a second time and the program panics.
\<close>

theorem restart_of_slow_process_panics:
  assumes m: "calm m" "wf_static E m" "GetTunnel m n = Some i" "t_cmd (tun m i) = Some p"
    and slow: "\<forall>k r. \<not> exits_in_time E k r"
    and restart: "Restart E w m n = (Ok m2, w2)" "t_cmd (tun m2 i) = Some q" "t_Status (tun m2 i) = StatusRunning"
    and pq: "p \<noteq> q"
  shows "\<exists>m3. tm_step E (OpExit p i e1) (m2, w2) = Some (m3, w2)
    \<and> t_Status (tun m3 i) = StatusError \<and> t_cmd (tun m3 i) = None
    \<and> tm_step E (OpExit q i e2) (m3, w2) = None"
proof -
  have i: "i < length (m_heap m)" using wf_static_GetTunnel [OF m(2,3)] by simp
  have ch: "chans_ok m" and wt: "waiters_ok m" using m(1) by (simp_all add: calm_def)
  have pw: "(p, i) \<in> set (m_waiters m)" using waiters_okD(5) [OF wt i m(4)] .
  from waiters_okD(4) [OF wt pw] obtain c where
    c: "t_done (tun m i) = Some c" "c \<notin> set (m_closed m)" by blast
  let ?m1 = "stop_mark m i"
  have "stop_signal E w m i = (Ok ?m1 :: (tun_err, manager) res, note_event (note_event w (Interrupt p)) (Kill p))"
    using m(4) c slow by (simp add: stop_signal_def Let_def stop_wait_def) (simp add: stop_mark_def)
  then obtain w1 where "stopTunnel E w m i = (Ok ?m1 :: (tun_err, manager) res, w1)"
    by (simp add: stopTunnel_def)
  then have st: "startTunnel E w1 ?m1 i = (m2, w2)"
    using restart(1) m(3) by (simp add: Restart_def split: prod.splits)
  define m0 where "m0 = start_begin ?m1 i"
  have l0: "i < length (m_heap m0)" using i by (simp add: m0_def start_blocks_tun)
  have m0s: "t_Status (tun m0 i) = StatusStarting" using i by (simp add: m0_def start_blocks_tun)
  obtain tmp at where m2: "m2 = start_run (start_conf m0 i tmp) i q at"
    using st restart(2,3) l0 i m0s
    by (auto simp: startTunnel_def Let_def m0_def [symmetric] now_def start_blocks_tun
          split: prod.splits res.splits sum.splits)
  have w2: "m_waiters m2 = (q, i) # m_waiters m" "m_closed m2 = m_closed m"
    using m2 by (simp_all add: start_run_def start_conf_def m0_def start_begin_def stop_mark_def)
  have n2: "length (m_heap m2) = length (m_heap m)" "t_done (tun m2 i) = Some (m_nchan m)"
    using m2 i by (simp_all add: start_run_def start_conf_def m0_def start_begin_def stop_mark_def)
  have fresh: "m_nchan m \<notin> set (m_closed m)" using fresh_chan_open [OF m(1)] .
  let ?f = "\<lambda>t. (if t_Status t \<noteq> StatusStopped
      then t\<lparr>t_Status := StatusError, t_Error := exit_text e1\<rparr> else t)\<lparr>t_cmd := None\<rparr>"
  let ?m3 = "(upd m2 i ?f)\<lparr>m_waiters := remove1 (p, i) (m_waiters m2), m_closed := m_nchan m # m_closed m\<rparr>"
  have e1: "wait_exit m2 p i e1 = (Ok ?m3 :: (unit, manager) res)"
    using n2 w2 i fresh by (simp add: wait_exit_def close_done_def)
  have s1: "tm_step E (OpExit p i e1) (m2, w2) = Some (?m3, w2)"
    using e1 w2 pw by simp
  have q3: "(q, i) \<in> set (m_waiters ?m3)" using w2 pq by simp
  have "(wait_exit ?m3 q i e2 :: (unit, manager) res) = Panic ''close of closed channel''"
    using n2 i by (simp add: wait_exit_def close_done_def)
  then have "tm_step E (OpExit q i e2) (?m3, w2) = None" using q3 by simp
  with s1 show ?thesis using n2 i restart(3) by auto
qed

text \<open>A machine where processes ignore interrupts.\<close>

definition slow_env :: env where
  "slow_env = calm_env\<lparr>exits_in_time := (\<lambda>_ _. False)\<rparr>"


text \<open>The state after importing one tunnel into an empty manager, for the examples.\<close>

definition demo :: "env \<Rightarrow> manager \<times> world" where
  "demo E = the (tm_run E [OpImport ''a'' ''x''] (NewManager ''/c'' 10001, empty_world))"

lemma demo_ok:
  assumes "tm_run E [OpImport ''a'' ''x''] (NewManager ''/c'' 10001, empty_world) \<noteq> None"
  shows "wf_static E (fst (demo E))" and "calm (fst (demo E))"
proof -
  let ?s0 = "(NewManager ''/c'' 10001, empty_world)"
  have r: "tm_run E [OpImport ''a'' ''x''] ?s0 = Some (demo E)"
    using option.collapse [OF assms] by (simp only: demo_def)
  show "wf_static E (fst (demo E))"
    using wf_static_run [OF _ r] wf_static_NewManager [of 10001 E "''/c''"] by (simp add: in_s64_def)
  have "tm_step E (OpImport ''a'' ''x'') ?s0 = Some (demo E)"
    using r by (auto simp: bind_eq_Some_conv simp del: tm_step.simps)
  then show "calm (fst (demo E))"
    using calm_ImportConfig [OF calm_NewManager, of E empty_world "''/c''" 10001 "''a''" "''x''"]
    by (cases "demo E"; cases "ImportConfig E empty_world (NewManager ''/c'' 10001) ''a'' ''x''";
        cases "fst (ImportConfig E empty_world (NewManager ''/c'' 10001) ''a'' ''x'')")
       (auto simp: calm_NewManager)
qed

lemma demo_runs:
  "tm_run calm_env [OpImport ''a'' ''x''] (NewManager ''/c'' 10001, empty_world) \<noteq> None"
  "tm_run slow_env [OpImport ''a'' ''x''] (NewManager ''/c'' 10001, empty_world) \<noteq> None"
  by code_simp+

lemmas demo_calm = demo_ok [OF demo_runs(1)]
lemmas demo_slow = demo_ok [OF demo_runs(2)]

fun ok_value :: "('e, 'a) res \<Rightarrow> 'a option" where
  "ok_value (Ok x) = Some x"
| "ok_value (Err e) = None"
| "ok_value (Panic p) = None"

lemma ok_value_the: "ok_value r \<noteq> None \<Longrightarrow> r = Ok (the (ok_value r))"
  by (cases r) auto

theorem restart_of_slow_process_panics_witness:
  "\<exists>m2 w2 m3. Restart slow_env (snd (demo slow_env)) (fst (demo slow_env)) ''a'' = (Ok m2, w2)
     \<and> tm_step slow_env (OpExit 4 0 None) (m2, w2) = Some (m3, w2)
     \<and> t_Status (tun m3 0) = StatusError
     \<and> tm_step slow_env (OpExit 12 0 None) (m3, w2) = None"
proof -
  let ?re = "Restart slow_env (snd (demo slow_env)) (fst (demo slow_env)) ''a''"
  define m2 where "m2 = the (ok_value (fst ?re))"
  have "ok_value (fst ?re) \<noteq> None" by code_simp
  then have re: "?re = (Ok m2, snd ?re)"
    using ok_value_the unfolding m2_def by (metis prod.collapse)
  have g: "GetTunnel (fst (demo slow_env)) ''a'' = Some 0" "t_cmd (tun (fst (demo slow_env)) 0) = Some 4"
    by code_simp+
  have g2: "t_cmd (tun m2 0) = Some 12" "t_Status (tun m2 0) = StatusRunning"
    unfolding m2_def by code_simp+
  have slow: "\<forall>k r. \<not> exits_in_time slow_env k r" by (simp add: slow_env_def calm_env_def)
  have "(4::nat) \<noteq> 12" by simp
  from restart_of_slow_process_panics [OF demo_slow(2,1) g slow re g2 this, of None None] re
  show ?thesis by blast
qed


text \<open>A start whose process is spawned, and one whose process is not.\<close>

lemma started_tunnel:
  assumes i: "i < length (m_heap m)" and g: "generateWireproxyConfig E w (tun (start_begin m i) i) = (Ok tmp, w1)"
    and sp: "spawn E w1 [''wireproxy'', ''-c'', tmp] = (Inr pid, w2)" and st: "startTunnel E w m i = (m', w')"
  shows "t_Status (tun m' i) = StatusRunning" "t_Error (tun m' i) = []" "t_cmd (tun m' i) = Some pid"
    "t_tmpConf (tun m' i) = tmp" "t_done (tun m' i) = Some (m_nchan m)" "t_StartedAt (tun m' i) \<noteq> None"
    "m_waiters m' = (pid, i) # m_waiters m" "w' = tock w2"
proof -
  have m': "m' = start_run (start_conf (start_begin m i) i tmp) i pid (clock E (tick w2))" and w': "w' = tock w2"
    using startTunnel_Running [OF i g sp] st by simp_all
  show "t_Status (tun m' i) = StatusRunning" "t_Error (tun m' i) = []" "t_cmd (tun m' i) = Some pid"
    "t_tmpConf (tun m' i) = tmp" "t_StartedAt (tun m' i) \<noteq> None"
    using i m' by (simp_all add: start_blocks_tun)
  show "t_done (tun m' i) = Some (m_nchan m)"
    using i m' by (simp add: start_blocks_tun) (simp add: start_begin_def)
  show "m_waiters m' = (pid, i) # m_waiters m"
    using m' by (simp add: start_run_def start_conf_def start_begin_def)
qed (use startTunnel_Running [OF i g sp] st in simp)

definition start_failed :: "manager \<Rightarrow> manager \<Rightarrow> nat \<Rightarrow> bool" where
  "start_failed m m' i \<longleftrightarrow> t_Status (tun m' i) = StatusError \<and> t_Error (tun m' i) \<noteq> [] \<and>
     t_cmd (tun m' i) = t_cmd (tun m i) \<and> m_waiters m' = m_waiters m"

lemma start_failed_blocks:
  assumes "i < length (m_heap m)" and "txt \<noteq> []"
  shows "start_failed m (start_error (start_begin m i) i txt) i"
    and "start_failed m (start_error (start_conf (start_begin m i) i tmp) i txt) i"
  using assms
  by (simp_all add: start_failed_def start_blocks_tun)
     (simp_all add: start_error_def start_conf_def start_begin_def)

lemma generate_no_panic: "generateWireproxyConfig E w t \<noteq> (Panic p, w')"
  by (auto simp: generateWireproxyConfig_def Let_def read_file_def create_temp_def
      split: res.splits prod.splits option.splits if_splits)

text \<open>
  C22. \<^verbatim>\<open>startTunnel\<close> ends in one of two states. Either the tunnel runs: its process has been started on
  a fresh temporary file that holds the tunnel's own configuration file followed by a \<^verbatim>\<open>[Socks5]\<close>
  section with the tunnel's own port, its error is cleared and its channel is new. Or it is in the
  error state with a message, no process has been started and the process field is as before.
\<close>

theorem startTunnel_outcome:
  assumes i: "i < length (m_heap m)" and st: "startTunnel E w m i = (m', w')"
  shows "(\<exists>tmp pid src. t_Status (tun m' i) = StatusRunning \<and> t_Error (tun m' i) = []
      \<and> t_cmd (tun m' i) = Some pid \<and> t_tmpConf (tun m' i) = tmp
      \<and> t_done (tun m' i) = Some (m_nchan m) \<and> t_StartedAt (tun m' i) \<noteq> None
      \<and> file_at w (t_ConfigPath (tun m i)) = Some src \<and> file_at w tmp = None
      \<and> file_at w' tmp = Some (src @ socks5_section (t_ProxyPort (tun m i)))
      \<and> trace w' = trace w @ [Spawn [''wireproxy'', ''-c'', tmp] pid]
      \<and> m_waiters m' = (pid, i) # m_waiters m)
    \<or> t_Status (tun m' i) = StatusError \<and> t_Error (tun m' i) \<noteq> []
      \<and> t_cmd (tun m' i) = t_cmd (tun m i) \<and> trace w' = trace w \<and> m_waiters m' = m_waiters m"
proof (cases "generateWireproxyConfig E w (tun (start_begin m i) i)")
  case (Pair r w1)
  then have tr: "trace w1 = trace w" by (metis snd_conv trace_generate)
  show ?thesis
  proof (cases r)
    case (Ok tmp)
    note g = Pair [unfolded Ok]
    let ?argv = "[''wireproxy'', ''-c'', tmp]"
    obtain src where src: "file_at w (t_ConfigPath (tun m i)) = Some src" "file_at w tmp = None"
        "file_at w1 tmp = Some (src @ socks5_section (t_ProxyPort (tun m i)))"
      using generate_ok [OF g] i by (auto simp: start_blocks_tun)
    show ?thesis
    proof (cases "spawn_result E (tick w1) ?argv")
      case (Inl e)
      then have "spawn E w1 ?argv = (Inl e, tock w1)" by (simp add: spawn_def)
      then show ?thesis
        using startTunnel_spawn_fails [OF g] st tr start_failed_blocks(2) [OF i, of _ tmp]
        by (auto simp: start_failed_def)
    next
      case (Inr pid)
      then have "spawn E w1 ?argv = (Inr pid, tock (w1\<lparr>trace := trace w1 @ [Spawn ?argv pid]\<rparr>))"
        by (simp add: spawn_def)
      from started_tunnel [OF i g this st] show ?thesis using src tr by auto
    qed
  next
    case (Err e)
    then show ?thesis
      using startTunnel_config_fails [OF Pair [unfolded Err]] st tr start_failed_blocks(1) [OF i]
      by (auto simp: start_failed_def)
  qed (use Pair generate_no_panic in blast)
qed

text \<open>A manager with one tunnel that has not been started yet, for the examples.\<close>

definition loaded :: manager where
  "loaded = add_tunnel calm_env (NewManager ''/c'' 10001) ''a'' ''/c/a.conf''"

definition loaded_world :: world where
  "loaded_world = empty_world\<lparr>files := [(''/c/a.conf'', ''x'')]\<rparr>"

theorem startTunnel_outcome_witness:
  "\<exists>m' w'. startTunnel calm_env loaded_world loaded 0 = (m', w') \<and> 0 < length (m_heap loaded)
     \<and> t_Status (tun m' 0) = StatusRunning
     \<and> file_at w' (t_tmpConf (tun m' 0)) = Some (''x'' @ socks5_section 10001)"
proof -
  have i: "0 < length (m_heap loaded)" by code_simp
  obtain m' w' where st: "startTunnel calm_env loaded_world loaded 0 = (m', w')" by fastforce
  have run: "t_Status (tun (fst (startTunnel calm_env loaded_world loaded 0)) 0) = StatusRunning"
    by code_simp
  have src: "file_at loaded_world (t_ConfigPath (tun loaded 0)) = Some ''x''"
    and port: "t_ProxyPort (tun loaded 0) = 10001" by code_simp+
  from startTunnel_outcome [OF i st] run st src port i show ?thesis by auto
qed

text \<open>
  Disconnecting a known tunnel whose process ends in time leaves it disconnected: no process, no
  error, not a healthy backend; every other tunnel, the list of tunnels and the ports are
  untouched, and the tunnel's configuration file is still there.
\<close>

theorem Disconnect_result:
  assumes "calm m" "wf_static E m" "prompt E" "GetTunnel m n = Some i"
    and conf: "file_at w (t_ConfigPath (tun m i)) = Some s"
      "path_clean (t_tmpConf (tun m i)) \<noteq> path_clean (t_ConfigPath (tun m i))"
  shows "\<exists>m' w'. Disconnect E w m n = (Ok m', w')
    \<and> tun m' i = (tun m i)\<lparr>t_Status := StatusDisconnected, t_Error := [], t_cmd := None\<rparr>
    \<and> (\<forall>j. j \<noteq> i \<longrightarrow> tun m' j = tun m j) \<and> static m' = static m
    \<and> file_at w' (t_ConfigPath (tun m i)) = Some s"
proof -
  have i: "i < length (m_heap m)" using wf_static_GetTunnel [OF assms(2,4)] by simp
  from calm_stop_signal [OF assms(1,3) i, of w] obtain m1 w1 where
    s: "(stop_signal E w m i :: (tun_err, manager) res \<times> world) = (Ok m1, w1)"
    and m1: "tun m1 i = (tun m i)\<lparr>t_Status := StatusStopped, t_Error := [], t_cmd := None\<rparr>"
      "\<forall>j. j \<noteq> i \<longrightarrow> tun m1 j = tun m j" by blast
  have fw: "file_at w1 q = file_at w q" for q
    using s by (auto simp: stop_signal_def stop_wait_def Let_def split: option.splits if_splits res.splits)
  have "fst (stop_signal E w m i :: (tun_err, manager) res \<times> world) = Ok m1" using s by simp
  then have st: "static m1 = static m" by (rule static_stop_signal)
  then have len: "i < length (m_heap m1)" using i static_length by metis
  let ?m' = "upd m1 i (\<lambda>t. t\<lparr>t_Status := StatusDisconnected\<rparr>)"
  let ?w' = "if t_tmpConf (tun m1 i) \<noteq> [] then snd (remove_file E w1 (t_tmpConf (tun m1 i))) else w1"
  have "Disconnect E w m n = (Ok ?m', ?w')"
    using s assms(4) by (simp add: Disconnect_def stopTunnel_def)
  moreover have "file_at ?w' (t_ConfigPath (tun m i)) = Some s"
    using conf fw remove_file_frame [of "t_ConfigPath (tun m i)" "t_tmpConf (tun m i)" E w1] m1(1)
    by simp
  moreover have "static ?m' = static m" using st by (simp add: ident_def)
  ultimately show ?thesis using m1 len by auto
qed

theorem Disconnect_result_witness:
  "\<exists>m' w'. Disconnect calm_env (snd (demo calm_env)) (fst (demo calm_env)) ''a'' = (Ok m', w')
     \<and> t_Status (tun m' 0) = StatusDisconnected"
proof -
  have g: "GetTunnel (fst (demo calm_env)) ''a'' = Some 0"
    and c: "file_at (snd (demo calm_env)) (t_ConfigPath (tun (fst (demo calm_env)) 0)) = Some ''x''"
    and p: "path_clean (t_tmpConf (tun (fst (demo calm_env)) 0))
      \<noteq> path_clean (t_ConfigPath (tun (fst (demo calm_env)) 0))"
    by code_simp+
  have "prompt calm_env" by (simp add: prompt_def calm_env_def)
  from Disconnect_result [OF demo_calm(2,1) this g c p] show ?thesis by force
qed

text \<open>What a successful delete does to the list and the file.\<close>

lemma Delete_steps:
  assumes "wf_static E m" and d: "Delete E w m n = (Ok (), m', w')"
  obtains i where "GetTunnel m n = Some i"
    "m_tunnels m' = remove_first (\<lambda>j. t_Name (tun m j) = n) (m_tunnels m)"
    "\<And>j. j \<in> set (m_tunnels m) \<Longrightarrow> t_Name (tun m' j) = t_Name (tun m j)"
    "file_at w' (t_ConfigPath (tun m i)) = None"
proof -
  obtain i where g: "GetTunnel m n = Some i" using d by (auto simp: Delete_def split: option.splits)
  obtain m1 w1 where s: "stopTunnel E w m i = (Ok m1 :: (tun_err, manager) res, w1)"
    using d g by (auto simp: Delete_def split: prod.splits res.splits)
  obtain r where rm: "remove_file E w1 (t_ConfigPath (tun m1 i)) = (r, w')"
    and r: "r = None \<or> (\<exists>x. r = Some (NotExist x))"
    and m': "m' = m1\<lparr>m_tunnels := remove_first (\<lambda>j. t_Name (tun m1 j) = n) (m_tunnels m1)\<rparr>"
    using d g s by (auto simp: Delete_def split: prod.splits option.splits os_err.splits)
  have "fst (stopTunnel E w m i :: (tun_err, manager) res \<times> world) = Ok m1" using s by simp
  then have st: "static m1 = static m" by (rule static_stopTunnel)
  have id: "ident (tun m1 j) = ident (tun m j)" if "j \<in> set (m_tunnels m)" for j
    using static_ident [OF st, of j] assms(1) that by (simp add: wf_static_def)
  then have nm: "t_Name (tun m1 j) = t_Name (tun m j)" if "j \<in> set (m_tunnels m)" for j
    using that by (simp add: ident_def)
  show thesis
  proof (rule that [OF g])
    have "remove_first (\<lambda>j. t_Name (tun m1 j) = n) (m_tunnels m)
        = remove_first (\<lambda>j. t_Name (tun m j) = n) (m_tunnels m)"
      by (rule remove_first_cong) (simp only: nm)
    then show "m_tunnels m' = remove_first (\<lambda>j. t_Name (tun m j) = n) (m_tunnels m)"
      using m' st by (simp add: static_def)
    have "t_ConfigPath (tun m1 i) = t_ConfigPath (tun m i)"
      using id [of i] wf_static_GetTunnel [OF assms(1) g] by (simp add: ident_def)
    then show "file_at w' (t_ConfigPath (tun m i)) = None"
      using rm r by (auto simp: remove_file_def file_at_delete split: option.splits)
  qed (use nm m' in simp)
qed

text \<open>
  C34. A successful delete removes exactly one tunnel, the first of that name, from the list, keeps
  the order of the others, removes the configuration file and leaves the lookup of every other name
  as it was; when names are unique the deleted name is no longer found.
\<close>

theorem Delete_result:
  assumes "wf_static E m" and d: "Delete E w m n = (Ok (), m', w')"
  shows "\<exists>i us vs. GetTunnel m n = Some i \<and> m_tunnels m = us @ i # vs \<and> m_tunnels m' = us @ vs
    \<and> (\<forall>u\<in>set us. t_Name (tun m u) \<noteq> n)
    \<and> file_at w' (t_ConfigPath (tun m i)) = None
    \<and> (\<forall>k. k \<noteq> n \<longrightarrow> GetTunnel m' k = GetTunnel m k)
    \<and> (distinct (map (\<lambda>j. t_Name (tun m j)) (m_tunnels m)) \<longrightarrow> GetTunnel m' n = None)"
proof -
  obtain i where g: "GetTunnel m n = Some i" and rf: "m_tunnels m' = remove_first (\<lambda>j. t_Name (tun m j) = n) (m_tunnels m)"
    and nm: "\<And>j. j \<in> set (m_tunnels m) \<Longrightarrow> t_Name (tun m' j) = t_Name (tun m j)"
    and gone: "file_at w' (t_ConfigPath (tun m i)) = None"
    using Delete_steps [OF assms] by blast
  have nm': "t_Name (tun m' j) = t_Name (tun m j)" if "j \<in> set (m_tunnels m')" for j
    using that nm rf set_remove_first_subset by (metis subsetD)
  have get': "GetTunnel m' k = find (\<lambda>j. t_Name (tun m j) = k) (m_tunnels m')" for k
    unfolding GetTunnel_def by (rule find_cong) (simp_all add: nm')
  from remove_first_split [OF g [unfolded GetTunnel_def]] obtain us vs where
    sp: "m_tunnels m = us @ i # vs" "\<forall>u\<in>set us. t_Name (tun m u) \<noteq> n"
      "remove_first (\<lambda>j. t_Name (tun m j) = n) (m_tunnels m) = us @ vs" by blast
  have "GetTunnel m' k = GetTunnel m k" if "k \<noteq> n" for k
  proof -
    have "find (\<lambda>j. t_Name (tun m j) = k) (m_tunnels m') = find (\<lambda>j. t_Name (tun m j) = k) (m_tunnels m)"
      unfolding rf by (rule find_remove_first_other) (use that in auto)
    then show ?thesis using get' by (simp add: GetTunnel_def)
  qed
  moreover have "GetTunnel m' n = None" if "distinct (map (\<lambda>j. t_Name (tun m j)) (m_tunnels m))"
    unfolding get' rf by (rule find_remove_first_same [OF that])
  ultimately show ?thesis using g sp rf gone by auto
qed

theorem Delete_result_witness:
  "\<exists>m' w'. Delete calm_env (snd (demo calm_env)) (fst (demo calm_env)) ''a'' = (Ok (), m', w')
     \<and> (\<exists>i us vs. m_tunnels (fst (demo calm_env)) = us @ i # vs \<and> m_tunnels m' = us @ vs)"
proof -
  let ?d = "Delete calm_env (snd (demo calm_env)) (fst (demo calm_env)) ''a''"
  have o: "ok_value (fst ?d) \<noteq> None" by code_simp
  obtain r m' w' where d': "?d = (r, m', w')" by (metis prod.exhaust_sel)
  have "r = Ok ()" using o unfolding d' by (cases r) simp_all
  then have d: "?d = (Ok (), m', w')" using d' by simp
  from Delete_result [OF demo_calm(1) d] obtain i us vs where
    "m_tunnels (fst (demo calm_env)) = us @ i # vs" "m_tunnels m' = us @ vs" by (elim exE conjE)
  then show ?thesis by (intro exI [of _ m'] exI [of _ w'] conjI) (rule d, intro exI conjI)
qed


section \<open>Imported configurations\<close>

lemma dirs_calls [simp]:
  "dirs (snd (write_file E w p s)) = dirs w" "dirs (snd (remove_file E w p)) = dirs w"
  "dirs (snd (create_temp E w p)) = dirs w" "dirs (snd (spawn E w argv)) = dirs w"
  "dirs (snd (now E w)) = dirs w"
  by (auto simp: write_file_def remove_file_def create_temp_def spawn_def now_def Let_def
        split: option.splits sum.splits)

lemma dirs_generate [simp]: "dirs (snd (generateWireproxyConfig E w t)) = dirs w"
proof -
  have "dirs w' = dirs w0" if "read_file E w0 p = (r, w')" for w0 p r w'
    using snd_read_file [of E w0 p] that by auto
  moreover have "dirs w' = dirs w0" if "create_temp E w0 p = (r, w')" for w0 p r w'
    using dirs_calls(3) [of E w0 p] that by simp
  moreover have "dirs w' = dirs w0" if "write_file E w0 p x = (r, w')" for w0 p x r w'
    using dirs_calls(1) [of E w0 p x] that by simp
  ultimately show ?thesis
    unfolding generateWireproxyConfig_def
    by (auto simp: Let_def split: res.splits prod.splits option.splits)
qed

lemma dirs_startTunnel [simp]: "dirs (snd (startTunnel E w m i)) = dirs w"
proof -
  have g: "dirs w1 = dirs w" if "generateWireproxyConfig E w t = (r, w1)" for t r w1
    using dirs_generate [of E w t] that by simp
  have sp: "dirs w' = dirs w0" if "spawn E w0 a = (r, w')" for w0 a r w'
    using dirs_calls(4) [of E w0 a] that by simp
  have nw: "dirs w' = dirs w0" if "now E w0 = (r, w')" for w0 r w'
    using dirs_calls(5) [of E w0] that by simp
  show ?thesis
    unfolding startTunnel_def
    by (auto simp: Let_def split: res.splits sum.splits prod.splits dest!: g sp nw)
qed

lemma load_entries_keeps:
  "i \<in> set (m_tunnels m) \<Longrightarrow> i < length (m_heap m) \<Longrightarrow>
     i \<in> set (m_tunnels (load_entries E m es)) \<and> tun (load_entries E m es) i = tun m i"
  by (induction E m es rule: load_entries.induct) (auto simp: add_tunnel_def nth_append)

lemma load_entries_finds:
  assumes "(n @ ''.conf'', False) \<in> set es"
  shows "\<exists>i\<in>set (m_tunnels (load_entries E m es)). t_Name (tun (load_entries E m es) i) = n"
  using assms
proof (induction E m es rule: load_entries.induct)
  case (1 E m)
  then show ?case by simp
next
  case (2 E m name isDir es)
  show ?case
  proof (cases "(name, isDir) = (n @ ''.conf'', False)")
    case True
    let ?m1 = "add_tunnel E m n (path_join (m_configDir m) name)"
    have "length (m_heap m) \<in> set (m_tunnels ?m1)" "length (m_heap m) < length (m_heap ?m1)"
      "t_Name (tun ?m1 (length (m_heap m))) = n"
      by (simp_all add: add_tunnel_def new_tunnel_def)
    with load_entries_keeps [of "length (m_heap m)" ?m1 E es] True show ?thesis
      by (auto intro!: bexI [of _ "length (m_heap m)"])
  next
    case False
    with 2 show ?thesis by auto
  qed
qed

lemma load_entries_dir [simp]: "m_configDir (load_entries E m es) = m_configDir m"
  by (induction E m es rule: load_entries.induct) simp_all

lemma set_map_filter: "set (List.map_filter f xs) = {y. \<exists>x\<in>set xs. f x = Some y}"
  by (force simp: List.map_filter_def)

text \<open>
  C32. An imported configuration survives a restart of the program: after a successful import under a
  name without a slash, the file holds the imported bytes, and a new manager that loads the same
  directory has a tunnel of that name on that file.
\<close>

theorem import_survives_restart:
  assumes "ImportConfig E w m n c = (Ok m', w')"
    and d: "clean_dir (m_configDir m)" "m_configDir m \<in> set (dirs w)" "CHR ''/'' \<notin> set n"
    and E': "dir_fault E' (tick w') (m_configDir m) = None" "in_s64 base"
  shows "file_at w' (m_configDir m @ ''/'' @ n @ ''.conf'') = Some c
    \<and> (\<exists>m2 w2 i. LoadConfigs E' w' (NewManager (m_configDir m) base) = (Ok m2, w2)
         \<and> GetTunnel m2 n = Some i
         \<and> t_ConfigPath (tun m2 i) = m_configDir m @ ''/'' @ n @ ''.conf'')"
proof -
  let ?d = "m_configDir m"
  let ?p = "?d @ ''/'' @ n @ ''.conf''"
  have pl: "plain_elem (n @ ''.conf'')" by (rule plain_elem_conf [OF d(3)])
  have p: "path_join ?d (n @ ''.conf'') = ?p" "path_clean ?p = ?p"
    using path_join_child [OF d(1) pl] path_clean_child [OF d(1) pl] by simp_all
  obtain w1 where wr: "write_file E w ?p c = (None, w1)"
    and st: "w' = snd (startTunnel E w1 (add_tunnel E m n ?p) (length (m_heap m)))"
    using assms(1) p(1)
    by (auto simp: ImportConfig_def Let_def split: prod.splits option.splits)
  have f: "file_at w' ?p = Some c"
    using write_file_ok [OF wr] startTunnel_frame st by blast
  have "dirs w1 = dirs w" using arg_cong [OF wr, of "\<lambda>x. dirs (snd x)"] by simp
  then have dr: "?d \<in> set (dirs w')" using st d(2) by simp
  have "map_of (files w') ?p = Some c" using f p(2) by (simp add: file_at_def)
  then have "?p \<in> fst ` set (files w')" by (metis domI dom_map_of_conv_image_fst)
  moreover have "entry_of ?d ?p = Some (n @ ''.conf'')"
    using entry_of_join [of "n @ ''.conf''" ?d] d(3) by simp
  ultimately have e: "n @ ''.conf'' \<in> set (List.map_filter (entry_of ?d) (map fst (files w')))"
    by (force simp: set_map_filter)
  have cd: "path_clean ?d = ?d" using d(1) by (simp add: clean_dir_def)
  obtain es where es: "read_dir E' w' ?d = (Ok es, tock w')" "(n @ ''.conf'', False) \<in> set es"
    using E'(1) dr e cd by (auto simp: read_dir_def)
  let ?m2 = "load_entries E' (NewManager ?d base) es"
  have wf: "wf_static E' ?m2" by (rule wf_static_load_entries [OF wf_static_NewManager [OF E'(2)]])
  have "LoadConfigs E' w' (NewManager ?d base) = (Ok ?m2, tock w')"
    using es(1) by (simp add: LoadConfigs_def NewManager_def)
  moreover obtain i where g: "GetTunnel ?m2 n = Some i"
    using load_entries_finds [OF es(2)] unfolding GetTunnel_def
    by (metis (mono_tags, lifting) find_None_iff not_None_eq)
  moreover have "t_ConfigPath (tun ?m2 i) = ?p"
    using wf_static_GetTunnel [OF wf g] wf p(1) by (auto simp: wf_static_def NewManager_def)
  ultimately show ?thesis using f by blast
qed

theorem import_survives_restart_witness:
  "\<exists>m' w'. ImportConfig calm_env empty_world (NewManager ''/c'' 10001) ''us-east'' ''x'' = (Ok m', w')
     \<and> file_at w' ''/c/us-east.conf'' = Some ''x''"
proof -
  let ?i = "ImportConfig calm_env empty_world (NewManager ''/c'' 10001) ''us-east'' ''x''"
  have o: "ok_value (fst ?i) \<noteq> None" by code_simp
  obtain r w' where r: "?i = (r, w')" by fastforce
  have "\<exists>m'. r = Ok m'" using o unfolding r by (cases r) simp_all
  then obtain m' where i: "?i = (Ok m', w')" using r by auto
  have "clean_dir ''/c''" by code_simp
  then have c: "clean_dir (m_configDir (NewManager ''/c'' 10001))" by (simp add: NewManager_def)
  from import_survives_restart [OF i c, of calm_env 10001] i show ?thesis
    by (auto simp: empty_world_def NewManager_def calm_env_def in_s64_def)
qed


text \<open>
  Imports do not check for a name that is already taken: a second import under the same name
  succeeds, appends a second tunnel for the same file on another port, and leaves the lookup by name
  on the first one, so the second tunnel is out of reach of restart, disconnect and delete.
\<close>

theorem duplicate_import_is_shadowed:
  assumes "wf_static E m" and g: "GetTunnel m n = Some i"
    and imp: "ImportConfig E w m n c = (Ok m', w')" and "length (m_heap m) < 2 ^ 64"
  shows "GetTunnel m' n = Some i \<and> m_tunnels m' = m_tunnels m @ [length (m_heap m)]
    \<and> i \<noteq> length (m_heap m) \<and> t_Name (tun m' (length (m_heap m))) = n
    \<and> t_ConfigPath (tun m' (length (m_heap m))) = t_ConfigPath (tun m' i)
    \<and> t_ProxyPort (tun m' (length (m_heap m))) \<noteq> t_ProxyPort (tun m' i)"
proof -
  let ?p = "path_join (m_configDir m) (n @ ''.conf'')" and ?k = "length (m_heap m)"
  let ?a = "add_tunnel E m n ?p"
  obtain w1 where st: "startTunnel E w1 ?a ?k = (m', w')"
    using imp by (auto simp: ImportConfig_def Let_def split: prod.splits option.splits)
  have sm: "static m' = static ?a" using static_startTunnel [of E w1 ?a ?k] st by simp
  have wfa: "wf_static E ?a" by (rule wf_static_add_tunnel [OF assms(1)]) simp
  then have wf': "wf_static E m'" using sm by (rule wf_static_transfer [rotated])
  have i: "i < ?k" using wf_static_GetTunnel [OF assms(1) g] by simp
  have ni: "t_Name (tun m i) = n" using wf_static_GetTunnel [OF assms(1) g] by simp
  have tu: "m_tunnels m' = m_tunnels m @ [?k]" using sm by (simp add: static_def add_tunnel_def)
  have len: "length (m_heap m') = Suc ?k" using static_length [OF sm] by (simp add: add_tunnel_def)
  have names: "t_Name (tun m' j) = t_Name (tun ?a j)" if "j < Suc ?k" for j
    using static_ident [OF sm, of j] that by (simp add: ident_def add_tunnel_def)
  have nk: "t_Name (tun m' ?k) = n" "t_Name (tun m' i) = n"
    using names [of ?k] names [of i] i ni by (simp_all add: add_tunnel_def new_tunnel_def nth_append)
  have "GetTunnel ?a n = Some i"
  proof -
    have "find (\<lambda>j. t_Name (tun ?a j) = n) (m_tunnels m) = find (\<lambda>j. t_Name (tun m j) = n) (m_tunnels m)"
      by (rule find_cong) (use assms(1) in \<open>auto simp: wf_static_def add_tunnel_def nth_append\<close>)
    then show ?thesis using g by (simp add: GetTunnel_def add_tunnel_def find_append)
  qed
  then have "GetTunnel m' n = Some i"
    using GetTunnel_static [OF sm] wfa by (simp add: wf_static_def)
  moreover have "t_ConfigPath (tun m' j) = path_join (m_configDir m') (t_Name (tun m' j) @ ''.conf'')
      \<and> t_ProxyPort (tun m' j) = s64 (m_basePort m' + int j)" if "j < Suc ?k" for j
    using wf' len that by (simp add: wf_static_def)
  moreover have "s64 (m_basePort m' + int ?k) \<noteq> s64 (m_basePort m' + int i)"
    using s64_inj [of "m_basePort m'" ?k i] i assms(4) by auto
  ultimately show ?thesis using tu nk i by simp
qed

theorem duplicate_import_is_shadowed_witness:
  "\<exists>m' w'. ImportConfig calm_env (snd (demo calm_env)) (fst (demo calm_env)) ''a'' ''y'' = (Ok m', w')
     \<and> GetTunnel m' ''a'' = Some 0 \<and> t_Name (tun m' 1) = ''a''"
proof -
  let ?i = "ImportConfig calm_env (snd (demo calm_env)) (fst (demo calm_env)) ''a'' ''y''"
  have o: "ok_value (fst ?i) \<noteq> None" by code_simp
  obtain r w' where r: "?i = (r, w')" by fastforce
  have "\<exists>m'. r = Ok m'" using o unfolding r by (cases r) simp_all
  then obtain m' where i: "?i = (Ok m', w')" using r by auto
  have g: "GetTunnel (fst (demo calm_env)) ''a'' = Some 0" "length (m_heap (fst (demo calm_env))) = 1"
    by code_simp+
  from duplicate_import_is_shadowed [OF demo_calm(1) g(1) i] g(2) i show ?thesis by auto
qed

text \<open>
  The name of an import is not confined to the configuration directory: a name with \<^verbatim>\<open>..\<close>
  elements writes outside it. Importing \<^verbatim>\<open>../../etc/x\<close> into \<^verbatim>\<open>/srv/wg\<close> creates \<^verbatim>\<open>/etc/x.conf\<close>
  with the imported bytes, whatever the environment, as long as the write itself succeeds.
\<close>

theorem import_escapes_directory:
  assumes "ImportConfig E w m ''../../etc/x'' c = (Ok m', w')" and "m_configDir m = ''/srv/wg''"
  shows "file_at w' ''/etc/x.conf'' = Some c
    \<and> t_ConfigPath (tun m' (length (m_heap m))) = ''/etc/x.conf''"
proof -
  have p: "path_join ''/srv/wg'' (''../../etc/x'' @ ''.conf'') = ''/etc/x.conf''" by code_simp
  let ?a = "add_tunnel E m ''../../etc/x'' ''/etc/x.conf''"
  obtain w1 where wr: "write_file E w ''/etc/x.conf'' c = (None, w1)"
    and st: "startTunnel E w1 ?a (length (m_heap m)) = (m', w')"
    using assms p by (auto simp: ImportConfig_def Let_def split: prod.splits option.splits)
  have "file_at w' ''/etc/x.conf'' = Some c"
    using startTunnel_frame [OF write_file_ok [OF wr], of E ?a "length (m_heap m)"] st by simp
  moreover have sm: "static m' = static ?a"
    using static_startTunnel [of E w1 ?a "length (m_heap m)"] st by simp
  then have "ident (tun m' (length (m_heap m))) = ident (tun ?a (length (m_heap m)))"
    by (rule static_ident) (simp add: add_tunnel_def)
  ultimately show ?thesis by (simp add: ident_def add_tunnel_def new_tunnel_def)
qed

theorem import_escapes_directory_witness:
  "\<exists>m' w'. ImportConfig calm_env empty_world (NewManager ''/srv/wg'' 10001) ''../../etc/x'' ''y'' = (Ok m', w')
     \<and> file_at w' ''/etc/x.conf'' = Some ''y''"
proof -
  let ?i = "ImportConfig calm_env empty_world (NewManager ''/srv/wg'' 10001) ''../../etc/x'' ''y''"
  have o: "ok_value (fst ?i) \<noteq> None" by code_simp
  obtain r w' where r: "?i = (r, w')" by fastforce
  have "\<exists>m'. r = Ok m'" using o unfolding r by (cases r) simp_all
  then obtain m' where i: "?i = (Ok m', w')" using r by auto
  from import_escapes_directory [OF i] i show ?thesis by (auto simp: NewManager_def)
qed

section \<open>Process output\<close>

text \<open>Lines that fit are logged one by one; behind a longer line nothing is logged any more.\<close>

definition unlines :: "string list \<Rightarrow> string" where
  "unlines ls = concat (map (\<lambda>l. l @ [CHR 0x0A]) ls)"

lemma split_unlines: "\<forall>l\<in>set ls. CHR 0x0A \<notin> set l \<Longrightarrow> split_on (CHR 0x0A) (unlines ls @ s) = ls @ split_on (CHR 0x0A) s"
  by (induction ls) (simp_all add: unlines_def split_on_append)

lemma output_is_logged:
  assumes "\<forall>l\<in>set ls. CHR 0x0A \<notin> set l \<and> length l < 65536"
  shows "scan_lines (unlines ls) = map drop_cr ls"
proof -
  have t: "takeWhile (\<lambda>l. length l < 65536) ls = ls" using assms by simp
  show ?thesis using split_unlines [of ls "[]"] assms by (simp add: scan_lines_def t)
qed

lemma long_line_ends_log:
  assumes "\<forall>l\<in>set ls. CHR 0x0A \<notin> set l \<and> length l < 65536" and "CHR 0x0A \<notin> set long" and "65536 \<le> length long"
  shows "scan_lines (unlines ls @ long @ CHR 0x0A # rest) = map drop_cr ls"
proof -
  have "split_on (CHR 0x0A) (unlines ls @ long @ CHR 0x0A # rest) = ls @ long # split_on (CHR 0x0A) rest"
    using split_unlines [of ls] assms split_on_append [of "CHR 0x0A" long rest] by simp
  then show ?thesis
    using assms by (simp add: scan_lines_def Let_def butlast_append takeWhile_append2)
qed

end
