(* ===== verification/Config.thy ===== *)
theory Config
  imports Go_Strings
begin

text \<open>
  Configuration from environment variables, \<^verbatim>\<open>internal/config/config.go\<close>. The environment is a
  function from names to values; a variable that is not set reads as the empty string, as
  \<^verbatim>\<open>os.Getenv\<close> has it. Durations go through \<^verbatim>\<open>time.ParseDuration\<close>, which is modelled here with
  its overflow checks; only the product of a decimal fraction and a unit, which Go computes in IEEE
  double precision, is a parameter (\<open>fmul f unit k\<close> for the fraction \<open>f / 10 ^ k\<close>).
\<close>

section \<open>Durations\<close>

definition leadingInt :: "string \<Rightarrow> (nat \<times> string) option" where
  "leadingInt s =
     (let ds = takeWhile is_digit s in
      if \<exists>i\<in>{..<length ds}. 2 ^ 63 div 10 < read_nat (take i ds) \<or> 2 ^ 63 < read_nat (take (Suc i) ds)
      then None else Some (read_nat ds, dropWhile is_digit s))"

text \<open>
  \<^verbatim>\<open>leadingFraction\<close> returns the digits' value, the number of digits that count, and the rest; digits
  that would overflow are skipped.
\<close>

fun frac_digits :: "nat \<Rightarrow> nat \<Rightarrow> bool \<Rightarrow> string \<Rightarrow> nat \<times> nat" where
  "frac_digits x k overflow [] = (x, k)"
| "frac_digits x k overflow (c # cs) =
     (if overflow then frac_digits x k True cs
      else if (2 ^ 63 - 1) div 10 < x then frac_digits x k True cs
      else if 2 ^ 63 < x * 10 + digit_val c then frac_digits x k True cs
      else frac_digits (x * 10 + digit_val c) (Suc k) False cs)"

definition leadingFraction :: "string \<Rightarrow> nat \<times> nat \<times> string" where
  "leadingFraction s =
     (case frac_digits 0 0 False (takeWhile is_digit s) of (x, k) \<Rightarrow> (x, k, dropWhile is_digit s))"

definition unitMap :: "(string \<times> nat) list" where
  "unitMap =
     [(''ns'', 1), (''us'', 1000), ([CHR 0xC2, CHR 0xB5, CHR ''s''], 1000),
      ([CHR 0xCE, CHR 0xBC, CHR ''s''], 1000), (''ms'', 1000000), (''s'', 1000000000),
      (''m'', 60000000000), (''h'', 3600000000000)]"

definition unit_char :: "char \<Rightarrow> bool" where
  "unit_char c \<longleftrightarrow> c \<noteq> CHR ''.'' \<and> \<not> is_digit c"

text \<open>The optional fraction: its digits' value, their number, the rest, and whether it had digits.\<close>

definition dur_frac :: "string \<Rightarrow> nat \<times> nat \<times> string \<times> bool" where
  "dur_frac s =
     (if s \<noteq> [] \<and> hd s = CHR ''.''
      then (case leadingFraction (tl s) of (f, k, r) \<Rightarrow> (f, k, r, length r \<noteq> length (tl s)))
      else (0, 0, s, False))"

text \<open>One round of the loop: a number with an optional fraction, then a unit.\<close>

definition dur_item :: "(nat \<Rightarrow> nat \<Rightarrow> nat \<Rightarrow> nat) \<Rightarrow> string \<Rightarrow> (nat \<times> string) option" where
  "dur_item fmul s =
     (if s = [] \<or> \<not> (hd s = CHR ''.'' \<or> is_digit (hd s)) then None
      else case leadingInt s of
        None \<Rightarrow> None
      | Some (v, s1) \<Rightarrow>
          (case dur_frac s1 of (f, k, s2, post) \<Rightarrow>
             if length s1 = length s \<and> \<not> post then None
             else (let u = takeWhile unit_char s2; s3 = dropWhile unit_char s2 in
                   if u = [] then None
                   else case map_of unitMap u of
                       None \<Rightarrow> None
                     | Some scale \<Rightarrow>
                         if 2 ^ 63 div scale < v then None
                         else (let v1 = v * scale;
                                   v2 = (if 0 < f then (v1 + fmul f scale k) mod 2 ^ 64 else v1)
                               in if 0 < f \<and> 2 ^ 63 < v2 then None else Some (v2, s3)))))"

lemma leadingInt_rest: "leadingInt s = Some (v, r) \<Longrightarrow> r = dropWhile is_digit s"
  by (auto simp: leadingInt_def Let_def split: if_splits)

lemma dur_frac_rest: "dur_frac s = (f, k, r, p) \<Longrightarrow> length r \<le> length s"
proof (cases s)
  case (Cons c cs)
  moreover assume "dur_frac s = (f, k, r, p)"
  ultimately show ?thesis
    using length_dropWhile_le [of is_digit cs]
    by (auto simp: dur_frac_def leadingFraction_def split: if_splits prod.splits)
qed (simp add: dur_frac_def)

lemma dur_item_shorter: "dur_item fmul s = Some (v, r) \<Longrightarrow> length r < length s"
proof -
  assume a: "dur_item fmul s = Some (v, r)"
  then obtain x s1 f k s2 post where li: "leadingInt s = Some (x, s1)"
    and fr: "dur_frac s1 = (f, k, s2, post)"
    and u: "takeWhile unit_char s2 \<noteq> []" "r = dropWhile unit_char s2"
    by (auto simp: dur_item_def Let_def split: if_splits option.splits prod.splits)
  have "s2 = takeWhile unit_char s2 @ r" using u(2) by simp
  then have "length r < length s2"
    using u(1) by (metis length_append less_add_same_cancel2 length_greater_0_conv)
  also have "length s2 \<le> length s1" using dur_frac_rest [OF fr] .
  also have "length s1 \<le> length s"
    using leadingInt_rest [OF li] by (simp add: length_dropWhile_le)
  finally show ?thesis .
qed

function dur_loop :: "(nat \<Rightarrow> nat \<Rightarrow> nat \<Rightarrow> nat) \<Rightarrow> nat \<Rightarrow> string \<Rightarrow> nat option" where
  "dur_loop fmul d s =
     (if s = [] then Some d
      else case dur_item fmul s of
        None \<Rightarrow> None
      | Some (v, r) \<Rightarrow>
          (let d' = (d + v) mod 2 ^ 64 in if 2 ^ 63 < d' then None else dur_loop fmul d' r))"
  by pat_completeness auto
termination
  by (relation "measure (\<lambda>(fmul, d, s). length s)") (auto dest: dur_item_shorter)

declare dur_loop.simps [simp del]

definition ParseDuration :: "(nat \<Rightarrow> nat \<Rightarrow> nat \<Rightarrow> nat) \<Rightarrow> string \<Rightarrow> int option" where
  "ParseDuration fmul str =
     (let signed = (str \<noteq> [] \<and> (hd str = CHR ''-'' \<or> hd str = CHR ''+''));
          neg = (signed \<and> hd str = CHR ''-'');
          s = (if signed then tl str else str)
      in if s = ''0'' then Some 0
         else if s = [] then None
         else case dur_loop fmul 0 s of
             None \<Rightarrow> None
           | Some d \<Rightarrow>
               if neg then Some (s64 (- s64 (int d)))
               else if 2 ^ 63 - 1 < d then None else Some (int d))"

section \<open>The configuration\<close>

record config =
  c_ConfigDir :: string
  c_ProxyAddr :: string
  c_AdminAddr :: string
  c_BasePort :: int
  c_HealthInterval :: int
  c_HealthTimeout :: int
  c_HealthURL :: string
  c_ProxyUser :: string
  c_ProxyPass :: string
  c_CountryPortBase :: int
  c_WGServerEnabled :: bool
  c_WGServerPort :: int
  c_WGServerAddr :: string
  c_WGServerSubnet :: string
  c_WGServerDNS :: string

type_synonym getenv = "string \<Rightarrow> string"

definition envOrDefault :: "getenv \<Rightarrow> string \<Rightarrow> string \<Rightarrow> string" where
  "envOrDefault g key def = (if g key \<noteq> [] then g key else def)"

text \<open>
  The loop runs over the runes of the value; the digits are single bytes in UTF-8 and no byte of a
  longer rune is a digit, so a loop over the bytes adds the same digits.
\<close>

fun int_digits :: "int \<Rightarrow> string \<Rightarrow> int" where
  "int_digits n [] = n"
| "int_digits n (c # cs) =
     (if is_digit c then int_digits (s64 (n * 10 + int (digit_val c))) cs else int_digits n cs)"

definition envOrDefaultInt :: "getenv \<Rightarrow> string \<Rightarrow> int \<Rightarrow> int" where
  "envOrDefaultInt g key def =
     (let v = g key in
      if v = [] then def
      else (let n = int_digits 0 v in if n = 0 then def else n))"

definition envOrDefaultDuration ::
    "(nat \<Rightarrow> nat \<Rightarrow> nat \<Rightarrow> nat) \<Rightarrow> getenv \<Rightarrow> string \<Rightarrow> int \<Rightarrow> int" where
  "envOrDefaultDuration fmul g key def =
     (let v = g key in
      if v = [] then def else (case ParseDuration fmul v of None \<Rightarrow> def | Some d \<Rightarrow> d))"

definition envOrDefaultBool :: "getenv \<Rightarrow> string \<Rightarrow> bool \<Rightarrow> bool" where
  "envOrDefaultBool g key def =
     (let v = g key in
      if v = [] then def
      else if v \<in> {''1'', ''true'', ''yes'', ''on''} then True
      else if v \<in> {''0'', ''false'', ''no'', ''off''} then False
      else def)"

definition second :: int where
  "second = 1000000000"

definition Load :: "(nat \<Rightarrow> nat \<Rightarrow> nat \<Rightarrow> nat) \<Rightarrow> getenv \<Rightarrow> config" where
  "Load fmul g =
     \<lparr>c_ConfigDir = envOrDefault g ''WG_CONFIG_DIR'' ''/etc/wg-proxy/configs'',
      c_ProxyAddr = envOrDefault g ''WG_PROXY_ADDR'' '':1080'',
      c_AdminAddr = envOrDefault g ''WG_ADMIN_ADDR'' '':8080'',
      c_BasePort = envOrDefaultInt g ''WG_BASE_PORT'' 10001,
      c_HealthInterval = envOrDefaultDuration fmul g ''WG_HEALTH_INTERVAL'' (10 * second),
      c_HealthTimeout = envOrDefaultDuration fmul g ''WG_HEALTH_TIMEOUT'' (5 * second),
      c_HealthURL = envOrDefault g ''WG_HEALTH_URL'' [],
      c_ProxyUser = envOrDefault g ''WG_PROXY_USER'' [],
      c_ProxyPass = envOrDefault g ''WG_PROXY_PASS'' [],
      c_CountryPortBase = envOrDefaultInt g ''WG_COUNTRY_PORT_BASE'' 1081,
      c_WGServerEnabled = envOrDefaultBool g ''WG_SERVER_ENABLED'' True,
      c_WGServerPort = envOrDefaultInt g ''WG_SERVER_PORT'' 51820,
      c_WGServerAddr = envOrDefault g ''WG_SERVER_ADDR'' [],
      c_WGServerSubnet = envOrDefault g ''WG_SERVER_SUBNET'' ''10.100.0.0/24'',
      c_WGServerDNS = envOrDefault g ''WG_SERVER_DNS'' ''1.1.1.1''\<rparr>"

section \<open>Integers\<close>

text \<open>Wrapping once at the end gives the same as wrapping after every digit.\<close>

lemma s64_cong: "x mod 2 ^ 64 = y mod 2 ^ 64 \<Longrightarrow> s64 x = s64 y"
  unfolding s64_def by (metis mod_add_cong)

lemma s64_mod: "s64 x mod 2 ^ 64 = x mod 2 ^ 64"
proof -
  have "s64 x mod 2 ^ 64 = (x + 2 ^ 63 - 2 ^ 63) mod 2 ^ 64"
    unfolding s64_def by (rule mod_diff_left_eq)
  then show ?thesis by simp
qed

lemma s64_step: "s64 (s64 x * 10 + d) = s64 (x * 10 + d)"
  by (rule s64_cong) (metis s64_mod mod_add_left_eq mod_mult_left_eq)

lemma int_digits_wrap:
  "int_digits (s64 (int n)) s = s64 (int (foldl dec_step n (filter is_digit s)))"
proof (induction s arbitrary: n)
  case Nil
  then show ?case by simp
next
  case (Cons c cs)
  have "s64 (s64 (int n) * 10 + int (digit_val c)) = s64 (int (dec_step n c))"
    by (simp add: s64_step dec_step_def)
  with Cons show ?case by simp
qed

text \<open>
  An integer setting is the number made of all the digits of the variable's value, in order and
  wrapped to 64 bits, whatever else the value holds (so a sign is ignored), and the default exactly
  when that number is zero.
\<close>

theorem envOrDefaultInt_value:
  "envOrDefaultInt g key def =
     (let n = s64 (int (read_nat (filter is_digit (g key)))) in if n = 0 then def else n)"
proof -
  have "int_digits 0 (g key) = s64 (int (read_nat (filter is_digit (g key))))"
    using int_digits_wrap [of 0 "g key"] by (simp add: read_nat_def in_s64_def)
  then show ?thesis
    by (simp add: envOrDefaultInt_def Let_def read_nat_def in_s64_def)
qed

section \<open>Durations in one unit\<close>

lemma read_nat_take_le: "read_nat (take i s) \<le> read_nat s"
proof -
  note foldl_dec_mono
  then show ?thesis
    unfolding read_nat_def by (metis append_take_drop_id foldl_append)
qed

lemma read_nat_take_Suc:
  "i < length s \<Longrightarrow> read_nat (take i s) * 10 \<le> read_nat (take (Suc i) s)"
  by (simp add: take_Suc_conv_app_nth read_nat_snoc)

lemma leadingInt_show_nat:
  assumes "n < 2 ^ 63" and "r = [] \<or> \<not> is_digit (hd r)"
  shows "leadingInt (show_nat n @ r) = Some (n, r)"
proof -
  let ?s = "show_nat n"
  have dg: "\<forall>c\<in>set ?s. is_digit c" using show_nat_digits by blast
  have tw: "takeWhile is_digit r = []" "dropWhile is_digit r = r"
    using assms(2) by (cases r; simp)+
  have t: "takeWhile is_digit (?s @ r) = ?s" "dropWhile is_digit (?s @ r) = r"
    using dg tw by (simp_all add: takeWhile_append2 dropWhile_append2)
  have "\<not> 2 ^ 63 div 10 < read_nat (take i ?s) \<and> \<not> 2 ^ 63 < read_nat (take (Suc i) ?s)"
    if "i < length ?s" for i
  proof -
    have "read_nat (take (Suc i) ?s) \<le> n" using read_nat_take_le [of "Suc i" ?s] by simp
    with assms(1) read_nat_take_Suc [OF that] show ?thesis by simp
  qed
  then show ?thesis by (simp add: leadingInt_def t Let_def)
qed

lemma unitMap_units:
  "map_of unitMap u = Some k \<Longrightarrow> 0 < k \<and> u \<noteq> [] \<and> (\<forall>c\<in>set u. unit_char c)"
  by (auto simp: unitMap_def unit_char_def is_digit_def split: if_splits)

text \<open>
  A duration written as a decimal number and a unit is read as that many units, for every unit
  of Go and every number that fits in 64 bits.
\<close>

theorem ParseDuration_unit:
  assumes "map_of unitMap u = Some k" and "n * k < 2 ^ 63"
  shows "ParseDuration fmul (show_nat n @ u) = Some (int (n * k))"
proof -
  have u: "0 < k" "u \<noteq> []" "\<forall>c\<in>set u. unit_char c" using unitMap_units [OF assms(1)] by auto
  have hu: "hd u \<noteq> CHR ''.''" "\<not> is_digit (hd u)"
    using u(2,3) by (auto simp: unit_char_def)
  obtain c cs where s: "show_nat n = c # cs" by (cases "show_nat n") auto
  then have c: "is_digit c" using show_nat_digits [of c n] by simp
  have "n \<le> n * k" using u(1) by simp
  then have n: "n < 2 ^ 63" using assms(2) by linarith
  have nk: "\<not> 2 ^ 63 div k < n"
    using assms(2) u(1) by (metis less_eq_div_iff_mult_less_eq less_imp_le not_less)
  have li: "leadingInt (c # cs @ u) = Some (n, u)"
    using leadingInt_show_nat [OF n, of u] hu(2) s by simp
  have "dur_item fmul (c # cs @ u) = Some (n * k, [])"
    using c li hu u nk assms(1)
    by (simp add: dur_item_def dur_frac_def Let_def takeWhile_eq_all_conv [THEN iffD2])
  then have "dur_loop fmul 0 (c # cs @ u) = Some (n * k)"
    using assms(2) dur_loop.simps [of fmul 0 "c # cs @ u"] dur_loop.simps [of fmul "n * k" "[]"]
    by (simp add: Let_def)
  moreover have "c \<noteq> CHR ''-''" "c \<noteq> CHR ''+''" using c by (auto simp: is_digit_def)
  moreover have "c # cs @ u \<noteq> ''0''" using u(2) by simp
  ultimately show ?thesis
    using assms(2) s u(2) by (simp add: ParseDuration_def Let_def)
qed

theorem ParseDuration_unit_witness:
  "ParseDuration (\<lambda>_ _ _. 0) (show_nat 90 @ ''m'') = Some (int (90 * 60000000000))"
  by (rule ParseDuration_unit) (simp_all add: unitMap_def)

end
