(* ===== verification/Conn.thy ===== *)
theory Conn
  imports Prelude
begin

text \<open>
  Connections as the program sees them through \<^verbatim>\<open>net.Conn\<close>, \<^verbatim>\<open>io.ReadFull\<close> and \<^verbatim>\<open>io.Copy\<close>. What
  will arrive on a connection is a list of events: chunks, whose boundaries are the network's choice,
  and failing reads (a deadline that passes); after the list the peer has closed. Writing succeeds
  until an optional quota of bytes is used up and fails from then on. Every theorem is about all
  event lists and quotas.
\<close>

datatype arrival = Chunk "byte list" | Fault

record conn =
  rx :: "arrival list"
  tx :: "byte list"
  quota :: "nat option"
  is_open :: bool

section \<open>Operations\<close>

text \<open>\<^verbatim>\<open>Read\<close> into a buffer of \<open>n\<close> bytes: at most one chunk, \<open>None\<close> for an error.\<close>

definition conn_read :: "conn \<Rightarrow> nat \<Rightarrow> byte list option \<times> conn" where
  "conn_read c n =
     (if \<not> is_open c then (None, c)
      else case rx c of
        [] \<Rightarrow> (None, c)
      | Fault # as \<Rightarrow> (None, c\<lparr>rx := as\<rparr>)
      | Chunk bs # as \<Rightarrow>
          (Some (take n bs), c\<lparr>rx := (if length bs \<le> n then as else Chunk (drop n bs) # as)\<rparr>))"

text \<open>\<^verbatim>\<open>Write\<close>: the number of bytes written, and whether there was no error.\<close>

definition conn_write :: "conn \<Rightarrow> byte list \<Rightarrow> (nat \<times> bool) \<times> conn" where
  "conn_write c bs =
     (if \<not> is_open c then ((0, False), c)
      else case quota c of
        None \<Rightarrow> ((length bs, True), c\<lparr>tx := tx c @ bs\<rparr>)
      | Some q \<Rightarrow>
          ((min q (length bs), length bs \<le> q),
           c\<lparr>tx := tx c @ take q bs, quota := Some (q - length bs)\<rparr>))"

definition conn_close :: "conn \<Rightarrow> conn" where
  "conn_close c = c\<lparr>is_open := False\<rparr>"

abbreviation send :: "conn \<Rightarrow> byte list \<Rightarrow> conn" where
  "send c bs \<equiv> snd (conn_write c bs)"

fun rx_size :: "arrival list \<Rightarrow> nat" where
  "rx_size [] = 0"
| "rx_size (Fault # as) = Suc (rx_size as)"
| "rx_size (Chunk bs # as) = Suc (length bs + rx_size as)"

lemma conn_read_smaller:
  "conn_read c n = (Some bs, c') \<Longrightarrow> 0 < n \<Longrightarrow> rx_size (rx c') < rx_size (rx c)"
  by (auto simp: conn_read_def split: if_splits list.splits arrival.splits)

lemma conn_read_le: "conn_read c n = (Some bs, c') \<Longrightarrow> length bs \<le> n"
  by (auto simp: conn_read_def split: if_splits list.splits arrival.splits)

text \<open>\<^verbatim>\<open>io.ReadFull\<close>: the bytes read, whether the buffer was filled, and the connection.\<close>

function read_full :: "conn \<Rightarrow> nat \<Rightarrow> (byte list \<times> bool) \<times> conn" where
  "read_full c n =
     (if n = 0 then (([], True), c)
      else case conn_read c n of
        (None, c') \<Rightarrow> (([], False), c')
      | (Some bs, c') \<Rightarrow>
          (case read_full c' (n - length bs) of ((r, ok), c'') \<Rightarrow> ((bs @ r, ok), c'')))"
  by pat_completeness auto
termination
  by (relation "measure (\<lambda>(c, n). rx_size (rx c))") (auto dest: conn_read_smaller [OF sym])

declare read_full.simps [simp del]

text \<open>What a buffer of \<open>n\<close> zero bytes holds after \<open>bs\<close> was read into it.\<close>

definition zero_pad :: "nat \<Rightarrow> byte list \<Rightarrow> byte list" where
  "zero_pad n bs = take n (bs @ replicate n 0)"

text \<open>\<^verbatim>\<open>io.Copy(dst, src)\<close> with its 32 kB buffer: the count, then source and destination.\<close>

function copy_loop :: "conn \<Rightarrow> conn \<Rightarrow> nat \<Rightarrow> nat \<times> conn \<times> conn" where
  "copy_loop src dst n =
     (case conn_read src 32768 of
        (None, src') \<Rightarrow> (n, src', dst)
      | (Some bs, src') \<Rightarrow>
          if bs = [] then copy_loop src' dst n
          else (case conn_write dst bs of
                  ((k, ok), dst') \<Rightarrow>
                    if ok then copy_loop src' dst' (n + k) else (n + k, src', dst')))"
  by pat_completeness auto
termination
  by (relation "measure (\<lambda>(src, dst, n). rx_size (rx src))") (auto dest: conn_read_smaller [OF sym])

declare copy_loop.simps [simp del]

definition io_copy :: "conn \<Rightarrow> conn \<Rightarrow> nat \<times> conn \<times> conn" where
  "io_copy dst src = copy_loop src dst 0"

section \<open>The byte stream behind the chunks\<close>

text \<open>The bytes that can be read before the next failing read.\<close>

fun stream_of :: "arrival list \<Rightarrow> byte list" where
  "stream_of [] = []"
| "stream_of (Fault # as) = []"
| "stream_of (Chunk bs # as) = bs @ stream_of as"

definition avail :: "conn \<Rightarrow> byte list" where
  "avail c = (if is_open c then stream_of (rx c) else [])"

lemma conn_read_avail:
  "conn_read c n = (Some bs, c') \<Longrightarrow> avail c = bs @ avail c' \<and> tx c' = tx c \<and> quota c' = quota c
     \<and> is_open c' = is_open c"
  by (auto simp: conn_read_def avail_def split: if_splits list.splits arrival.splits)

lemma conn_read_None:
  "conn_read c n = (None, c') \<Longrightarrow> avail c = [] \<and> tx c' = tx c \<and> quota c' = quota c
     \<and> is_open c' = is_open c"
  by (auto simp: conn_read_def avail_def split: if_splits list.splits arrival.splits)

text \<open>
  How the bytes are cut into chunks does not matter to \<^verbatim>\<open>io.ReadFull\<close>: it returns the first \<open>n\<close>
  bytes of the stream and leaves the rest.
\<close>

lemma read_full_avail:
  "read_full c n = ((bs, ok), c') \<Longrightarrow>
     bs = take n (avail c) \<and> (ok \<longleftrightarrow> n \<le> length (avail c)) \<and>
     (ok \<longrightarrow> avail c' = drop n (avail c)) \<and> tx c' = tx c \<and> quota c' = quota c
     \<and> is_open c' = is_open c"
proof (induction c n arbitrary: bs ok c' rule: read_full.induct)
  case (1 c n)
  show ?case
  proof (cases "n = 0")
    case True
    with "1.prems" show ?thesis by (simp add: read_full.simps [of c 0])
  next
    case False
    show ?thesis
    proof (cases "conn_read c n")
      case (Pair r c1)
      show ?thesis
      proof (cases r)
        case None
        with Pair False "1.prems" conn_read_None [of c n c1] show ?thesis
          by (auto simp: read_full.simps [of c n])
      next
        case (Some b)
        have rd: "conn_read c n = (Some b, c1)" using Pair Some by simp
        obtain r' ok' c2 where rf: "read_full c1 (n - length b) = ((r', ok'), c2)"
          by (metis prod.exhaust)
        have eq: "bs = b @ r'" "ok = ok'" "c' = c2"
          using "1.prems" False rd rf by (simp_all add: read_full.simps [of c n])
        have "length b \<le> n" by (rule conn_read_le [OF rd])
        then show ?thesis
          using "1.IH" [OF False Pair [symmetric] Some rf] conn_read_avail [OF rd] eq
          by auto
      qed
    qed
  qed
qed

lemma read_full_ok:
  assumes "n \<le> length (avail c)"
  obtains c' where "read_full c n = ((take n (avail c), True), c')" "avail c' = drop n (avail c)"
    "tx c' = tx c" "quota c' = quota c" "is_open c' = is_open c"
proof -
  obtain bs ok c' where "read_full c n = ((bs, ok), c')" by (metis prod.exhaust)
  with read_full_avail [OF this] assms that show ?thesis by simp
qed

lemma read_full_short:
  assumes "length (avail c) < n"
  obtains c' where "read_full c n = ((avail c, False), c')"
    "tx c' = tx c" "quota c' = quota c" "is_open c' = is_open c"
proof -
  obtain bs ok c' where "read_full c n = ((bs, ok), c')" by (metis prod.exhaust)
  with read_full_avail [OF this] assms that show ?thesis by simp
qed

text \<open>
  \<^verbatim>\<open>io.Copy\<close> moves the whole stream when the destination accepts it, and exactly the destination's
  quota otherwise; it never touches what the source sends or what arrives at the destination.
\<close>

lemma copy_loop_result:
  assumes "copy_loop src dst n = (m, src', dst')" and "is_open dst"
  defines "k \<equiv> (case quota dst of None \<Rightarrow> length (avail src) | Some q \<Rightarrow> min q (length (avail src)))"
  shows "m = n + k \<and> tx dst' = tx dst @ take k (avail src) \<and> rx dst' = rx dst
     \<and> is_open dst' \<and> tx src' = tx src \<and> quota src' = quota src \<and> is_open src' = is_open src"
  using assms(1,2) unfolding k_def
proof (induction src dst n arbitrary: m src' dst' rule: copy_loop.induct)
  case (1 src dst n)
  obtain r s1 where rd: "conn_read src 32768 = (r, s1)" by (metis prod.exhaust)
  show ?case
  proof (cases r)
    case None
    then show ?thesis
      using "1.prems" rd conn_read_None [of src 32768 s1]
      by (auto simp: copy_loop.simps [of src dst n] split: option.splits)
  next
    case (Some bs)
    have av: "avail src = bs @ avail s1" "tx s1 = tx src" "quota s1 = quota src"
      "is_open s1 = is_open src"
      using conn_read_avail [of src 32768 bs s1] rd Some by simp_all
    show ?thesis
    proof (cases "bs = []")
      case True
      then have "copy_loop s1 dst n = (m, src', dst')"
        using "1.prems"(1) rd Some by (simp add: copy_loop.simps [of src dst n])
      with "1.IH"(1) [OF rd [symmetric] Some True] "1.prems"(2) av True show ?thesis
        by (cases "quota dst") simp_all
    next
      case False
      obtain j ok d1 where wr: "conn_write dst bs = ((j, ok), d1)" by (metis prod.exhaust)
      show ?thesis
      proof (cases ok)
        case True
        have d1: "j = length bs" "tx d1 = tx dst @ bs" "rx d1 = rx dst" "is_open d1"
          "quota d1 = map_option (\<lambda>q. q - length bs) (quota dst)"
          "\<And>q. quota dst = Some q \<Longrightarrow> length bs \<le> q"
          using wr True "1.prems"(2)
          by (auto simp: conn_write_def split: option.splits)
        have "copy_loop s1 d1 (n + j) = (m, src', dst')"
          using "1.prems"(1) rd Some False wr True by (simp add: copy_loop.simps [of src dst n])
        from "1.IH"(2) [OF rd [symmetric] Some False wr [symmetric] refl True this] d1 av
        show ?thesis
          by (cases "quota dst") (auto simp: min_def)
      next
        case False': False
        then have "m = n + j" "src' = s1" "dst' = d1"
          using "1.prems"(1) rd Some False wr by (simp_all add: copy_loop.simps [of src dst n])
        then show ?thesis
          using wr False' "1.prems"(2) av
          by (auto simp: conn_write_def min_def split: option.splits)
      qed
    qed
  qed
qed

lemma copy_loop_keeps_src:
  assumes "copy_loop src dst n = (m, src', dst')"
  shows "tx src' = tx src" "quota src' = quota src" "is_open src' = is_open src"
proof -
  have "tx src' = tx src \<and> quota src' = quota src \<and> is_open src' = is_open src"
    using assms
  proof (induction src dst n arbitrary: m src' dst' rule: copy_loop.induct)
    case (1 src dst n)
    obtain r s1 where rd: "conn_read src 32768 = (r, s1)" by (metis prod.exhaust)
    have s1: "tx s1 = tx src \<and> quota s1 = quota src \<and> is_open s1 = is_open src"
      using conn_read_avail conn_read_None rd by (cases r) blast+
    show ?case
    proof (cases r)
      case None
      then show ?thesis using "1.prems" rd s1 by (simp add: copy_loop.simps [of src])
    next
      case (Some bs)
      obtain k ok d1 where w: "conn_write dst bs = ((k, ok), d1)" by (metis prod.exhaust)
      consider (empty) "bs = []" "copy_loop s1 dst n = (m, src', dst')"
        | (more) "bs \<noteq> []" "ok" "copy_loop s1 d1 (n + k) = (m, src', dst')"
        | (stop) "src' = s1"
        using "1.prems" rd Some w by (auto simp: copy_loop.simps [of src] split: if_splits)
      then show ?thesis
      proof cases
        case empty
        from "1.IH"(1) [OF rd [symmetric] Some empty] s1 show ?thesis by simp
      next
        case more
        from "1.IH"(2) [OF rd [symmetric] Some more(1) w [symmetric] refl more(2,3)] s1
        show ?thesis by simp
      qed (use s1 in simp)
    qed
  qed
  then show "tx src' = tx src" "quota src' = quota src" "is_open src' = is_open src" by blast+
qed

lemma io_copy_all:
  assumes "io_copy dst src = (m, src', dst')" and "is_open dst" and "quota dst = None"
  shows "m = length (avail src)" "tx dst' = tx dst @ avail src"
    "rx dst' = rx dst" "is_open dst'" "tx src' = tx src"
  using copy_loop_result [of src dst 0 m src' dst'] assms by (simp_all add: io_copy_def)

section \<open>Connections one writes to\<close>

lemma send_simps [simp]:
  "is_open (send c bs) = is_open c" "rx (send c bs) = rx c"
  by (simp_all add: conn_write_def split: option.splits)

lemma send_tx [simp]: "is_open c \<Longrightarrow> quota c = None \<Longrightarrow> tx (send c bs) = tx c @ bs"
  by (simp add: conn_write_def)

lemma send_quota [simp]: "quota c = None \<Longrightarrow> quota (send c bs) = None"
  by (simp add: conn_write_def)

lemma send_avail [simp]: "avail (send c bs) = avail c"
  by (simp add: avail_def)

lemma conn_write_unlimited:
  "is_open c \<Longrightarrow> quota c = None \<Longrightarrow> conn_write c bs = ((length bs, True), c\<lparr>tx := tx c @ bs\<rparr>)"
  by (simp add: conn_write_def)

lemma conn_close_simps [simp]:
  "is_open (conn_close c) = False" "tx (conn_close c) = tx c" "rx (conn_close c) = rx c"
  by (simp_all add: conn_close_def)

section \<open>Indexing and slicing with Go's bounds checks\<close>

definition go_idx :: "'a list \<Rightarrow> nat \<Rightarrow> ('e, 'a) res" where
  "go_idx xs i = (if i < length xs then Ok (xs ! i) else Panic ''index out of range'')"

definition go_slice :: "'a list \<Rightarrow> nat \<Rightarrow> nat \<Rightarrow> ('e, 'a list) res" where
  "go_slice xs i j =
     (if i \<le> j \<and> j \<le> length xs then Ok (take (j - i) (drop i xs))
      else Panic ''slice bounds out of range'')"

lemma go_idx_ok [simp]: "i < length xs \<Longrightarrow> go_idx xs i = Ok (xs ! i)"
  by (simp add: go_idx_def)

lemma go_slice_ok [simp]:
  "i \<le> j \<Longrightarrow> j \<le> length xs \<Longrightarrow> go_slice xs i j = Ok (take (j - i) (drop i xs))"
  by (simp add: go_slice_def)

end
