(* ===== verification/Round_Robin.thy ===== *)
theory Round_Robin
  imports Prelude "HOL-Library.Multiset"
begin

text \<open>
  The contract of a round-robin choice: a list of candidates and a 64-bit counter that selects one
  of them and moves on. The proxy's two backend pickers and the retry proxy's starting point are
  interpretations. \<open>limit\<close> bounds the counter values for which the contract holds.
\<close>

lemma mset_rotated: "mset (map (\<lambda>i. xs ! ((c + i) mod length xs)) [0..<length xs]) = mset xs"
proof -
  have "map (\<lambda>i. xs ! ((c + i) mod length xs)) [0..<length xs] = rotate c xs"
    by (rule nth_equalityI) (simp_all add: nth_rotate)
  also have "mset (rotate c xs) = mset (take (c mod length xs) xs @ drop (c mod length xs) xs)"
    by (simp only: rotate_drop_take mset_append add.commute)
  finally show ?thesis by (simp only: append_take_drop_id)
qed

lemma image_mset_rounds: "image_mset f (repeat_mset k M) = repeat_mset k (image_mset f M)"
  by (induction k) simp_all

lemma mset_rounds:
  "mset (map (\<lambda>i. xs ! ((c + i) mod length xs)) [0..<k * length xs]) = repeat_mset k (mset xs)"
proof (induction k)
  case 0
  then show ?case by simp
next
  case (Suc k)
  let ?f = "\<lambda>i. xs ! ((c + i) mod length xs)"
  have "[0..<Suc k * length xs] = [0..<k * length xs] @ [k * length xs..<k * length xs + length xs]"
    using upt_add_eq_append [of 0 "k * length xs" "length xs"] by (simp add: add.commute)
  also have "[k * length xs..<k * length xs + length xs] = map (\<lambda>i. i + k * length xs) [0..<length xs]"
    by (simp add: map_add_upt add.commute)
  finally have "mset (map ?f [0..<Suc k * length xs]) =
      mset (map ?f [0..<k * length xs]) + mset (map (\<lambda>i. ?f (i + k * length xs)) [0..<length xs])"
    by (simp add: comp_def)
  moreover have "map (\<lambda>i. ?f (i + k * length xs)) [0..<length xs] = map ?f [0..<length xs]"
    by (simp add: add.assoc [symmetric])
  ultimately show ?case using Suc mset_rotated [of xs c] by simp
qed

lemma repeat_mset_1: "repeat_mset (Suc 0) M = M"
  by simp

locale round_robin =
  fixes pick :: "'s \<Rightarrow> 'a option \<times> 's"
    and cands :: "'s \<Rightarrow> 'a list"
    and ctr :: "'s \<Rightarrow> u64"
    and limit :: nat
  assumes pick_none: "cands s = [] \<Longrightarrow> pick s = (None, s)"
    and pick_some: "cands s \<noteq> [] \<Longrightarrow> unat (ctr s) < limit \<Longrightarrow>
          fst (pick s) = Some (cands s ! (unat (ctr s) mod length (cands s)))"
    and pick_ctr: "cands s \<noteq> [] \<Longrightarrow> ctr (snd (pick s)) = ctr s + 1"
    and pick_cands: "cands (snd (pick s)) = cands s"
    and limit_range: "limit \<le> 2 ^ 64"
begin

lemma pick_mem: "unat (ctr s) < limit \<Longrightarrow> fst (pick s) = Some x \<Longrightarrow> x \<in> set (cands s)"
  by (cases "cands s = []") (auto simp: pick_none pick_some)

lemma pick_None_iff: "unat (ctr s) < limit \<Longrightarrow> fst (pick s) = None \<longleftrightarrow> cands s = []"
  by (cases "cands s = []") (auto simp: pick_none pick_some)

text \<open>Several choices in a row.\<close>

fun picks :: "nat \<Rightarrow> 's \<Rightarrow> 'a option list" where
  "picks 0 s = []"
| "picks (Suc n) s = (case pick s of (x, s') \<Rightarrow> x # picks n s')"

lemma picks_nth:
  "cands s \<noteq> [] \<Longrightarrow> unat (ctr s) + n \<le> limit \<Longrightarrow>
     picks n s = map (\<lambda>i. Some (cands s ! ((unat (ctr s) + i) mod length (cands s)))) [0..<n]"
proof (induction n arbitrary: s)
  case 0
  then show ?case by simp
next
  case (Suc n)
  obtain x s' where p: "pick s = (x, s')" by (metis prod.exhaust)
  have c: "cands s' = cands s" using pick_cands [of s] p by simp
  have x: "x = Some (cands s ! (unat (ctr s) mod length (cands s)))"
    using pick_some [of s] Suc.prems p by simp
  show ?case
  proof (cases n)
    case 0
    then show ?thesis using p x by simp
  next
    case (Suc k)
    have "unat (ctr s) + 1 < 2 ^ 64" using Suc Suc.prems(2) limit_range by simp
    then have u: "unat (ctr s') = unat (ctr s) + 1"
      using pick_ctr [of s] Suc.prems p by (simp add: unat_word_ariths)
    have "picks n s' = map (\<lambda>i. Some (cands s ! ((unat (ctr s) + Suc i) mod length (cands s)))) [0..<n]"
      using Suc.IH [of s'] Suc.prems c u by simp
    then show ?thesis using p x by (simp add: upt_rec [of 0 "Suc n"] map_Suc_upt [symmetric] comp_def del: upt_Suc)
  qed
qed

text \<open>Fairness: in \<open>k\<close> rounds every candidate is chosen \<open>k\<close> times.\<close>

lemma picks_fair:
  assumes "cands s \<noteq> []" and "unat (ctr s) + k * length (cands s) \<le> limit"
  shows "mset (picks (k * length (cands s)) s) = repeat_mset k (mset (map Some (cands s)))"
proof -
  let ?f = "\<lambda>i. cands s ! ((unat (ctr s) + i) mod length (cands s))"
  have "picks (k * length (cands s)) s = map Some (map ?f [0..<k * length (cands s)])"
    using picks_nth [OF assms] by simp
  then have "mset (picks (k * length (cands s)) s)
      = image_mset Some (repeat_mset k (mset (cands s)))"
    using mset_rounds [of "cands s" "unat (ctr s)" k] by (metis mset_map)
  then show ?thesis by (simp add: image_mset_rounds)
qed

text \<open>One round reaches every candidate, and only candidates are ever chosen.\<close>

lemma picks_one_round:
  assumes "x \<in> set (cands s)" and "unat (ctr s) + length (cands s) \<le> limit"
  shows "Some x \<in> set (picks (length (cands s)) s)"
proof -
  have "cands s \<noteq> []" using assms(1) by auto
  then have "mset (picks (1 * length (cands s)) s) = repeat_mset (Suc 0) (mset (map Some (cands s)))"
    using assms(2) picks_fair [of s 1] by simp
  then have "set (picks (length (cands s)) s) = set (map Some (cands s))"
    by (metis mult_1 repeat_mset_1 set_mset_mset)
  then show ?thesis using assms(1) by simp
qed

lemma picks_mem: "limit = 2 ^ 64 \<Longrightarrow> Some x \<in> set (picks n s) \<Longrightarrow> x \<in> set (cands s)"
proof (induction n arbitrary: s)
  case (Suc n)
  obtain y s' where p: "pick s = (y, s')" by (metis prod.exhaust)
  then have "y = Some x \<or> Some x \<in> set (picks n s')" using Suc.prems(2) by auto
  moreover have "unat (ctr s) < limit" using Suc.prems(1) unsigned_less [of "ctr s"] by simp
  ultimately show ?case
    using pick_mem [of s x] Suc.IH [of s'] Suc.prems(1) pick_cands [of s] p by auto
qed simp

end

end
