(* ===== verification/Proxy.thy ===== *)
theory Proxy
  imports Tunnels Config Conn Round_Robin
begin

text \<open>
  The load-balancing SOCKS5 proxy, \<^verbatim>\<open>internal/proxy/server.go\<close>. Tunnels are the pointers of the
  tunnel manager's model. Dialling a backend and listening on an address are arguments: a dialler
  gives the connection to an address or none, a listener gives the error text or none.
\<close>

type_synonym dialer = "string \<Rightarrow> conn option"

section \<open>State\<close>

text \<open>One listener of \<open>StartCountryProxies\<close> with the variables of its \<^verbatim>\<open>serveCountryProxy\<close> goroutine.\<close>

record country_proxy =
  cp_port :: int
  cp_tunnels :: "nat list"
  cp_counter :: u64
  cp_open :: bool

record server =
  s_cfg :: config
  s_addr :: string
  s_listener :: "bool option"   \<comment> \<open>the listener, when there is one, and whether it is open\<close>
  s_closed :: bool
  s_counter :: u64
  s_countryMapping :: "(string \<times> int) list"
  s_countryListeners :: "country_proxy list"

definition NewServer :: "string \<Rightarrow> config \<Rightarrow> server" where
  "NewServer addr cfg =
     \<lparr>s_cfg = cfg, s_addr = addr, s_listener = None, s_closed = False, s_counter = 0,
      s_countryMapping = [], s_countryListeners = []\<rparr>"

definition Close :: "server \<Rightarrow> server" where
  "Close s = s\<lparr>s_closed := True,
               s_listener := map_option (\<lambda>_. False) (s_listener s),
               s_countryListeners := map (\<lambda>c. c\<lparr>cp_open := False\<rparr>) (s_countryListeners s)\<rparr>"

definition GetCountryMapping :: "server \<Rightarrow> (string \<times> int) list" where
  "GetCountryMapping s = s_countryMapping s"

section \<open>Accepting\<close>

datatype accept = Accepted conn | AcceptFailed string

text \<open>
  The accept loops, over what \<^verbatim>\<open>Accept\<close> returns and whether the server is closed at that time: the
  connections handed to a goroutine each, and whether the loop has returned.
\<close>

fun accept_loop :: "(bool \<times> accept) list \<Rightarrow> conn list \<times> bool" where
  "accept_loop [] = ([], False)"
| "accept_loop ((closed, AcceptFailed e) # as) = (if closed then ([], True) else accept_loop as)"
| "accept_loop ((closed, Accepted c) # as) = (case accept_loop as of (cs, r) \<Rightarrow> (c # cs, r))"

definition ListenAndServe ::
    "(string \<Rightarrow> string option) \<Rightarrow> server \<Rightarrow> (bool \<times> accept) list \<Rightarrow>
       (string, conn list \<times> bool) res \<times> server" where
  "ListenAndServe listen s as =
     (case listen (s_addr s) of
        Some e \<Rightarrow> (Err (''listen '' @ s_addr s @ '': '' @ e), s)
      | None \<Rightarrow> (Ok (accept_loop as), s\<lparr>s_listener := Some True\<rparr>))"

section \<open>Proxies per country\<close>

fun group_tunnels :: "manager \<Rightarrow> (string \<times> nat list) list \<Rightarrow> nat list \<Rightarrow> (string \<times> nat list) list" where
  "group_tunnels m g [] = g"
| "group_tunnels m g (i # is) =
     (let country = t_Country (tun m i) in
      if country = [] then group_tunnels m g is
      else group_tunnels m
             (AList.update country
                ((case map_of g country of None \<Rightarrow> [] | Some ts \<Rightarrow> ts) @ [i]) g) is)"

fun start_countries ::
    "(string \<Rightarrow> string option) \<Rightarrow> server \<Rightarrow> int \<Rightarrow> (string \<times> nat list) list \<Rightarrow> server" where
  "start_countries listen s port [] = s"
| "start_countries listen s port ((country, ts) # g) =
     (let s1 = s\<lparr>s_countryMapping := AList.update country port (s_countryMapping s)\<rparr> in
      case listen ('':'' @ show_int port) of
        Some e \<Rightarrow> start_countries listen s1 (s64 (port + 1)) g
      | None \<Rightarrow>
          start_countries listen
            (s1\<lparr>s_countryListeners := s_countryListeners s1 @
                  [\<lparr>cp_port = port, cp_tunnels = ts, cp_counter = 0, cp_open = True\<rparr>]\<rparr>)
            (s64 (port + 1)) g)"

text \<open>Go iterates over a map in any order: \<open>perm\<close> is the order it takes.\<close>

definition StartCountryProxies ::
    "((string \<times> nat list) list \<Rightarrow> (string \<times> nat list) list) \<Rightarrow> (string \<Rightarrow> string option) \<Rightarrow>
       server \<Rightarrow> manager \<Rightarrow> server" where
  "StartCountryProxies perm listen s m =
     start_countries listen s (c_CountryPortBase (s_cfg s))
       (perm (group_tunnels m [] (GetTunnels m)))"

section \<open>Choosing a backend\<close>

definition healthy :: "manager \<Rightarrow> nat list \<Rightarrow> nat list" where
  "healthy m ts = filter (\<lambda>i. IsHealthy (tun m i)) ts"

definition backend_addr :: "tunnel \<Rightarrow> string" where
  "backend_addr t = ''127.0.0.1:'' @ show_int (t_ProxyPort t)"

definition pick :: "manager \<Rightarrow> country_proxy \<Rightarrow> (string \<times> nat option) \<times> country_proxy" where
  "pick m p =
     (let hs = healthy m (cp_tunnels p) in
      if hs = [] then (([], None), p)
      else (let i = hs ! (unat (cp_counter p) mod length hs)
            in ((backend_addr (tun m i), Some i), p\<lparr>cp_counter := cp_counter p + 1\<rparr>)))"

definition pickBackend :: "manager \<Rightarrow> server \<Rightarrow> (string \<times> nat option) \<times> server" where
  "pickBackend m s =
     (let hs = healthy m (GetTunnels m) in
      if hs = [] then (([], None), s)
      else (let i = hs ! (unat (s_counter s) mod length hs)
            in ((backend_addr (tun m i), Some i), s\<lparr>s_counter := s_counter s + 1\<rparr>)))"

text \<open>The picker of a connection: none, or the one of country listener \<open>k\<close>.\<close>

definition pick_for :: "manager \<Rightarrow> server \<Rightarrow> nat option \<Rightarrow> (string \<times> nat option) \<times> server" where
  "pick_for m s picker =
     (case picker of
        None \<Rightarrow> pickBackend m s
      | Some k \<Rightarrow>
          (case pick m (s_countryListeners s ! k) of
             (r, p) \<Rightarrow> (r, s\<lparr>s_countryListeners := (s_countryListeners s)[k := p]\<rparr>)))"

section \<open>One connection\<close>

text \<open>\<^verbatim>\<open>conn.Read(buf)\<close>: the count, and the buffer whose first bytes were overwritten.\<close>

definition read_into :: "conn \<Rightarrow> byte list \<Rightarrow> (nat option \<times> byte list) \<times> conn" where
  "read_into c buf =
     (case conn_read c (length buf) of
        (None, c') \<Rightarrow> ((None, buf), c')
      | (Some bs, c') \<Rightarrow> ((Some (length bs), bs @ drop (length bs) buf), c'))"

definition show_byte :: "byte \<Rightarrow> string" where
  "show_byte b = show_nat (unat b)"

definition port_of :: "byte \<Rightarrow> byte \<Rightarrow> nat" where
  "port_of hi lo = unat hi * 256 + unat lo"

definition parseTarget :: "byte list \<Rightarrow> (string, string) res" where
  "parseTarget buf =
     (if length buf < 7 then Ok ''unknown''
      else if buf ! 3 = 1 then
        (if 10 \<le> length buf
         then bind_res (go_idx buf 4) (\<lambda>a. bind_res (go_idx buf 5) (\<lambda>b.
              bind_res (go_idx buf 6) (\<lambda>c. bind_res (go_idx buf 7) (\<lambda>d.
              bind_res (go_idx buf 8) (\<lambda>hi. bind_res (go_idx buf 9) (\<lambda>lo.
                Ok (show_byte a @ ''.'' @ show_byte b @ ''.'' @ show_byte c @
                    ''.'' @ show_byte d @ '':'' @ show_nat (port_of hi lo))))))))
         else Ok ''unknown'')
      else if buf ! 3 = 3 then
        (let addrLen = unat (buf ! 4) in
         if 5 + addrLen + 2 \<le> length buf
         then bind_res (go_idx buf (5 + addrLen)) (\<lambda>hi.
              bind_res (go_idx buf (5 + addrLen + 1)) (\<lambda>lo.
              bind_res (go_slice buf 5 (5 + addrLen)) (\<lambda>name.
                Ok (str_of name @ '':'' @ show_nat (port_of hi lo)))))
         else Ok ''unknown'')
      else Ok ''unknown'')"

text \<open>The authentication message (RFC 1929) in the first \<open>n\<close> bytes of the buffer.\<close>

definition auth_check :: "config \<Rightarrow> nat \<Rightarrow> byte list \<Rightarrow> (string, bool) res" where
  "auth_check cfg n buf =
     (if n < 5 \<or> buf ! 0 \<noteq> 1 then Ok False
      else (let ulen = unat (buf ! 1) in
        if n < 2 + ulen + 1 then Ok False
        else bind_res (go_slice buf 2 (2 + ulen)) (\<lambda>username.
             bind_res (go_idx buf (2 + ulen)) (\<lambda>pl.
             (let plen = unat pl in
              if n < 2 + ulen + 1 + plen then Ok False
              else bind_res (go_slice buf (2 + ulen + 1) (2 + ulen + 1 + plen)) (\<lambda>password.
                Ok (str_of username = c_ProxyUser cfg \<and> str_of password = c_ProxyPass cfg)))))))"

text \<open>
  Method selection and authentication: whether the connection goes on, the buffer and the client
  connection.
\<close>

definition authenticate :: "config \<Rightarrow> conn \<Rightarrow> byte list \<Rightarrow> (string, bool \<times> byte list \<times> conn) res" where
  "authenticate cfg c buf =
     (if c_ProxyUser cfg \<noteq> [] \<and> c_ProxyPass cfg \<noteq> [] then
        (case read_into (send c [5, 2]) buf of
           ((None, buf'), c1) \<Rightarrow> Ok (False, buf', send c1 [1, 1])
         | ((Some n, buf'), c1) \<Rightarrow>
             bind_res (auth_check cfg n buf') (\<lambda>ok.
               if ok then Ok (True, buf', send c1 [1, 0]) else Ok (False, buf', send c1 [1, 1])))
      else Ok (True, buf, send c [5, 0]))"

definition backendHandshake :: "conn \<Rightarrow> byte list \<Rightarrow> bool \<times> conn" where
  "backendHandshake b connectReq =
     (case conn_write b [5, 1, 0] of
        ((_, False), b1) \<Rightarrow> (False, b1)
      | ((_, True), b1) \<Rightarrow>
          (case read_into b1 [0, 0] of
             ((None, _), b2) \<Rightarrow> (False, b2)
           | ((Some _, buf), b2) \<Rightarrow>
               if buf ! 0 \<noteq> 5 \<or> buf ! 1 \<noteq> 0 then (False, b2)
               else (case conn_write b2 connectReq of ((_, ok), b3) \<Rightarrow> (ok, b3))))"

text \<open>
  \<^verbatim>\<open>relay\<close>: both directions to their end, in one order; theory \<open>Relay\<close> shows that every
  interleaving of the two goroutines ends in the same state.
\<close>

definition relay :: "manager \<Rightarrow> nat \<Rightarrow> conn \<Rightarrow> conn \<Rightarrow> manager \<times> conn \<times> conn" where
  "relay m i client backend =
     (case io_copy backend client of
        (out, client1, backend1) \<Rightarrow>
          (case io_copy client1 backend1 of
             (inn, backend2, client2) \<Rightarrow>
               (upd m i (\<lambda>t. t\<lparr>t_BytesOut := s64 (t_BytesOut t + int out),
                               t_BytesIn := s64 (t_BytesIn t + int inn)\<rparr>), client2, backend2)))"

text \<open>What a handled connection leaves behind; \<open>h_backend\<close> is the backend connection if one was made.\<close>

record handled =
  h_server :: server
  h_manager :: manager
  h_client :: conn
  h_dialed :: "string list"
  h_backend :: "conn option"

definition hang_up :: "server \<Rightarrow> manager \<Rightarrow> conn \<Rightarrow> string list \<Rightarrow> conn option \<Rightarrow> handled" where
  "hang_up s m c d b =
     \<lparr>h_server = s, h_manager = m, h_client = conn_close c, h_dialed = d,
      h_backend = map_option conn_close b\<rparr>"

definition reply :: "byte \<Rightarrow> byte list" where
  "reply code = [5, code, 0, 1, 0, 0, 0, 0, 0, 0]"

text \<open>From the dialled backend to the end of the connection.\<close>

definition use_backend ::
    "server \<Rightarrow> manager \<Rightarrow> conn \<Rightarrow> byte list \<Rightarrow> string \<Rightarrow> nat \<Rightarrow> conn \<Rightarrow> handled" where
  "use_backend s m c connectReq addr i b =
     (case backendHandshake b connectReq of
        (False, b1) \<Rightarrow> hang_up s m (send c (reply 1)) [addr] (Some b1)
      | (True, b1) \<Rightarrow>
          (case read_into b1 (replicate 256 0) of
             ((r, resp), b2) \<Rightarrow>
               if r = None \<or> the r < 2 \<or> resp ! 1 \<noteq> 0
               then hang_up s m (send c (reply 1)) [addr] (Some b2)
               else (let m1 = upd m i (\<lambda>t. t\<lparr>t_ConnCount := s64 (t_ConnCount t + 1)\<rparr>) in
                     case relay m1 i (send c (reply 0)) b2 of
                       (m2, c2, b3) \<Rightarrow> hang_up s m2 c2 [addr] (Some b3))))"

definition serve_request ::
    "dialer \<Rightarrow> server \<Rightarrow> manager \<Rightarrow> nat option \<Rightarrow> conn \<Rightarrow> byte list \<Rightarrow> (string, handled) res" where
  "serve_request dial s m picker c buf =
     (case read_into c buf of
        ((r, buf1), c1) \<Rightarrow>
          if r = None \<or> the r < 7 \<or> buf1 ! 0 \<noteq> 5 \<or> buf1 ! 1 \<noteq> 1
          then Ok (hang_up s m (send c1 (reply 7)) [] None)
          else (let connectReq = take (the r) buf1 in
            bind_res (parseTarget connectReq) (\<lambda>target.
              (case pick_for m s picker of
                 ((addr, t), s1) \<Rightarrow>
                   if addr = [] then Ok (hang_up s1 m (send c1 (reply 1)) [] None)
                   else (case dial addr of
                       None \<Rightarrow> Ok (hang_up s1 m (send c1 (reply 1)) [addr] None)
                     | Some b \<Rightarrow> Ok (use_backend s1 m c1 connectReq addr (the t) b))))))"

definition handleConnection ::
    "dialer \<Rightarrow> server \<Rightarrow> manager \<Rightarrow> nat option \<Rightarrow> conn \<Rightarrow> (string, handled) res" where
  "handleConnection dial s m picker c =
     (case read_into c (replicate 258 0) of
        ((r, buf), c1) \<Rightarrow>
          if r = None \<or> the r < 2 \<or> buf ! 0 \<noteq> 5 then Ok (hang_up s m c1 [] None)
          else bind_res (authenticate (s_cfg s) c1 buf) (\<lambda>(go, buf1, c2).
            if go then serve_request dial s m picker c2 buf1
            else Ok (hang_up s m c2 [] None)))"

end
