(* ===== verification/Relay.thy ===== *)
theory Relay
  imports Proxy
begin

text \<open>
  The two copying goroutines of \<^verbatim>\<open>relay\<close> (and of the retry proxy) as an interleaving of single reads
  and writes. Every schedule ends, and every schedule ends in the state that the sequential
  definition \<open>relay\<close> computes.
\<close>

section \<open>Schedules\<close>

datatype phase = Reading | Writing "byte list" | Finished

record rstate =
  r_client :: conn
  r_backend :: conn
  r_up :: phase       \<comment> \<open>client to backend\<close>
  r_down :: phase     \<comment> \<open>backend to client\<close>
  r_out :: nat
  r_in :: nat

definition after_read :: "byte list option \<Rightarrow> phase" where
  "after_read r = (case r of None \<Rightarrow> Finished | Some bs \<Rightarrow> if bs = [] then Reading else Writing bs)"

inductive relay_step :: "rstate \<Rightarrow> rstate \<Rightarrow> bool" where
  up_read: "r_up st = Reading \<Longrightarrow> conn_read (r_client st) 32768 = (r, c) \<Longrightarrow>
     relay_step st (st\<lparr>r_client := c, r_up := after_read r\<rparr>)"
| up_write: "r_up st = Writing bs \<Longrightarrow> conn_write (r_backend st) bs = ((k, ok), b) \<Longrightarrow>
     relay_step st (st\<lparr>r_backend := b, r_out := r_out st + k,
                       r_up := (if ok then Reading else Finished)\<rparr>)"
| down_read: "r_down st = Reading \<Longrightarrow> conn_read (r_backend st) 32768 = (r, b) \<Longrightarrow>
     relay_step st (st\<lparr>r_backend := b, r_down := after_read r\<rparr>)"
| down_write: "r_down st = Writing bs \<Longrightarrow> conn_write (r_client st) bs = ((k, ok), c) \<Longrightarrow>
     relay_step st (st\<lparr>r_client := c, r_in := r_in st + k,
                       r_down := (if ok then Reading else Finished)\<rparr>)"

inductive_cases relay_stepE: "relay_step st st'"

definition relay_start :: "conn \<Rightarrow> conn \<Rightarrow> rstate" where
  "relay_start client backend =
     \<lparr>r_client = client, r_backend = backend, r_up = Reading, r_down = Reading, r_out = 0, r_in = 0\<rparr>"

section \<open>What one direction still has to do\<close>

text \<open>
  The result of one direction: the count, what is left to read at the source, what the destination
  has been sent and its remaining quota. It does not depend on anything the other direction changes.
\<close>

type_synonym dir_result = "nat \<times> arrival list \<times> byte list \<times> nat option"

definition dir_view :: "nat \<times> conn \<times> conn \<Rightarrow> dir_result" where
  "dir_view r = (case r of (n, src, dst) \<Rightarrow> (n, rx src, tx dst, quota dst))"

definition dir_end :: "phase \<Rightarrow> conn \<Rightarrow> conn \<Rightarrow> nat \<Rightarrow> dir_result" where
  "dir_end ph src dst n =
     (case ph of
        Reading \<Rightarrow> dir_view (copy_loop src dst n)
      | Finished \<Rightarrow> dir_view (n, src, dst)
      | Writing bs \<Rightarrow>
          (case conn_write dst bs of
             ((k, ok), dst') \<Rightarrow>
               dir_view (if ok then copy_loop src dst' (n + k) else (n + k, src, dst'))))"

definition same_src :: "conn \<Rightarrow> conn \<Rightarrow> bool" where
  "same_src a b \<longleftrightarrow> rx a = rx b \<and> is_open a = is_open b"

definition same_dst :: "conn \<Rightarrow> conn \<Rightarrow> bool" where
  "same_dst a b \<longleftrightarrow> tx a = tx b \<and> quota a = quota b \<and> is_open a = is_open b"

lemma same_refl [simp]: "same_src a a" "same_dst a a"
  by (simp_all add: same_src_def same_dst_def)

lemma same_trans:
  "same_src a b \<Longrightarrow> same_src b c \<Longrightarrow> same_src a c"
  "same_dst a b \<Longrightarrow> same_dst b c \<Longrightarrow> same_dst a c"
  by (simp_all add: same_src_def same_dst_def)

lemma read_same_src:
  "same_src a b \<Longrightarrow> fst (conn_read a n) = fst (conn_read b n)
     \<and> same_src (snd (conn_read a n)) (snd (conn_read b n))"
  by (auto simp: same_src_def conn_read_def split: list.splits arrival.splits)

lemma write_same_dst:
  "same_dst a b \<Longrightarrow> fst (conn_write a bs) = fst (conn_write b bs)
     \<and> same_dst (snd (conn_write a bs)) (snd (conn_write b bs))"
  by (auto simp: same_dst_def conn_write_def split: option.splits)

lemma read_keeps_dst: "conn_read c n = (r, c') \<Longrightarrow> same_dst c c'"
  by (auto simp: same_dst_def conn_read_def split: if_splits list.splits arrival.splits)

lemma write_keeps_src: "conn_write c bs = (r, c') \<Longrightarrow> same_src c c'"
  by (auto simp: same_src_def conn_write_def split: if_splits option.splits)

lemma copy_loop_same:
  "same_src src src2 \<Longrightarrow> same_dst dst dst2 \<Longrightarrow>
     dir_view (copy_loop src dst n) = dir_view (copy_loop src2 dst2 n)"
proof (induction src dst n arbitrary: src2 dst2 rule: copy_loop.induct)
  case (1 src dst n)
  obtain r s1 where rd: "conn_read src 32768 = (r, s1)" by (metis prod.exhaust)
  obtain r' s2 where rd2: "conn_read src2 32768 = (r', s2)" by (metis prod.exhaust)
  have r: "r' = r" and s: "same_src s1 s2"
    using read_same_src [OF "1.prems"(1), of 32768] rd rd2 by simp_all
  show ?case
  proof (cases r)
    case None
    then show ?thesis
      using rd rd2 r s "1.prems"(2)
      by (simp add: copy_loop.simps [of src] copy_loop.simps [of src2] dir_view_def
          same_src_def same_dst_def)
  next
    case (Some bs)
    show ?thesis
    proof (cases "bs = []")
      case True
      then show ?thesis
        using "1.IH"(1) [OF rd [symmetric] Some True s "1.prems"(2)] rd rd2 r Some
        by (simp add: copy_loop.simps [of src] copy_loop.simps [of src2])
    next
      case False
      obtain k ok d1 where w: "conn_write dst bs = ((k, ok), d1)" by (metis prod.exhaust)
      obtain p d2 where w2: "conn_write dst2 bs = (p, d2)" by (metis prod.exhaust)
      have p: "p = (k, ok)" and d: "same_dst d1 d2"
        using write_same_dst [OF "1.prems"(2), of bs] w w2 by simp_all
      show ?thesis
      proof (cases ok)
        case True
        then show ?thesis
          using "1.IH"(2) [OF rd [symmetric] Some False w [symmetric] refl True s d]
            rd rd2 r Some False w w2 p
          by (simp add: copy_loop.simps [of src] copy_loop.simps [of src2])
      next
        case nok: False
        then show ?thesis
          using rd rd2 r Some False w w2 p s d
          by (simp add: copy_loop.simps [of src] copy_loop.simps [of src2] dir_view_def
              same_src_def same_dst_def)
      qed
    qed
  qed
qed

lemma dir_end_same:
  assumes "same_src src src2" and "same_dst dst dst2"
  shows "dir_end ph src dst n = dir_end ph src2 dst2 n"
proof (cases ph)
  case (Writing bs)
  obtain k ok d1 where w: "conn_write dst bs = ((k, ok), d1)" by (metis prod.exhaust)
  obtain p d2 where w2: "conn_write dst2 bs = (p, d2)" by (metis prod.exhaust)
  have "p = (k, ok)" and d: "same_dst d1 d2"
    using write_same_dst [OF assms(2), of bs] w w2 by simp_all
  then show ?thesis
    using Writing w w2 copy_loop_same [OF assms(1) d] assms(1)
    by (simp add: dir_end_def dir_view_def same_src_def same_dst_def)
qed (use copy_loop_same [OF assms] assms in
      \<open>simp_all add: dir_end_def dir_view_def same_src_def same_dst_def\<close>)

lemma dir_end_read:
  "conn_read src 32768 = (r, src') \<Longrightarrow> dir_end (after_read r) src' dst n = dir_end Reading src dst n"
  by (auto simp: dir_end_def after_read_def copy_loop.simps [of src] dir_view_def
      split: option.splits prod.splits)

lemma dir_end_write:
  "conn_write dst bs = ((k, ok), dst') \<Longrightarrow>
     dir_end (if ok then Reading else Finished) src dst' (n + k) = dir_end (Writing bs) src dst n"
  by (simp add: dir_end_def)

section \<open>All schedules agree\<close>

definition relay_view :: "rstate \<Rightarrow> dir_result \<times> dir_result \<times> bool \<times> bool" where
  "relay_view st =
     (dir_end (r_up st) (r_client st) (r_backend st) (r_out st),
      dir_end (r_down st) (r_backend st) (r_client st) (r_in st),
      is_open (r_client st), is_open (r_backend st))"

lemma relay_step_view: "relay_step st st' \<Longrightarrow> relay_view st' = relay_view st"
proof (induction rule: relay_step.induct)
  case (up_read st r c)
  have d: "same_dst (r_client st) c" by (rule read_keeps_dst [OF up_read(2)])
  then show ?case
    using up_read dir_end_read [OF up_read(2)] dir_end_same [OF same_refl(1) d]
    by (simp add: relay_view_def same_dst_def)
next
  case (up_write st bs k ok b)
  have d: "same_src (r_backend st) b" by (rule write_keeps_src [OF up_write(2)])
  show ?case
    using up_write(1) dir_end_write [OF up_write(2)] dir_end_same [OF d same_refl(2)] d
    by (simp add: relay_view_def same_src_def)
next
  case (down_read st r b)
  have d: "same_dst (r_backend st) b" by (rule read_keeps_dst [OF down_read(2)])
  then show ?case
    using down_read dir_end_read [OF down_read(2)] dir_end_same [OF same_refl(1) d]
    by (simp add: relay_view_def same_dst_def)
next
  case (down_write st bs k ok c)
  have d: "same_src (r_client st) c" by (rule write_keeps_src [OF down_write(2)])
  show ?case
    using down_write(1) dir_end_write [OF down_write(2)] dir_end_same [OF d same_refl(2)] d
    by (simp add: relay_view_def same_src_def)
qed

lemma relay_run_view: "relay_step\<^sup>*\<^sup>* st st' \<Longrightarrow> relay_view st' = relay_view st"
  by (induction rule: rtranclp_induct) (simp_all add: relay_step_view)

text \<open>A state without a successor has finished both directions.\<close>

lemma relay_stuck:
  assumes "\<nexists>st'. relay_step st st'"
  shows "r_up st = Finished \<and> r_down st = Finished"
proof -
  have "r_up st = Finished"
  proof (cases "r_up st")
    case Reading
    then show ?thesis using assms up_read [of st] by (metis prod.exhaust)
  next
    case (Writing bs)
    then show ?thesis using assms up_write [of st bs] by (metis prod.exhaust)
  qed simp
  moreover have "r_down st = Finished"
  proof (cases "r_down st")
    case Reading
    then show ?thesis using assms down_read [of st] by (metis prod.exhaust)
  next
    case (Writing bs)
    then show ?thesis using assms down_write [of st bs] by (metis prod.exhaust)
  qed simp
  ultimately show ?thesis ..
qed

text \<open>Every schedule ends: a step reads something, writes a buffer or finishes.\<close>

fun phase_rank :: "phase \<Rightarrow> nat" where
  "phase_rank Reading = 1"
| "phase_rank (Writing bs) = 2"
| "phase_rank Finished = 0"

definition relay_rank :: "rstate \<Rightarrow> nat" where
  "relay_rank st = 2 * rx_size (rx (r_client st)) + 2 * rx_size (rx (r_backend st))
     + phase_rank (r_up st) + phase_rank (r_down st)"

lemma read_rank:
  "conn_read c 32768 = (r, c') \<Longrightarrow>
     2 * rx_size (rx c') + phase_rank (after_read r) < 2 * rx_size (rx c) + 1"
proof (cases r)
  case None
  moreover assume "conn_read c 32768 = (r, c')"
  ultimately show ?thesis
    by (auto simp: conn_read_def after_read_def split: if_splits list.splits arrival.splits)
next
  case (Some bs)
  moreover assume "conn_read c 32768 = (r, c')"
  ultimately show ?thesis
    using conn_read_smaller [of c 32768 bs c'] by (simp add: after_read_def)
qed

lemma relay_step_rank: "relay_step st st' \<Longrightarrow> relay_rank st' < relay_rank st"
proof (induction rule: relay_step.induct)
  case (up_read st r c)
  then show ?case using read_rank [OF up_read(2)] by (simp add: relay_rank_def)
next
  case (up_write st bs k ok b)
  then show ?case using write_keeps_src [OF up_write(2)] by (simp add: relay_rank_def same_src_def)
next
  case (down_read st r b)
  then show ?case using read_rank [OF down_read(2)] by (simp add: relay_rank_def)
next
  case (down_write st bs k ok c)
  then show ?case using write_keeps_src [OF down_write(2)] by (simp add: relay_rank_def same_src_def)
qed

text \<open>The sequential composition reaches the same view.\<close>

lemma dir_end_Finished [simp]: "dir_end Finished src dst n = (n, rx src, tx dst, quota dst)"
  by (simp add: dir_end_def dir_view_def)

lemma copy_loop_frame:
  "copy_loop src dst n = (m, src', dst') \<Longrightarrow> same_dst src src' \<and> same_src dst dst'"
proof (induction src dst n arbitrary: m src' dst' rule: copy_loop.induct)
  case (1 src dst n)
  obtain r s1 where rd: "conn_read src 32768 = (r, s1)" by (metis prod.exhaust)
  have ks: "same_dst src s1" by (rule read_keeps_dst [OF rd])
  show ?case
  proof (cases r)
    case None
    then show ?thesis using "1.prems" rd ks by (simp add: copy_loop.simps [of src])
  next
    case (Some bs)
    show ?thesis
    proof (cases "bs = []")
      case True
      then have "copy_loop s1 dst n = (m, src', dst')"
        using "1.prems" rd Some by (simp add: copy_loop.simps [of src])
      from "1.IH"(1) [OF rd [symmetric] Some True this]
      show ?thesis using ks same_trans by blast
    next
      case False
      obtain k ok d1 where w: "conn_write dst bs = ((k, ok), d1)" by (metis prod.exhaust)
      have kd: "same_src dst d1" by (rule write_keeps_src [OF w])
      show ?thesis
      proof (cases ok)
        case True
        then have "copy_loop s1 d1 (n + k) = (m, src', dst')"
          using "1.prems" rd Some False w by (simp add: copy_loop.simps [of src])
        from "1.IH"(2) [OF rd [symmetric] Some False w [symmetric] refl True this]
        show ?thesis using ks kd same_trans by blast
      next
        case nok: False
        then show ?thesis
          using "1.prems" rd Some False w ks kd by (simp add: copy_loop.simps [of src])
      qed
    qed
  qed
qed

lemma relay_sequential_view:
  assumes up: "io_copy backend client = (n, client1, backend1)"
    and down: "io_copy client1 backend1 = (k, backend2, client2)"
  shows "relay_view (relay_start client backend) =
    ((n, rx client2, tx backend2, quota backend2), (k, rx backend2, tx client2, quota client2),
     is_open client2, is_open backend2)"
proof -
  have f1: "same_dst client client1" "same_src backend backend1"
    using copy_loop_frame up unfolding io_copy_def by blast+
  have f2: "same_dst backend1 backend2" "same_src client1 client2"
    using copy_loop_frame down unfolding io_copy_def by blast+
  have "dir_view (copy_loop backend client 0) = dir_view (copy_loop backend1 client1 0)"
    by (rule copy_loop_same [OF f1(2,1)])
  then have "dir_end Reading backend client 0 = (k, rx backend2, tx client2, quota client2)"
    using down by (simp add: dir_end_def dir_view_def io_copy_def)
  moreover have "dir_end Reading client backend 0 = (n, rx client2, tx backend2, quota backend2)"
    using up f2 by (simp add: dir_end_def dir_view_def io_copy_def same_src_def same_dst_def)
  moreover have "is_open client2 = is_open client" "is_open backend2 = is_open backend"
    using f1 f2 unfolding same_src_def same_dst_def by metis+
  ultimately show ?thesis by (simp add: relay_view_def relay_start_def)
qed

lemma conn_eqI:
  fixes a b :: conn
  shows "rx a = rx b \<Longrightarrow> tx a = tx b \<Longrightarrow> quota a = quota b \<Longrightarrow> is_open a = is_open b \<Longrightarrow> a = b"
  by simp

lemma relay_schedule_exists: "\<exists>st'. relay_step\<^sup>*\<^sup>* st st' \<and> (\<nexists>st''. relay_step st' st'')"
proof (induction "relay_rank st" arbitrary: st rule: less_induct)
  case less
  show ?case
  proof (cases "\<exists>st1. relay_step st st1")
    case True
    then obtain st1 where "relay_step st st1" by blast
    with less [OF relay_step_rank [OF this]] show ?thesis
      by (meson converse_rtranclp_into_rtranclp)
  qed blast
qed

definition demo_client :: conn where
  "demo_client = \<lparr>rx = [Chunk [1, 2], Chunk [3]], tx = [], quota = None, is_open = True\<rparr>"

definition demo_backend :: conn where
  "demo_backend = \<lparr>rx = [Chunk [9]], tx = [], quota = Some 2, is_open = True\<rparr>"

text \<open>
  C4. The two copying goroutines of a relay can be scheduled in any way: every schedule that has run
  to its end has the same byte counts and leaves both connections exactly as one direction after the
  other does, so the counters and the data do not depend on timing.
\<close>

theorem relay_any_schedule:
  assumes run: "relay_step\<^sup>*\<^sup>* (relay_start client backend) st" and stuck: "\<nexists>st'. relay_step st st'"
  shows "relay m i client backend =
    (upd m i (\<lambda>t. t\<lparr>t_BytesOut := s64 (t_BytesOut t + int (r_out st)),
                    t_BytesIn := s64 (t_BytesIn t + int (r_in st))\<rparr>), r_client st, r_backend st)"
proof -
  obtain n client1 backend1 where up: "io_copy backend client = (n, client1, backend1)"
    by (metis prod.exhaust)
  obtain k backend2 client2 where down: "io_copy client1 backend1 = (k, backend2, client2)"
    by (metis prod.exhaust)
  have "relay_view st = relay_view (relay_start client backend)" by (rule relay_run_view [OF run])
  then have "n = r_out st" "k = r_in st" "client2 = r_client st" "backend2 = r_backend st"
    using relay_sequential_view [OF up down] relay_stuck [OF stuck]
    by (auto simp: relay_view_def intro!: conn_eqI)
  then show ?thesis using up down by (simp add: relay_def)
qed

theorem relay_any_schedule_witness:
  "\<exists>st. relay_step\<^sup>*\<^sup>* (relay_start demo_client demo_backend) st \<and> (\<nexists>st'. relay_step st st')
     \<and> r_client st = fst (snd (relay (NewManager [] 0) 0 demo_client demo_backend))
     \<and> tx (r_client st) = [9]"
proof -
  obtain st where st: "relay_step\<^sup>*\<^sup>* (relay_start demo_client demo_backend) st"
    "\<nexists>st'. relay_step st st'"
    using relay_schedule_exists by blast
  have "tx (fst (snd (relay (NewManager [] 0) 0 demo_client demo_backend))) = [9]"
    by (simp add: relay_def io_copy_def copy_loop.simps conn_read_def conn_write_def
        demo_client_def demo_backend_def)
  with relay_any_schedule [OF st, of "NewManager [] 0" 0] st show ?thesis by auto
qed

text \<open>
  C30. A relay ends under every schedule: no infinite sequence of reads and writes exists once the
  data that will arrive is fixed.
\<close>

theorem relay_terminates: "wfP (\<lambda>st' st. relay_step st st')"
proof -
  have "wfP (\<lambda>st' st. relay_rank st' < relay_rank st)" by (simp add: wfp_if_convertible_to_nat)
  then show ?thesis by (rule wfp_subset) (auto simp: relay_step_rank)
qed

end
