(* ===== verification/Proxy_Props.thy ===== *)
theory Proxy_Props
  imports Proxy
begin

text \<open>
  What the load-balancing proxy guarantees: no panic on any input, authentication, what client and
  backend are sent, fairness of the backend choice, and the ports of the country proxies.
\<close>

section \<open>Reading into the buffer\<close>

lemma read_into_Some:
  assumes "read_into c buf = ((Some n, buf'), c')"
  shows "n \<le> length buf" "length buf' = length buf"
    "conn_read c (length buf) = (Some (take n buf'), c')"
proof -
  obtain bs where rd: "conn_read c (length buf) = (Some bs, c')"
    and n: "n = length bs" and b: "buf' = bs @ drop (length bs) buf"
    using assms by (auto simp: read_into_def split: prod.splits option.splits)
  have "length bs \<le> length buf" by (rule conn_read_le [OF rd])
  then show "n \<le> length buf" "length buf' = length buf"
    "conn_read c (length buf) = (Some (take n buf'), c')"
    using rd n b by simp_all
qed

lemma read_into_None: "read_into c buf = ((None, buf'), c') \<Longrightarrow> buf' = buf"
  by (auto simp: read_into_def split: prod.splits option.splits)

lemma read_into_length: "read_into c buf = ((r, buf'), c') \<Longrightarrow> length buf' = length buf"
  by (cases r) (use read_into_Some(2) read_into_None in \<open>metis+\<close>)

lemma read_into_keeps:
  "read_into c buf = (r, c') \<Longrightarrow> tx c' = tx c \<and> quota c' = quota c \<and> is_open c' = is_open c"
  using conn_read_avail conn_read_None
  by (auto simp: read_into_def split: prod.splits option.splits)

lemma read_into_Chunk:
  "is_open c \<Longrightarrow> rx c = Chunk bs # as \<Longrightarrow> length bs \<le> length buf \<Longrightarrow>
     read_into c buf = ((Some (length bs), bs @ drop (length bs) buf), c\<lparr>rx := as\<rparr>)"
  by (simp add: read_into_def conn_read_def)

section \<open>No input makes a connection panic\<close>

lemma auth_check_ok:
  assumes "n \<le> length buf"
  shows "\<exists>ok. auth_check cfg n buf = Ok ok"
  using assms by (simp add: auth_check_def Let_def ex_bool_eq)

lemma parseTarget_ok: "\<exists>t. parseTarget buf = Ok t"
  by (simp add: parseTarget_def Let_def)

lemma authenticate_ok:
  assumes "length buf = 258"
  shows "\<exists>go buf' c'. authenticate cfg c buf = Ok (go, buf', c') \<and> length buf' = 258"
proof (cases "c_ProxyUser cfg \<noteq> [] \<and> c_ProxyPass cfg \<noteq> []")
  case True
  obtain r buf' c' where rd: "read_into (send c [5, 2]) buf = ((r, buf'), c')"
    by (metis prod.exhaust)
  have l: "length buf' = 258" using read_into_length [OF rd] assms by simp
  show ?thesis
  proof (cases r)
    case None
    then show ?thesis using True rd l by (simp add: authenticate_def ex_bool_eq)
  next
    case (Some n)
    then have "n \<le> length buf'" using read_into_Some(1,2) rd by metis
    then obtain ok where "auth_check cfg n buf' = Ok ok"
      using auth_check_ok [of n buf' cfg] by blast
    then show ?thesis using True rd l Some by (cases ok) (simp_all add: authenticate_def ex_bool_eq)
  qed
next
  case False
  then have "authenticate cfg c buf = Ok (True, buf, send c [5, 0])"
    by (auto simp: authenticate_def)
  then show ?thesis using assms by blast
qed

definition hung_up :: "handled \<Rightarrow> bool" where
  "hung_up h \<longleftrightarrow> \<not> is_open (h_client h) \<and> (\<forall>b\<in>set_option (h_backend h). \<not> is_open b)"

lemma hung_up_hang_up [simp]: "hung_up (hang_up s m c d b)"
  by (cases b) (simp_all add: hung_up_def hang_up_def)

lemma hung_up_use_backend [simp]: "hung_up (use_backend s m c req addr i b)"
  by (simp add: use_backend_def Let_def split: prod.splits bool.splits)

lemma serve_request_ok:
  "\<exists>h. (serve_request dial s m picker c buf :: (string, handled) res) = Ok h \<and> hung_up h"
proof -
  obtain r buf1 c1 where rd: "read_into c buf = ((r, buf1), c1)" by (metis prod.exhaust)
  obtain t where t: "(parseTarget (take (the r) buf1) :: (string, string) res) = Ok t"
    using parseTarget_ok by blast
  obtain addr i s1 where p: "pick_for m s picker = ((addr, i), s1)" by (metis prod.exhaust)
  show ?thesis
    using t by (simp add: serve_request_def rd p Let_def split: option.splits)
qed

text \<open>
  C1. Whatever arrives on a client connection, in whatever pieces, and whatever the backend answers,
  handling it never panics (no index or slice of the buffer goes out of range), and in the end the
  client connection and the backend connection, if one was made, are closed.
\<close>

theorem handleConnection_ends_cleanly:
  "\<exists>h. handleConnection dial s m picker c = Ok h \<and> hung_up h"
proof -
  obtain r buf c1 where rd: "read_into c (replicate 258 0) = ((r, buf), c1)"
    by (metis prod.exhaust)
  have l: "length buf = 258" using read_into_length [OF rd] by simp
  obtain go buf1 c2 where "authenticate (s_cfg s) c1 buf = Ok (go, buf1, c2)"
    using authenticate_ok [OF l] by blast
  then show ?thesis
    using serve_request_ok [of dial s m picker c2 buf1]
    by (cases go) (auto simp: handleConnection_def rd)
qed

section \<open>Authentication\<close>

lemma auth_check_True:
  assumes "n \<le> length buf" and "auth_check cfg n buf = (Ok True :: (string, bool) res)"
  shows "\<exists>extra. take n buf =
      [1, of_nat (length (c_ProxyUser cfg))] @ bytes_of (c_ProxyUser cfg) @
      [of_nat (length (c_ProxyPass cfg))] @ bytes_of (c_ProxyPass cfg) @ extra
    \<and> length (c_ProxyUser cfg) \<le> 255 \<and> length (c_ProxyPass cfg) \<le> 255"
proof -
  define ul where "ul = unat (buf ! 1)"
  define pl where "pl = unat (buf ! (2 + ul))"
  have n5: "\<not> (n < 5 \<or> buf ! 0 \<noteq> 1)" using assms(2) by (auto simp: auth_check_def split: if_splits)
  have nu: "\<not> n < 2 + ul + 1" using assms(2) n5 by (auto simp: auth_check_def ul_def Let_def)
  have np: "\<not> n < 2 + ul + 1 + pl"
    using assms n5 nu by (auto simp: auth_check_def ul_def pl_def Let_def)
  have up: "str_of (take ul (drop 2 buf)) = c_ProxyUser cfg"
      "str_of (take pl (drop (2 + ul + 1) buf)) = c_ProxyPass cfg"
    using assms n5 nu np by (auto simp: auth_check_def ul_def pl_def Let_def)
  have U: "bytes_of (c_ProxyUser cfg) = take ul (drop 2 buf)"
    and P: "bytes_of (c_ProxyPass cfg) = take pl (drop (2 + ul + 1) buf)"
    using up by (metis bytes_of_str_of)+
  have lU: "length (c_ProxyUser cfg) = ul" "length (c_ProxyPass cfg) = pl"
    using arg_cong [OF U, of length] arg_cong [OF P, of length] nu np assms(1) by simp_all
  have small: "ul \<le> 255" "pl \<le> 255"
    using unsigned_less [of "buf ! 1", where 'a = nat] unsigned_less [of "buf ! (2 + ul)", where 'a = nat]
    by (simp_all add: ul_def pl_def)
  have w: "of_nat ul = buf ! 1" "of_nat pl = buf ! (2 + ul)" by (simp_all add: ul_def pl_def)
  have "take n buf = take (2 + ul + 1 + pl) buf @ drop (2 + ul + 1 + pl) (take n buf)"
    using np by (metis append_take_drop_id min_absorb1 not_less take_take)
  also have "take (2 + ul + 1 + pl) buf =
      [buf ! 0, buf ! 1] @ take ul (drop 2 buf) @ [buf ! (2 + ul)] @ take pl (drop (2 + ul + 1) buf)"
  proof -
    have "take 2 buf = [buf ! 0, buf ! 1]"
      using assms(1) n5 by (cases buf; cases "tl buf") auto
    moreover have "take (2 + ul + 1) buf = take (2 + ul) buf @ [buf ! (2 + ul)]"
      using assms(1) nu take_Suc_conv_app_nth [of "2 + ul" buf] by simp
    moreover have "take (2 + ul + 1 + pl) buf = take (2 + ul + 1) buf @ take pl (drop (2 + ul + 1) buf)"
      "take (2 + ul) buf = take 2 buf @ take ul (drop 2 buf)"
      by (rule take_add)+
    ultimately show ?thesis by simp
  qed
  finally show ?thesis using U P lU small w n5 by auto
qed

lemma authenticate_True:
  assumes "c_ProxyUser cfg \<noteq> []" and "c_ProxyPass cfg \<noteq> []" and "length buf = 258"
    and "authenticate cfg c buf = (Ok (True, buf', c') :: (string, bool \<times> byte list \<times> conn) res)"
  shows "\<exists>a c2. conn_read c 258 = (Some a, c2) \<and> (\<exists>extra. a =
      [1, of_nat (length (c_ProxyUser cfg))] @ bytes_of (c_ProxyUser cfg) @
      [of_nat (length (c_ProxyPass cfg))] @ bytes_of (c_ProxyPass cfg) @ extra)
    \<and> length (c_ProxyUser cfg) \<le> 255 \<and> length (c_ProxyPass cfg) \<le> 255"
proof -
  obtain r buf1 c1 where rd: "read_into (send c [5, 2]) buf = ((r, buf1), c1)"
    by (metis prod.exhaust)
  obtain n where n: "r = Some n"
    using assms rd by (cases r) (auto simp: authenticate_def)
  have le: "n \<le> length buf1" and cr: "conn_read (send c [5, 2]) 258 = (Some (take n buf1), c1)"
    using read_into_Some [of "send c [5, 2]" buf n buf1 c1] rd n assms(3) by simp_all
  obtain ok where ok: "auth_check cfg n buf1 = (Ok ok :: (string, bool) res)"
    using auth_check_ok [OF le] by blast
  have "ok" using assms(1,2,4) rd n ok by (cases ok) (auto simp: authenticate_def)
  have "fst (conn_read c 258) = Some (take n buf1)"
    using cr by (auto simp: conn_read_def split: if_splits list.splits arrival.splits)
  then obtain c2 where "conn_read c 258 = (Some (take n buf1), c2)" by (metis prod.collapse)
  with auth_check_True [OF le] ok \<open>ok\<close> show ?thesis by fastforce
qed


lemma dialed_credentials:
  assumes "c_ProxyUser (s_cfg s) \<noteq> []" and "c_ProxyPass (s_cfg s) \<noteq> []"
    and "handleConnection dial s m picker c = Ok h" and "h_dialed h \<noteq> []"
  shows "\<exists>g c1 c2 extra. conn_read c 258 = (Some g, c1) \<and> conn_read c1 258 =
    (Some ([1, of_nat (length (c_ProxyUser (s_cfg s)))] @ bytes_of (c_ProxyUser (s_cfg s)) @
       [of_nat (length (c_ProxyPass (s_cfg s)))] @ bytes_of (c_ProxyPass (s_cfg s)) @ extra), c2)"
proof -
  obtain r buf c1 where rd: "read_into c (replicate 258 0) = ((r, buf), c1)"
    by (metis prod.exhaust)
  have l: "length buf = 258" using read_into_length [OF rd] by simp
  obtain go buf1 c2 where a: "authenticate (s_cfg s) c1 buf = Ok (go, buf1, c2)"
    using authenticate_ok [OF l] by blast
  obtain n where n: "r = Some n" and "go"
    using assms(3,4) rd a by (cases r; cases go) (auto simp: handleConnection_def hang_up_def split: if_splits)
  have "conn_read c 258 = (Some (take n buf), c1)"
    using read_into_Some(3) [of c "replicate 258 0" n buf c1] rd n by simp
  moreover have "authenticate (s_cfg s) c1 buf = Ok (True, buf1, c2)" using a \<open>go\<close> by simp
  ultimately show ?thesis using authenticate_True [OF assms(1,2) l] by blast
qed

text \<open>
  C3. With a proxy user and password configured, no backend is dialled unless the client's second
  message carries exactly these credentials in the RFC 1929 form (anything after the password in the
  same message is ignored).
\<close>

theorem no_backend_without_credentials:
  assumes "c_ProxyUser (s_cfg s) \<noteq> []" and "c_ProxyPass (s_cfg s) \<noteq> []"
    and "handleConnection dial s m picker c = Ok h" and "h_dialed h \<noteq> []"
  shows "\<exists>g c1 c2 extra. conn_read c 258 = (Some g, c1) \<and> conn_read c1 258 =
    (Some ([1, of_nat (length (c_ProxyUser (s_cfg s)))] @ bytes_of (c_ProxyUser (s_cfg s)) @
       [of_nat (length (c_ProxyPass (s_cfg s)))] @ bytes_of (c_ProxyPass (s_cfg s)) @ extra), c2)"
  using dialed_credentials [OF assms] .

definition cred_cfg :: config where
  "cred_cfg = (Load (\<lambda>_ _ _. 0) (\<lambda>_. []))\<lparr>c_ProxyUser := ''joe'', c_ProxyPass := ''pw''\<rparr>"

definition up_manager :: manager where
  "up_manager =
     (NewManager ''/c'' 10001)\<lparr>m_tunnels := [0],
       m_heap := [\<lparr>t_Name = ''de-1'', t_ConfigPath = ''/c/de-1.conf'', t_ProxyPort = 10001,
         t_Status = StatusRunning, t_Latency = 0, t_LastCheck = None, t_StartedAt = None,
         t_Error = [], t_Country = ''DE'', t_ExitIP = [], t_BytesIn = 0, t_BytesOut = 0,
         t_ConnCount = 0, t_cmd = Some 7, t_tmpConf = [], t_done = Some 0\<rparr>]\<rparr>"

definition joe_client :: conn where
  "joe_client = \<lparr>rx = [Chunk [5, 1, 2], Chunk [1, 3, 106, 111, 101, 2, 112, 119],
      Chunk [5, 1, 0, 1, 1, 2, 3, 4, 0, 80]], tx = [], quota = None, is_open = True\<rparr>"

definition joe_handled :: handled where
  "joe_handled = (case handleConnection (\<lambda>_. None) (NewServer [] cred_cfg) up_manager None joe_client of
     Ok h \<Rightarrow> h)"

theorem no_backend_without_credentials_witness:
  "h_dialed joe_handled = [''127.0.0.1:10001''] \<and>
   (\<exists>g c1 c2 extra. conn_read joe_client 258 = (Some g, c1) \<and>
      conn_read c1 258 = (Some ([1, 3] @ bytes_of ''joe'' @ [2] @ bytes_of ''pw'' @ extra), c2))"
proof -
  have d: "h_dialed joe_handled = [''127.0.0.1:10001'']"
    unfolding joe_handled_def by code_simp
  have ok: "handleConnection (\<lambda>_. None) (NewServer [] cred_cfg) up_manager None joe_client = Ok joe_handled"
    using handleConnection_ends_cleanly [of "\<lambda>_. None" "NewServer [] cred_cfg" up_manager None joe_client]
    by (auto simp: joe_handled_def)
  have "c_ProxyUser (s_cfg (NewServer [] cred_cfg)) = ''joe''"
    "c_ProxyPass (s_cfg (NewServer [] cred_cfg)) = ''pw''"
    by (simp_all add: NewServer_def cred_cfg_def)
  with no_backend_without_credentials [OF _ _ ok] d show ?thesis by simp
qed

text \<open>
  The 258-byte buffer makes long credentials unusable: RFC 1929 allows 255 bytes each, but with
  more than 255 bytes of user name and password together no client can get through to a backend.
\<close>

theorem long_credentials_lock_everyone_out:
  assumes "c_ProxyUser (s_cfg s) \<noteq> []" and "c_ProxyPass (s_cfg s) \<noteq> []"
    and "255 < length (c_ProxyUser (s_cfg s)) + length (c_ProxyPass (s_cfg s))"
    and "handleConnection dial s m picker c = Ok h"
  shows "h_dialed h = []"
proof (rule ccontr)
  assume "h_dialed h \<noteq> []"
  then obtain c1 c2 extra where "conn_read c1 258 =
    (Some ([1, of_nat (length (c_ProxyUser (s_cfg s)))] @ bytes_of (c_ProxyUser (s_cfg s)) @
       [of_nat (length (c_ProxyPass (s_cfg s)))] @ bytes_of (c_ProxyPass (s_cfg s)) @ extra), c2)"
    using dialed_credentials [OF assms(1,2,4)] by blast
  from conn_read_le [OF this] assms(3) show False by simp
qed

definition long_cfg :: config where
  "long_cfg = cred_cfg\<lparr>c_ProxyUser := replicate 200 (CHR ''a''),
                       c_ProxyPass := replicate 100 (CHR ''b'')\<rparr>"

definition long_client :: conn where
  "long_client = \<lparr>rx = [Chunk [5, 1, 2],
      Chunk ([1, 200] @ replicate 200 97 @ [100] @ replicate 100 98),
      Chunk [5, 1, 0, 1, 1, 2, 3, 4, 0, 80]], tx = [], quota = None, is_open = True\<rparr>"

theorem long_credentials_lock_everyone_out_witness:
  "\<exists>h. handleConnection (\<lambda>_. None) (NewServer [] long_cfg) up_manager None long_client = Ok h
     \<and> h_dialed h = []"
proof -
  obtain h where h:
    "handleConnection (\<lambda>_. None) (NewServer [] long_cfg) up_manager None long_client = Ok h"
    using handleConnection_ends_cleanly
      [of "\<lambda>_. None" "NewServer [] long_cfg" up_manager None long_client] by blast
  have "c_ProxyUser (s_cfg (NewServer [] long_cfg)) = replicate 200 (CHR ''a'')"
    "c_ProxyPass (s_cfg (NewServer [] long_cfg)) = replicate 100 (CHR ''b'')"
    by (simp_all add: NewServer_def long_cfg_def)
  then have "h_dialed h = []"
    by (intro long_credentials_lock_everyone_out [OF _ _ _ h]) simp_all
  with h show ?thesis by blast
qed

section \<open>What is sent\<close>

text \<open>A client that sends greeting \<open>g\<close>, then request \<open>req\<close>, then what \<open>rest\<close> holds.\<close>

definition socks_client :: "conn \<Rightarrow> byte list \<Rightarrow> byte list \<Rightarrow> arrival list \<Rightarrow> bool" where
  "socks_client c g req rest \<longleftrightarrow>
     is_open c \<and> quota c = None \<and> tx c = [] \<and> rx c = Chunk g # Chunk req # rest \<and>
     2 \<le> length g \<and> length g \<le> 258 \<and> g ! 0 = 5 \<and>
     7 \<le> length req \<and> length req \<le> 258 \<and> req ! 0 = 5 \<and> req ! 1 = 1"

text \<open>A backend that accepts the greeting, answers the request with \<open>resp\<close>, then sends \<open>rest\<close>.\<close>

definition socks_backend :: "conn \<Rightarrow> byte list \<Rightarrow> arrival list \<Rightarrow> bool" where
  "socks_backend b resp rest \<longleftrightarrow>
     is_open b \<and> quota b = None \<and> tx b = [] \<and> rx b = Chunk [5, 0] # Chunk resp # rest \<and>
     2 \<le> length resp \<and> length resp \<le> 256 \<and> resp ! 1 = 0"

lemma use_backend_success:
  assumes "socks_backend b resp brest" and c: "is_open c" "quota c = None"
    and h: "h = use_backend s m c req addr i b"
  shows "h_server h = s \<and> h_dialed h = [addr] \<and> tx (h_client h) = tx c @ reply 0 @ stream_of brest
    \<and> (\<exists>b'. h_backend h = Some b' \<and> tx b' = [5, 1, 0] @ req @ avail c)
    \<and> h_manager h = upd (upd m i (\<lambda>t. t\<lparr>t_ConnCount := s64 (t_ConnCount t + 1)\<rparr>)) i
          (\<lambda>t. t\<lparr>t_BytesOut := s64 (t_BytesOut t + int (length (avail c))),
                 t_BytesIn := s64 (t_BytesIn t + int (length (stream_of brest)))\<rparr>)"
proof -
  have b: "is_open b" "quota b = None" "rx b = Chunk [5, 0] # Chunk resp # brest" "tx b = []"
    and resp: "2 \<le> length resp" "length resp \<le> 256" "resp ! 1 = 0"
    using assms(1) by (simp_all add: socks_backend_def)
  define b1 where "b1 = b\<lparr>tx := tx b @ [5, 1, 0]\<rparr>"
  define b2 where "b2 = b1\<lparr>rx := Chunk resp # brest, tx := tx b @ [5, 1, 0] @ req\<rparr>"
  define b3 where "b3 = b2\<lparr>rx := brest\<rparr>"
  have "conn_write b [5, 1, 0] = ((3, True), b1)"
    using b by (simp add: conn_write_def b1_def)
  moreover have "read_into b1 [0, 0] = ((Some 2, [5, 0]), b1\<lparr>rx := Chunk resp # brest\<rparr>)"
    using b read_into_Chunk [of b1 "[5, 0]" "Chunk resp # brest" "[0, 0]"] by (simp add: b1_def)
  ultimately have hs: "backendHandshake b req = (True, b2)"
    using b by (simp add: backendHandshake_def conn_write_def b2_def b1_def)
  have rd: "read_into b2 (replicate 256 0)
      = ((Some (length resp), resp @ drop (length resp) (replicate 256 0)), b3)"
    using b resp read_into_Chunk [of b2 resp brest "replicate 256 0"]
    by (simp add: b2_def b1_def b3_def)
  have bad: "\<not> ((resp @ drop (length resp) (replicate 256 0)) ! 1 \<noteq> 0)"
    using resp by (simp add: nth_append)
  define c1 where "c1 = send c (reply 0)"
  have c1: "is_open c1" "quota c1 = None" "tx c1 = tx c @ reply 0" "avail c1 = avail c"
    using c by (simp_all add: c1_def)
  have b3: "is_open b3" "quota b3 = None" "tx b3 = tx b @ [5, 1, 0] @ req" "rx b3 = brest"
    using b by (simp_all add: b3_def b2_def b1_def)
  obtain n c2 b4 where up: "io_copy b3 c1 = (n, c2, b4)" by (metis prod.exhaust)
  obtain k b5 c3 where down: "io_copy c2 b4 = (k, b5, c3)" by (metis prod.exhaust)
  have u: "n = length (avail c)" "tx b4 = tx b3 @ avail c" "rx b4 = brest" "is_open b4"
    "tx c2 = tx c1" "quota c2 = None" "is_open c2"
    using copy_loop_result [of c1 b3 0 n c2 b4] up b3 c1 by (simp_all add: io_copy_def)
  have d: "k = length (stream_of brest)" "tx c3 = tx c2 @ stream_of brest" "is_open c3"
    "tx b5 = tx b4"
    using copy_loop_result [of b4 c2 0 k b5 c3] down u by (simp_all add: io_copy_def avail_def)
  have "h = hang_up s
      (upd (upd m i (\<lambda>t. t\<lparr>t_ConnCount := s64 (t_ConnCount t + 1)\<rparr>)) i
          (\<lambda>t. t\<lparr>t_BytesOut := s64 (t_BytesOut t + int n),
                 t_BytesIn := s64 (t_BytesIn t + int k)\<rparr>)) c3 [addr] (Some b5)"
    using hs rd bad resp(1) up down by (simp add: h use_backend_def Let_def relay_def c1_def)
  then show ?thesis
    using u d b3(3) b(4) c1(3) by (simp add: hang_up_def)
qed

lemma pick_for_addr:
  "pick_for m s picker = ((addr, Some i), s1) \<Longrightarrow> addr = backend_addr (tun m i) \<and> addr \<noteq> [] \<and> s_cfg s1 = s_cfg s"
  by (auto simp: pick_for_def pickBackend_def pick_def Let_def backend_addr_def
      split: option.splits prod.splits if_splits)

lemma handleConnection_request:
  assumes "c_ProxyUser (s_cfg s) = [] \<or> c_ProxyPass (s_cfg s) = []" and "socks_client c g req rest"
    and "pick_for m s picker = ((addr, Some i), s1)"
  shows "\<exists>c1. handleConnection dial s m picker c =
      Ok (case dial addr of None \<Rightarrow> hang_up s1 m (send c1 (reply 1)) [addr] None
          | Some b \<Rightarrow> use_backend s1 m c1 req addr i b)
    \<and> is_open c1 \<and> quota c1 = None \<and> tx c1 = [5, 0] \<and> avail c1 = stream_of rest"
proof -
  define buf where "buf = g @ drop (length g) (replicate 258 (0 :: byte))"
  define ca where "ca = c\<lparr>rx := Chunk req # rest\<rparr>"
  have rd: "read_into c (replicate 258 0) = ((Some (length g), buf), ca)"
    using assms(2) read_into_Chunk [of c g "Chunk req # rest" "replicate 258 0"]
    by (simp add: socks_client_def buf_def ca_def)
  have buf: "length buf = 258" "buf ! 0 = 5"
    using assms(2) by (auto simp: socks_client_def buf_def nth_append)
  define cb where "cb = send ca [5, 0]"
  have cb: "is_open cb" "quota cb = None" "tx cb = [5, 0]" "rx cb = Chunk req # rest"
    using assms(2) by (simp_all add: socks_client_def cb_def ca_def)
  have au: "authenticate (s_cfg s) ca buf = Ok (True, buf, cb)"
    using assms(1) by (auto simp: authenticate_def cb_def)
  define buf1 where "buf1 = req @ drop (length req) buf"
  define c1 where "c1 = cb\<lparr>rx := rest\<rparr>"
  have rd1: "read_into cb buf = ((Some (length req), buf1), c1)"
    using cb assms(2) buf(1) read_into_Chunk [of cb req rest buf]
    by (simp add: socks_client_def buf1_def c1_def)
  have req: "take (length req) buf1 = req" "7 \<le> length req" "buf1 ! 0 = 5" "buf1 ! 1 = 1"
    using assms(2) by (auto simp: socks_client_def buf1_def nth_append)
  obtain t where t: "parseTarget req = Ok t" using parseTarget_ok by blast
  have "addr \<noteq> []" using pick_for_addr [OF assms(3)] by blast
  then have "serve_request dial s m picker cb buf =
      Ok (case dial addr of None \<Rightarrow> hang_up s1 m (send c1 (reply 1)) [addr] None
          | Some b \<Rightarrow> use_backend s1 m c1 req addr i b)"
    using rd1 req t assms(3)
    by (simp add: serve_request_def Let_def split: option.splits)
  then have "handleConnection dial s m picker c =
      Ok (case dial addr of None \<Rightarrow> hang_up s1 m (send c1 (reply 1)) [addr] None
          | Some b \<Rightarrow> use_backend s1 m c1 req addr i b)"
    using rd buf au assms(2) by (simp add: handleConnection_def socks_client_def)
  moreover have "is_open c1 \<and> quota c1 = None \<and> tx c1 = [5, 0] \<and> avail c1 = stream_of rest"
    using cb by (simp add: c1_def avail_def)
  ultimately show ?thesis by blast
qed


definition open_server :: server where
  "open_server = NewServer '':1080'' (Load (\<lambda>_ _ _. 0) (\<lambda>_. []))"

definition anon_client :: conn where
  "anon_client = \<lparr>rx = [Chunk [5, 1, 0], Chunk [5, 1, 0, 1, 1, 2, 3, 4, 0, 80], Chunk [71, 69, 84]],
     tx = [], quota = None, is_open = True\<rparr>"

definition two_part_backend :: conn where
  "two_part_backend = \<lparr>rx = [Chunk [5, 0], Chunk [5, 0, 0, 1, 0, 0, 0, 0, 0, 0], Chunk [104, 105]],
     tx = [], quota = None, is_open = True\<rparr>"

definition one_part_backend :: conn where
  "one_part_backend = \<lparr>rx = [Chunk [5, 0], Chunk [5, 0, 0, 1, 0, 0, 0, 0, 0, 0, 104, 105]],
     tx = [], quota = None, is_open = True\<rparr>"

lemma demo_session_facts:
  "c_ProxyUser (s_cfg open_server) = []"
  "socks_client anon_client [5, 1, 0] [5, 1, 0, 1, 1, 2, 3, 4, 0, 80] [Chunk [71, 69, 84]]"
  "pick_for up_manager open_server None =
     ((''127.0.0.1:10001'', Some 0), open_server\<lparr>s_counter := 1\<rparr>)"
  "socks_backend two_part_backend [5, 0, 0, 1, 0, 0, 0, 0, 0, 0] [Chunk [104, 105]]"
  "socks_backend one_part_backend [5, 0, 0, 1, 0, 0, 0, 0, 0, 0, 104, 105] []"
  "length (m_heap up_manager) = 1"
proof -
  have "backend_addr (tun up_manager 0) = ''127.0.0.1:10001''" by code_simp
  then show "pick_for up_manager open_server None =
     ((''127.0.0.1:10001'', Some 0), open_server\<lparr>s_counter := 1\<rparr>)"
    by (simp add: pick_for_def pickBackend_def healthy_def GetTunnels_def IsHealthy_def
        up_manager_def open_server_def NewServer_def)
qed (simp_all add: open_server_def NewServer_def Load_def envOrDefault_def socks_client_def
    anon_client_def socks_backend_def two_part_backend_def one_part_backend_def up_manager_def)


text \<open>
  The success reply is read with one \<^verbatim>\<open>Read\<close> of 256 bytes and dropped, so what the client gets
  depends on how the network cuts the backend's bytes: two backends that send the same bytes, one
  with the reply in a packet of its own and one with reply and data in one packet, give the client
  all the data and none of it.
\<close>

theorem data_in_the_reply_packet_is_lost:
  "avail two_part_backend = avail one_part_backend \<and>
   (\<exists>h1 h2. handleConnection (\<lambda>_. Some two_part_backend) open_server up_manager None anon_client = Ok h1
     \<and> handleConnection (\<lambda>_. Some one_part_backend) open_server up_manager None anon_client = Ok h2
     \<and> tx (h_client h1) = [5, 0] @ reply 0 @ [104, 105] \<and> tx (h_client h2) = [5, 0] @ reply 0)"
proof -
  note f = demo_session_facts
  have same: "avail two_part_backend = avail one_part_backend"
    by (simp add: avail_def two_part_backend_def one_part_backend_def)
  have auth: "c_ProxyUser (s_cfg open_server) = [] \<or> c_ProxyPass (s_cfg open_server) = []"
    using f(1) by simp
  have run: "\<exists>h. handleConnection (\<lambda>_. Some b) open_server up_manager None anon_client = Ok h
      \<and> tx (h_client h) = [5, 0] @ reply 0 @ stream_of brest" if sb: "socks_backend b resp brest"
    for b resp brest
  proof -
    obtain c1 where c1: "handleConnection (\<lambda>_. Some b) open_server up_manager None anon_client =
        Ok (use_backend (open_server\<lparr>s_counter := 1\<rparr>) up_manager c1
              [5, 1, 0, 1, 1, 2, 3, 4, 0, 80] ''127.0.0.1:10001'' 0 b)"
      "is_open c1" "quota c1 = None" "tx c1 = [5, 0]"
      using handleConnection_request [OF auth f(2,3), of "\<lambda>_. Some b"] by auto
    moreover have "tx (h_client (use_backend (open_server\<lparr>s_counter := 1\<rparr>) up_manager c1
              [5, 1, 0, 1, 1, 2, 3, 4, 0, 80] ''127.0.0.1:10001'' 0 b)) =
        tx c1 @ reply 0 @ stream_of brest"
      using use_backend_success [OF sb c1(2,3) refl] by blast
    ultimately show ?thesis by simp
  qed
  show ?thesis using same run [OF f(4)] run [OF f(5)] by auto
qed

section \<open>The replies a client can see\<close>

lemma use_backend_tx:
  assumes "is_open c" and "quota c = None"
  shows "\<exists>d. tx (h_client (use_backend s m c req addr i b)) = tx c @ reply 1
     \<or> tx (h_client (use_backend s m c req addr i b)) = tx c @ reply 0 @ d"
proof -
  obtain ok b1 where hs: "backendHandshake b req = (ok, b1)" by (metis prod.exhaust)
  obtain r resp b2 where rd: "read_into b1 (replicate 256 0) = ((r, resp), b2)"
    by (metis prod.exhaust)
  define c1 where "c1 = send c (reply 0)"
  have c1: "is_open c1" "quota c1 = None" "tx c1 = tx c @ reply 0" using assms by (simp_all add: c1_def)
  obtain n c2 b3 where up: "io_copy b2 c1 = (n, c2, b3)" by (metis prod.exhaust)
  obtain k b4 c3 where down: "io_copy c2 b3 = (k, b4, c3)" by (metis prod.exhaust)
  show ?thesis
  proof (cases "ok \<and> \<not> (r = None \<or> the r < 2 \<or> resp ! 1 \<noteq> 0)")
    case False
    then show ?thesis using assms hs rd
      by (cases ok) (auto simp: use_backend_def hang_up_def)
  next
    case True
    have c2: "is_open c2" "quota c2 = None" "tx c2 = tx c1"
      using copy_loop_keeps_src [of c1 b2 0 n c2 b3] up c1 by (simp_all add: io_copy_def)
    then have "tx c3 = tx c2 @ avail b3"
      using copy_loop_result [of b3 c2 0 k b4 c3] down by (simp add: io_copy_def)
    then have "tx (h_client (use_backend s m c req addr i b)) = tx c @ reply 0 @ avail b3"
      using True hs rd up down c1 c2
      by (auto simp: use_backend_def hang_up_def relay_def Let_def c1_def [symmetric])
    then show ?thesis by blast
  qed
qed

lemma serve_request_tx:
  assumes "is_open c" and "quota c = None" and "serve_request dial s m picker c buf = Ok h"
  shows "tx (h_client h) = tx c @ reply 7 \<or> tx (h_client h) = tx c @ reply 1
    \<or> (\<exists>d. tx (h_client h) = tx c @ reply 0 @ d \<and> h_dialed h \<noteq> [])"
proof -
  obtain r buf1 c1 where rd: "read_into c buf = ((r, buf1), c1)" by (metis prod.exhaust)
  have c1: "is_open c1" "quota c1 = None" "tx c1 = tx c" using read_into_keeps [OF rd] assms by simp_all
  obtain t where t: "parseTarget (take (the r) buf1) = Ok t" using parseTarget_ok by blast
  obtain addr i s1 where p: "pick_for m s picker = ((addr, i), s1)" by (metis prod.exhaust)
  consider (bad) "h = hang_up s m (send c1 (reply 7)) [] None"
    | (none) d where "h = hang_up s1 m (send c1 (reply 1)) d None"
    | (use) b where "h = use_backend s1 m c1 (take (the r) buf1) addr (the i) b"
    using assms(3) rd t p
    by (auto simp: serve_request_def Let_def split: if_splits option.splits)
  then show ?thesis
  proof cases
    case bad
    then show ?thesis using c1 by (simp add: hang_up_def)
  next
    case none
    then show ?thesis using c1 by (simp add: hang_up_def)
  next
    case use
    have "h_dialed h \<noteq> []" unfolding use
      by (simp add: use_backend_def hang_up_def Let_def split: prod.splits bool.splits)
    then show ?thesis
      using use_backend_tx [OF c1(1,2), of s1 m "take (the r) buf1" addr "the i" b] c1(3) use by auto
  qed
qed

lemma authenticate_tx:
  assumes "is_open c" and "quota c = None" and "authenticate cfg c buf = Ok (go, buf', c')"
  defines "creds \<equiv> c_ProxyUser cfg \<noteq> [] \<and> c_ProxyPass cfg \<noteq> []"
  shows "is_open c' \<and> quota c' = None \<and> (creds \<or> go) \<and>
     tx c' = tx c @ (if creds then if go then [5, 2, 1, 0] else [5, 2, 1, 1] else [5, 0])"
proof (cases creds)
  case True
  obtain r buf1 c1 where rd: "read_into (send c [5, 2]) buf = ((r, buf1), c1)"
    by (metis prod.exhaust)
  have c1: "is_open c1" "quota c1 = None" "tx c1 = tx c @ [5, 2]"
    using read_into_keeps [OF rd] assms(1,2) by simp_all
  show ?thesis
  proof (cases r)
    case None
    then show ?thesis using assms(3) True rd c1 by (auto simp: authenticate_def creds_def)
  next
    case (Some n)
    then have "n \<le> length buf1" using read_into_Some(1,2) rd by metis
    then obtain ok where "auth_check cfg n buf1 = (Ok ok :: (string, bool) res)"
      using auth_check_ok by blast
    then show ?thesis
      using assms(3) True rd c1 Some by (cases ok) (auto simp: authenticate_def creds_def)
  qed
next
  case False
  then show ?thesis using assms by (auto simp: authenticate_def)
qed

text \<open>
  Whatever a client sends, what it is sent back is one of: nothing; a refused authentication; or
  the accepted method choice followed by the reply 7, by the failure reply 1, or by the success
  reply and relayed data, the last only after a backend was dialled.
\<close>

theorem client_transcript:
  assumes "is_open c" and "quota c = None" and "tx c = []"
    and "handleConnection dial s m picker c = Ok h"
  defines "creds \<equiv> c_ProxyUser (s_cfg s) \<noteq> [] \<and> c_ProxyPass (s_cfg s) \<noteq> []"
  shows "tx (h_client h) = [] \<or> creds \<and> tx (h_client h) = [5, 2, 1, 1] \<or>
    (let chosen = (if creds then [5, 2, 1, 0] else [5, 0]) in
       tx (h_client h) = chosen @ reply 7 \<or> tx (h_client h) = chosen @ reply 1
       \<or> (\<exists>d. tx (h_client h) = chosen @ reply 0 @ d \<and> h_dialed h \<noteq> []))"
proof -
  obtain r buf c1 where rd: "read_into c (replicate 258 0) = ((r, buf), c1)"
    by (metis prod.exhaust)
  have l: "length buf = 258" using read_into_length [OF rd] by simp
  have c1: "is_open c1" "quota c1 = None" "tx c1 = []" using read_into_keeps [OF rd] assms by simp_all
  obtain go buf1 c2 where au: "authenticate (s_cfg s) c1 buf = Ok (go, buf1, c2)"
    using authenticate_ok [OF l] by blast
  have c2: "is_open c2 \<and> quota c2 = None \<and>
      tx c2 = (if creds then if go then [5, 2, 1, 0] else [5, 2, 1, 1] else [5, 0]) \<and> (creds \<or> go)"
    using authenticate_tx [OF c1(1,2) au] c1(3) by (simp add: creds_def)
  consider (early) "tx (h_client h) = []"
    | (refused) "\<not> go" "tx (h_client h) = tx c2"
    | (served) "go" "serve_request dial s m picker c2 buf1 = Ok h"
    using assms(4) rd au c1 by (auto simp: handleConnection_def hang_up_def split: if_splits)
  then show ?thesis
  proof cases
    case served
    then show ?thesis using serve_request_tx [of c2 dial s m picker buf1 h] c2 by (auto simp: Let_def)
  qed (use c2 in auto)
qed

theorem client_transcript_witness:
  "\<exists>h. handleConnection (\<lambda>_. None) open_server up_manager None anon_client = Ok h \<and>
    (tx (h_client h) = [] \<or>
     tx (h_client h) = [5, 0] @ reply 7 \<or> tx (h_client h) = [5, 0] @ reply 1
     \<or> (\<exists>d. tx (h_client h) = [5, 0] @ reply 0 @ d \<and> h_dialed h \<noteq> []))"
proof -
  obtain h where h: "handleConnection (\<lambda>_. None) open_server up_manager None anon_client = Ok h"
    using handleConnection_ends_cleanly by blast
  have "is_open anon_client" "quota anon_client = None" "tx anon_client = []"
    by (simp_all add: anon_client_def)
  from client_transcript [OF this h] h demo_session_facts(1) show ?thesis by simp
qed

end
