(* ===== verification/Proxy_Balance.thy ===== *)
theory Proxy_Balance
  imports Proxy
begin

text \<open>
  The choice of backends as a round-robin (two interpretations of the contract in theory
  \<open>Round_Robin\<close>), the country proxies and their ports, the accept loop, and the printing of request
  targets.
\<close>

section \<open>The two pickers are round-robins\<close>

lemma healthy_mem: "i \<in> set (healthy m ts) \<longleftrightarrow> i \<in> set ts \<and> IsHealthy (tun m i)"
  by (auto simp: healthy_def)

definition server_pick :: "manager \<Rightarrow> server \<Rightarrow> nat option \<times> server" where
  "server_pick m s = (case pickBackend m s of ((_, t), s') \<Rightarrow> (t, s'))"

definition country_pick :: "manager \<Rightarrow> country_proxy \<Rightarrow> nat option \<times> country_proxy" where
  "country_pick m p = (case pick m p of ((_, t), p') \<Rightarrow> (t, p'))"

interpretation sp: round_robin "server_pick m" "\<lambda>s. healthy m (GetTunnels m)" s_counter "2 ^ 64" for m
  by unfold_locales (simp_all add: server_pick_def pickBackend_def Let_def)

interpretation cp: round_robin "country_pick m" "\<lambda>p. healthy m (cp_tunnels p)" cp_counter "2 ^ 64" for m
  by unfold_locales (simp_all add: country_pick_def pick_def Let_def)

text \<open>The tunnels of several connections in a row, while no status changes.\<close>

fun pickBackends :: "nat \<Rightarrow> manager \<Rightarrow> server \<Rightarrow> nat option list" where
  "pickBackends 0 m s = []"
| "pickBackends (Suc n) m s = (case pickBackend m s of ((_, t), s') \<Rightarrow> t # pickBackends n m s')"

fun country_picks :: "nat \<Rightarrow> manager \<Rightarrow> country_proxy \<Rightarrow> nat option list" where
  "country_picks 0 m p = []"
| "country_picks (Suc n) m p = (case pick m p of ((_, t), p') \<Rightarrow> t # country_picks n m p')"

lemma pickBackends_picks: "pickBackends n m s = sp.picks m n s"
  by (induction n arbitrary: s) (simp_all add: server_pick_def split: prod.splits)

lemma country_picks_picks: "country_picks n m p = cp.picks m n p"
  by (induction n arbitrary: p) (simp_all add: country_pick_def split: prod.splits)

text \<open>A tunnel that is not healthy is not chosen, by the proxy or by a country proxy.\<close>

lemma unhealthy_not_picked:
  assumes "\<not> IsHealthy (tun m i)"
  shows "Some i \<notin> set (pickBackends n m s)" and "Some i \<notin> set (country_picks n m p)"
  using sp.picks_mem [of i m n s] cp.picks_mem [of i m n p] assms
  by (auto simp: pickBackends_picks country_picks_picks healthy_mem)

text \<open>
  C21. Connections are spread evenly: over \<open>k\<close> rounds of as many connections as there are healthy
  tunnels, every healthy tunnel is chosen exactly \<open>k\<close> times and no other tunnel is chosen, until the
  64-bit counter wraps.
\<close>

theorem backends_chosen_evenly:
  assumes "healthy m (GetTunnels m) \<noteq> []"
    and "unat (s_counter s) + k * length (healthy m (GetTunnels m)) \<le> 2 ^ 64"
  shows "mset (pickBackends (k * length (healthy m (GetTunnels m))) m s) =
    repeat_mset k (mset (map Some (healthy m (GetTunnels m))))"
  using sp.picks_fair [OF assms] by (simp add: pickBackends_picks)

text \<open>
  What a picker returns is a healthy tunnel of its list with that tunnel's address, and it
  returns none exactly when no tunnel of the list is healthy.
\<close>

theorem pick_returns_a_healthy_tunnel:
  "(case pick_for m s picker of
      ((addr, t), s') \<Rightarrow>
        (let ts = (case picker of None \<Rightarrow> GetTunnels m | Some k \<Rightarrow> cp_tunnels (s_countryListeners s ! k)) in
         case t of
           None \<Rightarrow> addr = [] \<and> s' = s \<and> healthy m ts = []
         | Some i \<Rightarrow> i \<in> set ts \<and> IsHealthy (tun m i) \<and> addr = ''127.0.0.1:'' @ show_int (t_ProxyPort (tun m i))))"
proof (cases picker)
  case None
  let ?hs = "healthy m (GetTunnels m)"
  have "?hs \<noteq> [] \<Longrightarrow> ?hs ! (unat (s_counter s) mod length ?hs) \<in> set ?hs" by simp
  then show ?thesis
    using None by (auto simp: pick_for_def pickBackend_def Let_def backend_addr_def healthy_mem)
next
  case (Some k)
  let ?p = "s_countryListeners s ! k"
  let ?hs = "healthy m (cp_tunnels ?p)"
  have "?hs \<noteq> [] \<Longrightarrow> ?hs ! (unat (cp_counter ?p) mod length ?hs) \<in> set ?hs" by simp
  then show ?thesis
    using Some by (auto simp: pick_for_def pick_def Let_def backend_addr_def healthy_mem)
qed

definition three_tunnels :: manager where
  "three_tunnels =
     (let t = \<lparr>t_Name = ''de-1'', t_ConfigPath = [], t_ProxyPort = 10001,
         t_Status = StatusRunning, t_Latency = 0, t_LastCheck = None, t_StartedAt = None,
         t_Error = [], t_Country = ''DE'', t_ExitIP = [], t_BytesIn = 0, t_BytesOut = 0,
         t_ConnCount = 0, t_cmd = None, t_tmpConf = [], t_done = None\<rparr>
      in (NewManager ''/c'' 10001)\<lparr>m_tunnels := [0, 1, 2],
           m_heap := [t, t\<lparr>t_ProxyPort := 10002, t_Country := ''FR'', t_Status := StatusError\<rparr>,
                      t\<lparr>t_ProxyPort := 10003\<rparr>]\<rparr>)"

theorem backends_chosen_evenly_witness:
  "mset (pickBackends 4 three_tunnels (NewServer [] (Load (\<lambda>_ _ _. 0) (\<lambda>_. [])))) =
     {#Some 0, Some 2, Some 0, Some 2#}"
proof -
  have h: "healthy three_tunnels (GetTunnels three_tunnels) = [0, 2]"
    by (simp add: three_tunnels_def healthy_def GetTunnels_def IsHealthy_def NewManager_def)
  have e: "2 * length [0 :: nat, 2] = 4" by simp
  have r: "repeat_mset 2 (mset (map Some [0 :: nat, 2])) = {#Some 0, Some 2, Some 0, Some 2#}"
    by (simp add: numeral_eq_Suc)
  have "mset (pickBackends (2 * length (healthy three_tunnels (GetTunnels three_tunnels))) three_tunnels
      (NewServer [] (Load (\<lambda>_ _ _. 0) (\<lambda>_. [])))) =
    repeat_mset 2 (mset (map Some (healthy three_tunnels (GetTunnels three_tunnels))))"
    by (rule backends_chosen_evenly) (simp_all add: h NewServer_def)
  then show ?thesis unfolding h e r .
qed

section \<open>Country proxies\<close>

definition of_country :: "manager \<Rightarrow> string \<Rightarrow> nat list \<Rightarrow> nat list" where
  "of_country m c ts = filter (\<lambda>i. t_Country (tun m i) = c) ts"

lemma group_tunnels_map_of:
  "map_of (group_tunnels m g ts) c =
     (if c = [] \<or> of_country m c ts = [] then map_of g c
      else Some ((case map_of g c of None \<Rightarrow> [] | Some l \<Rightarrow> l) @ of_country m c ts))"
proof (induction m g ts rule: group_tunnels.induct)
  case (1 m g)
  then show ?case by (simp add: of_country_def)
next
  case (2 m g i ts)
  show ?case
  proof (cases "t_Country (tun m i) = []")
    case True
    with 2(1) show ?thesis by (auto simp: of_country_def)
  next
    case False
    with 2(2) [OF refl False] show ?thesis
      by (cases "t_Country (tun m i) = c") (auto simp: of_country_def update_conv' split: option.splits)
  qed
qed

lemma group_tunnels_distinct: "distinct (map fst g) \<Longrightarrow> distinct (map fst (group_tunnels m g ts))"
  by (induction m g ts rule: group_tunnels.induct) (simp_all add: Let_def distinct_update)

definition country_listener ::
    "(string \<Rightarrow> string option) \<Rightarrow> int \<Rightarrow> nat \<times> string \<times> nat list \<Rightarrow> country_proxy option" where
  "country_listener listen base e =
     (case e of (j, c, ts) \<Rightarrow>
        if listen ('':'' @ show_int (base + int j)) = None
        then Some \<lparr>cp_port = base + int j, cp_tunnels = ts, cp_counter = 0, cp_open = True\<rparr>
        else None)"

text \<open>The ports are consecutive; a failed listener uses its port up.\<close>

lemma start_countries_result:
  assumes "- (2 ^ 63) \<le> base" and "base + int (n + length g) < 2 ^ 63" and "distinct (map fst g)"
    and s': "s' = start_countries listen s (base + int n) g"
  shows "s_countryListeners s' =
      s_countryListeners s @ List.map_filter (country_listener listen base) (enumerate n g)"
    and "map_of (s_countryMapping s') = (map_of (s_countryMapping s))
      ++ map_of (map (\<lambda>(j, c, ts). (c, base + int j)) (enumerate n g))"
    and "s_cfg s' = s_cfg s" and "s_counter s' = s_counter s"
proof -
  have "s_countryListeners (start_countries listen s (base + int n) g) =
      s_countryListeners s @ List.map_filter (country_listener listen base) (enumerate n g)
    \<and> map_of (s_countryMapping (start_countries listen s (base + int n) g)) =
      (map_of (s_countryMapping s)) ++ map_of (map (\<lambda>(j, c, ts). (c, base + int j)) (enumerate n g))
    \<and> s_cfg (start_countries listen s (base + int n) g) = s_cfg s
    \<and> s_counter (start_countries listen s (base + int n) g) = s_counter s"
    using assms(1-3)
  proof (induction g arbitrary: s n)
    case Nil
    then show ?case by (simp add: List.map_filter_def)
  next
    case (Cons e g)
    obtain c ts where e: "e = (c, ts)" by (cases e)
    define s1 where "s1 = s\<lparr>s_countryMapping := AList.update c (base + int n) (s_countryMapping s)\<rparr>"
    define s2 where "s2 = (case listen ('':'' @ show_int (base + int n)) of
        Some _ \<Rightarrow> s1
      | None \<Rightarrow> s1\<lparr>s_countryListeners := s_countryListeners s @
           [\<lparr>cp_port = base + int n, cp_tunnels = ts, cp_counter = 0, cp_open = True\<rparr>]\<rparr>)"
    have "s64 (base + int n + 1) = base + int (Suc n)"
      using Cons.prems by (simp add: in_s64_def)
    then have step: "start_countries listen s (base + int n) (e # g) =
        start_countries listen s2 (base + int (Suc n)) g"
      by (simp add: e s2_def s1_def Let_def split: option.splits)
    have notin: "c \<notin> set (map fst g)" using Cons.prems(3) e by simp
    have "\<not> (\<exists>j ts. (j, c, ts) \<in> set (enumerate (Suc n) g))"
      using notin by (metis fst_conv image_eqI list.set_map set_zip_rightD enumerate_eq_zip)
    then have none: "map_of (map (\<lambda>(j, c, ts). (c, base + int j)) (enumerate (Suc n) g)) c = None"
      by (auto simp: map_of_eq_None_iff)
    have IH: "s_countryListeners (start_countries listen s2 (base + int (Suc n)) g) =
      s_countryListeners s2 @ List.map_filter (country_listener listen base) (enumerate (Suc n) g)"
      "map_of (s_countryMapping (start_countries listen s2 (base + int (Suc n)) g)) =
      (map_of (s_countryMapping s2)) ++
        map_of (map (\<lambda>(j, c, ts). (c, base + int j)) (enumerate (Suc n) g))"
      "s_cfg (start_countries listen s2 (base + int (Suc n)) g) = s_cfg s2"
      "s_counter (start_countries listen s2 (base + int (Suc n)) g) = s_counter s2"
      using Cons.IH [of "Suc n" s2] Cons.prems by simp_all
    have s2: "s_countryMapping s2 = AList.update c (base + int n) (s_countryMapping s)"
      "s_cfg s2 = s_cfg s" "s_counter s2 = s_counter s"
      by (simp_all add: s2_def s1_def split: option.splits)
    have l2: "s_countryListeners s2 = s_countryListeners s @
        (case country_listener listen base (n, e) of None \<Rightarrow> [] | Some p \<Rightarrow> [p])"
      by (auto simp: s2_def s1_def e country_listener_def split: option.splits)
    have m2: "map_of (s_countryMapping s2) ++ map_of (map (\<lambda>(j, c, ts). (c, base + int j)) (enumerate (Suc n) g))
      = map_of (s_countryMapping s) ++ map_of (map (\<lambda>(j, c, ts). (c, base + int j)) (enumerate n (e # g)))"
      using none by (auto simp: s2 e update_conv' map_add_def fun_eq_iff split: option.splits)
    have "s_countryListeners (start_countries listen s (base + int n) (e # g)) =
      s_countryListeners s @ List.map_filter (country_listener listen base) (enumerate n (e # g))"
      using IH(1) l2 step by (simp add: List.map_filter_def split: option.splits)
    moreover have "map_of (s_countryMapping (start_countries listen s (base + int n) (e # g))) =
      map_of (s_countryMapping s) ++ map_of (map (\<lambda>(j, c, ts). (c, base + int j)) (enumerate n (e # g)))"
      using IH(2) m2 step by (simp only:)
    moreover have "s_cfg (start_countries listen s (base + int n) (e # g)) = s_cfg s"
      "s_counter (start_countries listen s (base + int n) (e # g)) = s_counter s"
      using IH(3,4) s2(2,3) step by simp_all
    ultimately show ?case by (intro conjI)
  qed
  then show "s_countryListeners s' =
      s_countryListeners s @ List.map_filter (country_listener listen base) (enumerate n g)"
    and "map_of (s_countryMapping s') = (map_of (s_countryMapping s))
      ++ map_of (map (\<lambda>(j, c, ts). (c, base + int j)) (enumerate n g))"
    and "s_cfg s' = s_cfg s" and "s_counter s' = s_counter s"
    by (simp_all add: s')
qed


lemma mset_map_of: "mset g = mset h \<Longrightarrow> distinct (map fst h) \<Longrightarrow> map_of g = map_of h"
  by (subst map_of_inject_set) (metis mset_eq_imp_distinct_iff mset_map, assumption, metis set_mset_mset)

text \<open>What \<open>StartCountryProxies\<close> builds, in terms of the order \<open>g\<close> in which the countries come up.\<close>

lemma StartCountryProxies_result:
  fixes listen :: "string \<Rightarrow> string option"
  assumes perm: "mset (perm (group_tunnels m [] (GetTunnels m))) = mset (group_tunnels m [] (GetTunnels m))"
    and base: "c_CountryPortBase (s_cfg s) = base" "- (2 ^ 63) \<le> base"
    and room: "base + int (length (group_tunnels m [] (GetTunnels m))) < 2 ^ 63"
    and fresh: "s_countryMapping s = []" "s_countryListeners s = []"
  defines "g \<equiv> perm (group_tunnels m [] (GetTunnels m))"
    and "s' \<equiv> StartCountryProxies perm listen s m"
  shows "s_countryListeners s' = List.map_filter (country_listener listen base) (enumerate 0 g)"
    and "map_of (s_countryMapping s') c =
      map_of (map (\<lambda>(j, c, ts). (c, base + int j)) (enumerate 0 g)) c"
    and "distinct (map fst g)"
    and "map_of g c = (if c = [] \<or> of_country m c (GetTunnels m) = [] then None
                       else Some (of_country m c (GetTunnels m)))"
proof -
  let ?h = "group_tunnels m [] (GetTunnels m)"
  have dh: "distinct (map fst ?h)" by (rule group_tunnels_distinct) simp
  then show dg: "distinct (map fst g)"
    unfolding g_def by (metis mset_eq_imp_distinct_iff mset_map perm)
  have "length g = length ?h" unfolding g_def using perm by (rule mset_eq_length)
  then have "base + int (0 + length g) < 2 ^ 63" using room by simp
  from start_countries_result [OF base(2) this dg refl, of listen s]
  show "s_countryListeners s' = List.map_filter (country_listener listen base) (enumerate 0 g)"
    and "map_of (s_countryMapping s') c =
      map_of (map (\<lambda>(j, c, ts). (c, base + int j)) (enumerate 0 g)) c"
    using base(1) fresh by (simp_all add: s'_def StartCountryProxies_def g_def)
  have "map_of g = map_of ?h" unfolding g_def by (rule mset_map_of [OF perm dh])
  then show "map_of g c = (if c = [] \<or> of_country m c (GetTunnels m) = [] then None
                       else Some (of_country m c (GetTunnels m)))"
    by (simp add: group_tunnels_map_of)
qed

lemma ex_index_Cons:
  "(\<exists>j ts. j < length (x # g) \<and> (x # g) ! j = (c, ts) \<and> P j) \<longleftrightarrow>
     (\<exists>ts. x = (c, ts)) \<and> P 0 \<or> (\<exists>j ts. j < length g \<and> g ! j = (c, ts) \<and> P (Suc j))"
  by (auto simp: less_Suc_eq_0_disj)

lemma map_of_enumerate:
  "distinct (map fst g) \<Longrightarrow>
     map_of (map (\<lambda>(j, c, ts). (c, f j)) (enumerate n g)) c = Some p \<longleftrightarrow>
     (\<exists>j ts. j < length g \<and> g ! j = (c, ts) \<and> p = f (n + j))"
proof (induction g arbitrary: n)
  case Nil
  then show ?case by simp
next
  case (Cons e g)
  obtain d us where e: "e = (d, us)" by (cases e)
  have d: "d \<notin> fst ` set g" using Cons.prems e by simp
  show ?case
  proof (cases "c = d")
    case True
    have "\<not> (\<exists>j ts. j < length g \<and> g ! j = (d, ts))" using d by (metis fst_conv image_eqI nth_mem)
    then have "(\<exists>j ts. j < length (e # g) \<and> (e # g) ! j = (c, ts) \<and> p = f (n + j)) \<longleftrightarrow> p = f n"
      unfolding ex_index_Cons [where P = "\<lambda>j. p = f (n + j)"] using True e by auto
    then show ?thesis using True e by auto
  next
    case False
    have "(\<exists>j ts. j < length (e # g) \<and> (e # g) ! j = (c, ts) \<and> p = f (n + j)) \<longleftrightarrow>
        (\<exists>j ts. j < length g \<and> g ! j = (c, ts) \<and> p = f (Suc n + j))"
      unfolding ex_index_Cons [where P = "\<lambda>j. p = f (n + j)"] using False e by simp
    then show ?thesis using Cons.IH [of "Suc n"] Cons.prems False e by simp
  qed
qed

text \<open>
  Starting the country proxies gives every country that a tunnel names a port of its own, from
  the configured base upwards, whatever order the countries come up in and whichever listeners fail;
  a country without a tunnel gets none.
\<close>

theorem country_ports_are_distinct:
  fixes listen :: "string \<Rightarrow> string option"
  assumes "mset (perm (group_tunnels m [] (GetTunnels m))) = mset (group_tunnels m [] (GetTunnels m))"
    and "c_CountryPortBase (s_cfg s) = base" and "- (2 ^ 63) \<le> base"
    and "base + int (length (group_tunnels m [] (GetTunnels m))) < 2 ^ 63"
    and "s_countryMapping s = []" and "s_countryListeners s = []"
  defines "ports \<equiv> map_of (GetCountryMapping (StartCountryProxies perm listen s m))"
  shows "dom ports = {t_Country (tun m i) |i. i \<in> set (GetTunnels m)} - {[]}
    \<and> inj_on ports (dom ports)
    \<and> (\<forall>p\<in>ran ports. base \<le> p \<and> p < base + int (length (group_tunnels m [] (GetTunnels m))))"
proof -
  let ?g = "perm (group_tunnels m [] (GetTunnels m))"
  note r = StartCountryProxies_result [where perm = perm and m = m and s = s, OF assms(1-6)]
  have len: "length ?g = length (group_tunnels m [] (GetTunnels m))" by (rule mset_eq_length [OF assms(1)])
  have P: "ports c = Some p \<longleftrightarrow> (\<exists>j ts. j < length ?g \<and> ?g ! j = (c, ts) \<and> p = base + int j)" for c p
    using r(2) [where c = c and listen = listen] map_of_enumerate [OF r(3), of "\<lambda>j. base + int j" 0 c p]
    by (simp add: ports_def GetCountryMapping_def)
  have "c \<in> dom ports \<longleftrightarrow> c \<in> {t_Country (tun m i) |i. i \<in> set (GetTunnels m)} - {[]}" for c
  proof -
    have "c \<in> dom ports \<longleftrightarrow> map_of ?g c \<noteq> None"
      unfolding dom_def using P r(3) by (auto simp: in_set_conv_nth)
    also have "\<dots> \<longleftrightarrow> c \<noteq> [] \<and> of_country m c (GetTunnels m) \<noteq> []" using r(4) [where c = c] by simp
    also have "\<dots> \<longleftrightarrow> c \<in> {t_Country (tun m i) |i. i \<in> set (GetTunnels m)} - {[]}"
      by (auto simp: of_country_def filter_empty_conv)
    finally show ?thesis .
  qed
  moreover have "inj_on ports (dom ports)"
  proof (rule inj_onI)
    fix c d assume "c \<in> dom ports" "d \<in> dom ports" "ports c = ports d"
    then obtain p where "ports c = Some p" "ports d = Some p" by auto
    then show "c = d" unfolding P by auto
  qed
  moreover have "\<forall>p\<in>ran ports. base \<le> p \<and> p < base + int (length (group_tunnels m [] (GetTunnels m)))"
    using P len by (auto simp: ran_def)
  ultimately show ?thesis by blast
qed

theorem country_ports_are_distinct_witness:
  "dom (map_of (GetCountryMapping (StartCountryProxies rev (\<lambda>_. None)
      (NewServer [] (Load (\<lambda>_ _ _. 0) (\<lambda>_. []))) three_tunnels))) =
    {t_Country (tun three_tunnels i) |i. i \<in> set (GetTunnels three_tunnels)} - {[]}"
proof -
  let ?s = "NewServer [] (Load (\<lambda>_ _ _. 0) (\<lambda>_. []))"
  have c: "c_CountryPortBase (s_cfg ?s) = 1081"
    by (simp add: NewServer_def Load_def envOrDefaultInt_def)
  have l: "length (group_tunnels three_tunnels [] (GetTunnels three_tunnels)) = 2"
    by (simp add: three_tunnels_def GetTunnels_def NewManager_def)
  show ?thesis
    using country_ports_are_distinct [of rev three_tunnels ?s 1081 "\<lambda>_. None"] c l
    by (simp add: NewServer_def)
qed

text \<open>
  Behind every listener of the country proxies are exactly the tunnels of one country, in the
  manager's order, on the port the country is mapped to, and a country has a listener exactly when
  listening on its port succeeded; the mapping also lists the ports where it failed.
\<close>

theorem country_listeners:
  fixes listen :: "string \<Rightarrow> string option"
  assumes "mset (perm (group_tunnels m [] (GetTunnels m))) = mset (group_tunnels m [] (GetTunnels m))"
    and "c_CountryPortBase (s_cfg s) = base" and "- (2 ^ 63) \<le> base"
    and "base + int (length (group_tunnels m [] (GetTunnels m))) < 2 ^ 63"
    and "s_countryMapping s = []" and "s_countryListeners s = []"
  defines "s' \<equiv> StartCountryProxies perm listen s m"
  shows "p \<in> set (s_countryListeners s') \<longleftrightarrow>
    (\<exists>c. map_of (GetCountryMapping s') c = Some (cp_port p) \<and> listen ('':'' @ show_int (cp_port p)) = None
       \<and> cp_tunnels p = filter (\<lambda>i. t_Country (tun m i) = c) (GetTunnels m)
       \<and> cp_counter p = 0 \<and> cp_open p)"
proof -
  let ?g = "perm (group_tunnels m [] (GetTunnels m))"
  note r = StartCountryProxies_result [where perm = perm and m = m and s = s, OF assms(1-6)]
  have P: "map_of (GetCountryMapping s') c = Some p \<longleftrightarrow>
      (\<exists>j ts. j < length ?g \<and> ?g ! j = (c, ts) \<and> p = base + int j)" for c p
    using r(2) [where c = c and listen = listen] map_of_enumerate [OF r(3), of "\<lambda>j. base + int j" 0 c p]
    by (simp add: s'_def GetCountryMapping_def)
  have T: "ts = filter (\<lambda>i. t_Country (tun m i) = c) (GetTunnels m)"
    if "j < length ?g" "?g ! j = (c, ts)" for j c ts
  proof -
    have "map_of ?g c = Some ts" using that r(3) by (metis map_of_is_SomeI nth_mem)
    then show ?thesis using r(4) [where c = c] by (auto simp: of_country_def split: if_splits)
  qed
  have L: "p \<in> set (s_countryListeners s') \<longleftrightarrow>
      (\<exists>j c ts. j < length ?g \<and> ?g ! j = (c, ts) \<and> country_listener listen base (j, c, ts) = Some p)"
    unfolding s'_def r(1) in_map_filter
    by (simp add: Bex_def split_paired_Ex in_set_enumerate_eq conj_assoc) (metis prod.exhaust)
  show ?thesis
    unfolding L P using T by (cases p) (auto simp: country_listener_def split: if_splits)
qed

theorem country_listeners_witness:
  "\<lparr>cp_port = 1082, cp_tunnels = [0, 2], cp_counter = 0, cp_open = True\<rparr> \<in>
    set (s_countryListeners (StartCountryProxies rev (\<lambda>_. None)
      (NewServer [] (Load (\<lambda>_ _ _. 0) (\<lambda>_. []))) three_tunnels))"
proof -
  let ?s = "NewServer [] (Load (\<lambda>_ _ _. 0) (\<lambda>_. []))"
  have c: "c_CountryPortBase (s_cfg ?s) = 1081"
    by (simp add: NewServer_def Load_def envOrDefaultInt_def)
  have g: "group_tunnels three_tunnels [] (GetTunnels three_tunnels) = [(''DE'', [0, 2]), (''FR'', [1])]"
    by (simp add: three_tunnels_def GetTunnels_def NewManager_def)
  have e: "s_countryMapping ?s = []" "s_countryListeners ?s = []" by (simp_all add: NewServer_def)
  have m: "map_of (GetCountryMapping (StartCountryProxies rev (\<lambda>_. None) ?s three_tunnels)) ''DE'' = Some 1082"
    using c g e by (simp add: StartCountryProxies_def GetCountryMapping_def in_s64_def)
  have f: "filter (\<lambda>i. t_Country (tun three_tunnels i) = ''DE'') (GetTunnels three_tunnels) = [0, 2]"
    by (simp add: three_tunnels_def GetTunnels_def NewManager_def)
  show ?thesis
    by (subst country_listeners [OF _ c _ _ e]) (use m f g in auto)
qed

section \<open>The accept loop\<close>

text \<open>
  The accept loop ends exactly when \<^verbatim>\<open>Accept\<close> fails after the server was closed; other failures
  are passed over, and every connection accepted up to then is handed on, in order.
\<close>

theorem accept_loop_until_closed:
  "(snd (accept_loop as) \<longleftrightarrow> (\<exists>e. (True, AcceptFailed e) \<in> set as)) \<and>
   fst (accept_loop as) =
     List.map_filter (\<lambda>(_, a). case a of Accepted c \<Rightarrow> Some c | AcceptFailed _ \<Rightarrow> None)
       (takeWhile (\<lambda>(closed, a). \<not> (closed \<and> (\<exists>e. a = AcceptFailed e))) as)"
  by (induction as rule: accept_loop.induct) (auto simp: List.map_filter_def split: prod.splits)

section \<open>Printing the target of a request\<close>

datatype dest = IPv4 byte byte byte byte | Domain string

fun dest_bytes :: "dest \<Rightarrow> byte list" where
  "dest_bytes (IPv4 a b c d) = [1, a, b, c, d]"
| "dest_bytes (Domain n) = [3, of_nat (length n)] @ bytes_of n"

fun dest_text :: "dest \<Rightarrow> string" where
  "dest_text (IPv4 a b c d) =
     show_byte a @ ''.'' @ show_byte b @ ''.'' @ show_byte c @ ''.'' @ show_byte d"
| "dest_text (Domain n) = n"

fun dest_ok :: "dest \<Rightarrow> bool" where
  "dest_ok (IPv4 a b c d) = True"
| "dest_ok (Domain n) = (length n \<le> 255)"

text \<open>
  For a connect request to an IPv4 address or to a domain name of at most 255 bytes the target is
  printed as address or name, colon and port, whatever follows the request in the buffer.
\<close>

theorem parseTarget_request:
  assumes "dest_ok d"
  shows "parseTarget ([5, 1, 0] @ dest_bytes d @ [hi, lo] @ rest) =
    Ok (dest_text d @ '':'' @ show_nat (256 * unat hi + unat lo))"
proof (cases d)
  case (IPv4 a b c e)
  then show ?thesis by (simp add: parseTarget_def port_of_def mult.commute)
next
  case (Domain n)
  let ?buf = "[5, 1, 0] @ dest_bytes d @ [hi, lo] @ rest"
  have l: "unat (of_nat (length n) :: byte) = length n" using assms Domain by (simp add: unat_of_nat)
  have "?buf ! 3 = 3" "?buf ! 4 = of_nat (length n)" using Domain by simp_all
  moreover have "?buf ! (5 + length n) = hi" "?buf ! (5 + length n + 1) = lo"
    using Domain by (simp_all add: nth_append)
  moreover have "take (length n) (drop 5 ?buf) = bytes_of n" using Domain by simp
  moreover have "length ?buf = 5 + length n + 2 + length rest" using Domain by simp
  ultimately show ?thesis
    using Domain l
    by (simp add: parseTarget_def port_of_def mult.commute del: append_Cons append_Nil dest_bytes.simps)
qed

theorem parseTarget_request_witness:
  "parseTarget ([5, 1, 0] @ dest_bytes (Domain ''a.de'') @ [1, 187] @ []) =
     Ok (dest_text (Domain ''a.de'') @ '':'' @ show_nat (256 * 1 + 187))"
  using parseTarget_request [of "Domain ''a.de''" 1 187 "[]"] by simp

end
