(* ===== verification/Retry.thy ===== *)
theory Retry
  imports Proxy
begin

text \<open>
  The retrying SOCKS5 proxy, \<^verbatim>\<open>internal/proxy/retry.go\<close>. The functions \<^verbatim>\<open>goldPool\<close> and \<^verbatim>\<open>backends\<close>
  that the proxy is given are represented by the port lists they return for the connection at hand;
  \<open>dial n\<close> is what dialling an address gives at the \<open>n\<close>-th attempt.
\<close>

section \<open>State\<close>

record retry_proxy =
  rp_addr :: string
  rp_maxRetries :: nat
  rp_listener :: "bool option"
  rp_index :: u64
  rp_conns :: int
  rp_bytesIn :: int
  rp_bytesOut :: int

definition NewRetryProxy :: "string \<Rightarrow> retry_proxy" where
  "NewRetryProxy addr =
     \<lparr>rp_addr = addr, rp_maxRetries = 5, rp_listener = None, rp_index = 0, rp_conns = 0,
      rp_bytesIn = 0, rp_bytesOut = 0\<rparr>"

definition rp_Close :: "retry_proxy \<Rightarrow> retry_proxy" where
  "rp_Close rp = rp\<lparr>rp_listener := map_option (\<lambda>_. False) (rp_listener rp)\<rparr>"

definition Stats :: "retry_proxy \<Rightarrow> int \<times> int \<times> int" where
  "Stats rp = (rp_conns rp, rp_bytesIn rp, rp_bytesOut rp)"

text \<open>Unlike the other proxy's, this accept loop returns at the first error.\<close>

fun rp_accept_loop :: "accept list \<Rightarrow> conn list \<times> string option" where
  "rp_accept_loop [] = ([], None)"
| "rp_accept_loop (AcceptFailed e # as) = ([], Some e)"
| "rp_accept_loop (Accepted c # as) = (case rp_accept_loop as of (cs, r) \<Rightarrow> (c # cs, r))"

definition rp_ListenAndServe ::
    "(string \<Rightarrow> string option) \<Rightarrow> retry_proxy \<Rightarrow> accept list \<Rightarrow>
       (conn list \<times> string option) \<times> retry_proxy" where
  "rp_ListenAndServe listen rp as =
     (case listen (rp_addr rp) of
        Some e \<Rightarrow> (([], Some e), rp)
      | None \<Rightarrow> (rp_accept_loop as, rp\<lparr>rp_listener := Some True\<rparr>))"

section \<open>Decimal ports\<close>

function itoa_digits :: "int \<Rightarrow> string \<Rightarrow> string" where
  "itoa_digits n buf =
     (if 0 < n then itoa_digits (go_div n 10) (buf @ [digit_char (nat (go_mod n 10))]) else buf)"
  by pat_completeness auto
termination
  by (relation "measure (\<lambda>(n, buf). nat n)") (auto simp: go_div_nonneg)

declare itoa_digits.simps [simp del]

text \<open>The loop that reverses the digits in place.\<close>

function reverse_loop :: "nat \<Rightarrow> nat \<Rightarrow> string \<Rightarrow> string" where
  "reverse_loop i j buf =
     (if i < j then reverse_loop (i + 1) (j - 1) (buf[i := buf ! j, j := buf ! i]) else buf)"
  by pat_completeness auto
termination by (relation "measure (\<lambda>(i, j, buf). j - i)") auto

declare reverse_loop.simps [simp del]

definition itoa :: "int \<Rightarrow> string" where
  "itoa n =
     (if n = 0 then ''0''
      else (let buf = itoa_digits n [] in reverse_loop 0 (length buf - 1) buf))"

section \<open>One attempt\<close>

text \<open>
  The results of \<^verbatim>\<open>tryBackend\<close> (the connection, the reply, whether the error is not nil) and the
  connection that was dialled, in the state the function leaves it in.
\<close>

record attempt =
  a_conn :: "conn option"
  a_reply :: "byte list"
  a_err :: bool
  a_made :: "conn option"

text \<open>The rest of a reply whose first four bytes are \<open>rep\<close>; failing reads leave zeros.\<close>

definition read_rest :: "conn \<Rightarrow> byte list \<Rightarrow> byte list \<times> conn" where
  "read_rest b rep =
     (if rep ! 3 = 3 then
        (case read_full b 1 of
           ((lb, _), b1) \<Rightarrow>
             (let lenBuf = zero_pad 1 lb; n = unat (lenBuf ! 0) + 2 in
              case read_full b1 n of
                ((r, _), b2) \<Rightarrow> (rep @ lenBuf @ zero_pad n r, b2)))
      else (let n = (if rep ! 3 = 4 then 18 else 6) in
            case read_full b n of ((r, _), b1) \<Rightarrow> (rep @ zero_pad n r, b1)))"

definition tryBackend :: "dialer \<Rightarrow> int \<Rightarrow> byte list \<Rightarrow> attempt" where
  "tryBackend dial port socksReq =
     (case dial (''127.0.0.1:'' @ itoa port) of
        None \<Rightarrow> \<lparr>a_conn = None, a_reply = [], a_err = True, a_made = None\<rparr>
      | Some b \<Rightarrow>
          (case read_full (send b [5, 1, 0]) 2 of
             ((g, gok), b1) \<Rightarrow>
               if \<not> gok \<or> zero_pad 2 g ! 1 \<noteq> 0
               then \<lparr>a_conn = None, a_reply = [], a_err = \<not> gok, a_made = Some (conn_close b1)\<rparr>
               else (case read_full (send b1 socksReq) 4 of
                   ((rep, rok), b2) \<Rightarrow>
                     if \<not> rok \<or> rep ! 1 \<noteq> 0
                     then \<lparr>a_conn = None, a_reply = [], a_err = True, a_made = Some (conn_close b2)\<rparr>
                     else (case read_rest b2 rep of
                         (full, b3) \<Rightarrow>
                           \<lparr>a_conn = Some b3, a_reply = full, a_err = False, a_made = Some b3\<rparr>))))"

section \<open>One connection\<close>

text \<open>The starting index: \<^verbatim>\<open>int(rp.index.Add(1)) % len(ports)\<close>, negative once the sum exceeds \<open>2^63\<close>.\<close>

definition retry_start :: "retry_proxy \<Rightarrow> int list \<Rightarrow> int \<times> retry_proxy" where
  "retry_start rp ports =
     (go_mod (sint (rp_index rp + 1)) (int (length ports)), rp\<lparr>rp_index := rp_index rp + 1\<rparr>)"

text \<open>The retry loop from attempt \<open>k\<close> on, with the log of the attempts made.\<close>

function try_ports ::
    "(nat \<Rightarrow> dialer) \<Rightarrow> byte list \<Rightarrow> int list \<Rightarrow> int \<Rightarrow> nat \<Rightarrow> nat \<Rightarrow>
       (string, (int \<times> attempt) list) res" where
  "try_ports dial req ports startIdx maxr k =
     (if k < maxr \<and> k < length ports then
        (let idx = go_mod (startIdx + int k) (int (length ports)) in
         if idx < 0 \<or> int (length ports) \<le> idx then Panic ''index out of range''
         else (let a = tryBackend (dial k) (ports ! nat idx) req in
               if \<not> a_err a then Ok [(ports ! nat idx, a)]
               else bind_res (try_ports dial req ports startIdx maxr (Suc k))
                      (\<lambda>log. Ok ((ports ! nat idx, a) # log))))
      else Ok [])"
  by pat_completeness auto
termination by (relation "measure (\<lambda>(dial, req, ports, s, maxr, k). maxr - k)") auto

declare try_ports.simps [simp del]

record retried =
  rt_proxy :: retry_proxy
  rt_client :: conn
  rt_log :: "(int \<times> attempt) list"
  rt_upstream :: "conn option"

definition rt_end ::
    "retry_proxy \<Rightarrow> conn \<Rightarrow> (int \<times> attempt) list \<Rightarrow> conn option \<Rightarrow> retried" where
  "rt_end rp c log up =
     \<lparr>rt_proxy = rp, rt_client = conn_close c, rt_log = log,
      rt_upstream = map_option conn_close up\<rparr>"

text \<open>
  After the loop: \<^verbatim>\<open>upstream\<close> and \<^verbatim>\<open>socksReply\<close> hold the results of the last attempt if that had
  no error, and nil otherwise.
\<close>

definition finish_conn :: "retry_proxy \<Rightarrow> conn \<Rightarrow> (int \<times> attempt) list \<Rightarrow> retried" where
  "finish_conn rp c log =
     (case (if log = [] \<or> a_err (snd (last log)) then None else a_conn (snd (last log))) of
        None \<Rightarrow> rt_end rp (send c (reply 5)) log None
      | Some up \<Rightarrow>
          (case io_copy up (send c (a_reply (snd (last log)))) of
             (n_in, c1, up1) \<Rightarrow>
               (case io_copy c1 up1 of
                  (n_out, up2, c2) \<Rightarrow>
                    rt_end (rp\<lparr>rp_bytesIn := s64 (rp_bytesIn rp + int n_in),
                               rp_bytesOut := s64 (rp_bytesOut rp + int n_out)\<rparr>) c2 log (Some up2))))"

definition handleConn ::
    "(nat \<Rightarrow> dialer) \<Rightarrow> int list \<Rightarrow> int list \<Rightarrow> retry_proxy \<Rightarrow> conn \<Rightarrow> (string, retried) res" where
  "handleConn dial goldPool backends rp0 c =
     (let rp = rp0\<lparr>rp_conns := s64 (rp_conns rp0 + 1)\<rparr> in
      case read_into c (replicate 258 0) of
        ((r, buf), c1) \<Rightarrow>
          if r = None \<or> the r < 2 \<or> buf ! 0 \<noteq> 5 then Ok (rt_end rp c1 [] None)
          else (case read_into (send c1 [5, 0]) buf of
              ((r2, buf2), c2) \<Rightarrow>
                if r2 = None \<or> the r2 < 7 then Ok (rt_end rp c2 [] None)
                else (let socksReq = take (the r2) buf2;
                          ports = (if goldPool = [] then backends else goldPool)
                      in if ports = [] then Ok (rt_end rp (send c2 (reply 1)) [] None)
                         else (case retry_start rp ports of
                             (startIdx, rp1) \<Rightarrow>
                               bind_res (try_ports dial socksReq ports startIdx (rp_maxRetries rp1) 0)
                                 (\<lambda>log. Ok (finish_conn rp1 c2 log))))))"

end
