(* ===== verification/Retry_Props.thy ===== *)
theory Retry_Props
  imports Retry Proxy_Props
begin

text \<open>
  What the retrying proxy guarantees: its decimal printing, the byte-exact relay of a backend's
  reply however it is cut, the order and the number of the attempts, and the two ways its loop goes
  wrong.
\<close>

section \<open>Decimal ports\<close>

lemma itoa_digits_rev:
  "0 < n \<Longrightarrow> itoa_digits (int n) buf = buf @ rev (show_nat n)"
proof (induction n arbitrary: buf rule: show_nat.induct)
  case (1 n)
  have step: "itoa_digits (int n) buf = itoa_digits (int (n div 10)) (buf @ [digit_char (n mod 10)])"
  proof -
    have "go_div (int n) 10 = int (n div 10)" by (simp add: go_div_nonneg zdiv_int)
    moreover have "nat (go_mod (int n) 10) = n mod 10"
      by (simp add: go_mod_nonneg) (metis nat_int of_nat_numeral zmod_int)
    ultimately show ?thesis using 1(2) by (simp add: itoa_digits.simps [of "int n"])
  qed
  show ?case
  proof (cases "n < 10")
    case True
    then show ?thesis using step by (simp add: itoa_digits.simps [of 0] show_nat.simps [of n])
  next
    case False
    then show ?thesis using step 1(1) [OF False] by (simp add: show_nat.simps [of n])
  qed
qed

lemma reverse_loop_rev:
  "length us = i \<Longrightarrow> length us + length xs = Suc j \<Longrightarrow>
     reverse_loop i j (us @ xs @ vs) = us @ rev xs @ vs"
proof (induction "length xs" arbitrary: us xs vs i j rule: less_induct)
  case less
  show ?case
  proof (cases "i < j")
    case False
    then have "length xs \<le> 1" using less.prems by simp
    then have "rev xs = xs" by (cases xs; cases "tl xs") auto
    with False show ?thesis by (simp add: reverse_loop.simps [of i j])
  next
    case True
    then have l: "2 \<le> length xs" using less.prems by simp
    then obtain a ys b where xs: "xs = a # ys @ [b]"
      by (metis One_nat_def Suc_1 Suc_le_length_iff append_butlast_last_id length_greater_0_conv
          le_zero_eq list.size(3) not_less_eq_eq list.distinct(1) neq_Nil_conv)
    have j: "j = length us + Suc (length ys)" using less.prems xs by simp
    have "(us @ xs @ vs)[i := (us @ xs @ vs) ! j, j := (us @ xs @ vs) ! i] =
        (us @ [b]) @ ys @ (a # vs)"
      using less.prems(1) j by (simp add: xs nth_append list_update_append)
    then have "reverse_loop i j (us @ xs @ vs) = reverse_loop (i + 1) (j - 1) ((us @ [b]) @ ys @ (a # vs))"
      using True by (simp add: reverse_loop.simps [of i j])
    also have "\<dots> = (us @ [b]) @ rev ys @ (a # vs)"
    proof (cases "ys = []")
      case True
      then show ?thesis using j less.prems(1) by (simp add: reverse_loop.simps [of "Suc i"])
    next
      case False
      then show ?thesis
        using less.hyps [of ys "us @ [b]" "i + 1" "j - 1" "a # vs"] xs j less.prems(1)
        by (cases ys) simp_all
    qed
    finally show ?thesis by (simp add: xs)
  qed
qed

text \<open>
  The hand-written decimal conversion, digits by repeated division and a reversal in place,
  agrees with the decimal form of every number that is not negative; negative numbers give the
  empty string.
\<close>

theorem itoa_decimal: "itoa n = (if n < 0 then [] else show_int n)"
proof -
  have r: "reverse_loop 0 (length xs - 1) xs = rev xs" for xs :: string
  proof (cases xs)
    case (Cons y ys)
    then show ?thesis using reverse_loop_rev [of "[]" 0 xs "length xs - 1" "[]"] by simp
  qed (simp add: reverse_loop.simps)
  consider "n < 0" | "n = 0" | m where "n = int m" "0 < m"
    by (metis nat_0_le not_less zero_less_nat_eq less_le)
  then show ?thesis
  proof cases
    case 1
    then show ?thesis by (simp add: itoa_def itoa_digits.simps [of n] reverse_loop.simps)
  next
    case 2
    moreover have "digit_char 0 = CHR ''0''" by code_simp
    ultimately show ?thesis by (simp add: itoa_def show_int_def show_nat.simps)
  next
    case 3
    then show ?thesis
      using r [of "rev (show_nat m)"] by (simp add: itoa_def itoa_digits_rev show_int_def)
  qed
qed

section \<open>The reply of a backend\<close>

text \<open>A complete success reply: version, 0, reserved byte, address type, address, port.\<close>

fun address_ok :: "byte \<Rightarrow> byte list \<Rightarrow> bool" where
  "address_ok t bs =
     (if t = 3 then bs \<noteq> [] \<and> length bs = unat (hd bs) + 3
      else length bs = (if t = 4 then 18 else 6))"

definition success_reply :: "byte list \<Rightarrow> bool" where
  "success_reply rep \<longleftrightarrow> 4 \<le> length rep \<and> rep ! 1 = 0 \<and> address_ok (rep ! 3) (drop 4 rep)"

lemma zero_pad_full [simp]: "length bs = n \<Longrightarrow> zero_pad n bs = bs"
  by (simp add: zero_pad_def)

lemma read_rest_exact:
  assumes "avail b = adr @ rest" and "address_ok (rep ! 3) adr"
  obtains b' where "read_rest b rep = (rep @ adr, b')" "avail b' = rest" "tx b' = tx b"
    "quota b' = quota b" "is_open b' = is_open b"
proof (cases "rep ! 3 = 3")
  case True
  then obtain l as where adr: "adr = l # as" and len: "length as = unat l + 2"
    using assms(2) by (cases adr) auto
  have "1 \<le> length (avail b)" using assms(1) adr by simp
  then obtain b1 where b1: "read_full b 1 = (([l], True), b1)" "avail b1 = as @ rest"
    "tx b1 = tx b" "quota b1 = quota b" "is_open b1 = is_open b"
    using read_full_ok [of 1 b] assms(1) adr by auto
  have "unat l + 2 \<le> length (avail b1)" using b1(2) len by simp
  then obtain b2 where b2: "read_full b1 (unat l + 2) = ((as, True), b2)" "avail b2 = rest"
    "tx b2 = tx b1" "quota b2 = quota b1" "is_open b2 = is_open b1"
    using read_full_ok [of "unat l + 2" b1] b1(2) len by auto
  show ?thesis using that [of b2] True b1 b2 len adr by (simp add: read_rest_def Let_def)
next
  case False
  define n :: nat where "n = (if rep ! 3 = 4 then 18 else 6)"
  have len: "length adr = n" using assms(2) False by (simp add: n_def)
  then have "n \<le> length (avail b)" using assms(1) by simp
  then obtain b1 where b1: "read_full b n = ((adr, True), b1)" "avail b1 = rest"
    "tx b1 = tx b" "quota b1 = quota b" "is_open b1 = is_open b"
    using read_full_ok [of n b] assms(1) len by auto
  show ?thesis
    using that [of b1] False b1 len unfolding read_rest_def n_def [symmetric] by simp
qed

lemma tryBackend_exact:
  assumes "dial (''127.0.0.1:'' @ itoa port) = Some b" and "is_open b" and "quota b = None"
    and "avail b = [v, 0] @ rep @ rest" and "success_reply rep"
  shows "\<exists>b'. tryBackend dial port req =
      \<lparr>a_conn = Some b', a_reply = rep, a_err = False, a_made = Some b'\<rparr>
    \<and> avail b' = rest \<and> tx b' = tx b @ [5, 1, 0] @ req \<and> is_open b' \<and> quota b' = None"
proof -
  define b0 where "b0 = send b [5, 1, 0]"
  have b0: "is_open b0" "quota b0 = None" "tx b0 = tx b @ [5, 1, 0]" "avail b0 = [v, 0] @ rep @ rest"
    using assms by (simp_all add: b0_def)
  obtain b1 where b1: "read_full b0 2 = (([v, 0], True), b1)" "avail b1 = rep @ rest"
    "tx b1 = tx b0" "quota b1 = None" "is_open b1"
    using read_full_ok [of 2 b0] b0 by auto
  define b2 where "b2 = send b1 req"
  have b2: "is_open b2" "quota b2 = None" "tx b2 = tx b @ [5, 1, 0] @ req" "avail b2 = rep @ rest"
    using b0 b1 by (simp_all add: b2_def)
  have l4: "4 \<le> length rep" "rep ! 1 = 0" "address_ok (rep ! 3) (drop 4 rep)"
    using assms(5) unfolding success_reply_def by blast+
  obtain b3 where b3: "read_full b2 4 = ((take 4 rep, True), b3)" "avail b3 = drop 4 rep @ rest"
    "tx b3 = tx b2" "quota b3 = None" "is_open b3"
    using read_full_ok [of 4 b2] b2 l4(1) by auto
  have "address_ok (take 4 rep ! 3) (drop 4 rep)" using l4 by simp
  from read_rest_exact [OF b3(2) this]
  obtain b4 where b4: "read_rest b3 (take 4 rep) = (rep, b4)" "avail b4 = rest" "tx b4 = tx b3"
    "quota b4 = quota b3" "is_open b4 = is_open b3"
    by (metis append_take_drop_id)
  have "tryBackend dial port req =
      \<lparr>a_conn = Some b4, a_reply = rep, a_err = False, a_made = Some b4\<rparr>"
    using assms(1) b1(1) b3(1) b4(1) l4(1,2)
    by (simp add: tryBackend_def b0_def [symmetric] b2_def [symmetric] zero_pad_def)
  then show ?thesis using b2 b3 b4 by simp
qed

text \<open>
  One attempt against a backend that accepts: however the network cuts the backend's bytes, the
  reply that is passed on is exactly the backend's reply, with an IPv4, an IPv6 or a domain address,
  and the first byte the relay will read is the first byte after it; the backend was sent the
  greeting and the client's request.
\<close>

theorem tryBackend_reply_exact:
  assumes "dial (''127.0.0.1:'' @ itoa port) = Some b" and "is_open b" and "quota b = None"
    and "avail b = [v, 0] @ rep @ rest" and "success_reply rep"
  shows "\<exists>b'. tryBackend dial port req =
      \<lparr>a_conn = Some b', a_reply = rep, a_err = False, a_made = Some b'\<rparr>
    \<and> avail b' = rest \<and> tx b' = tx b @ [5, 1, 0] @ req"
  using tryBackend_exact [of dial port b v rep rest req] assms by blast

definition chopped_backend :: conn where
  "chopped_backend = \<lparr>rx = [Chunk [5], Chunk [0, 5, 0], Chunk [0, 3, 1], Chunk [97, 0], Chunk [80, 104, 105]],
     tx = [], quota = None, is_open = True\<rparr>"

theorem tryBackend_reply_exact_witness:
  "a_reply (tryBackend (\<lambda>_. Some chopped_backend) 10001 [5, 1, 0, 1, 1, 2, 3, 4, 0, 80]) =
     [5, 0, 0, 3, 1, 97, 0, 80]"
proof -
  have "\<exists>b'. tryBackend (\<lambda>_. Some chopped_backend) 10001 [5, 1, 0, 1, 1, 2, 3, 4, 0, 80] =
      \<lparr>a_conn = Some b', a_reply = [5, 0, 0, 3, 1, 97, 0, 80], a_err = False, a_made = Some b'\<rparr>
    \<and> avail b' = [104, 105] \<and> tx b' = tx chopped_backend @ [5, 1, 0] @ [5, 1, 0, 1, 1, 2, 3, 4, 0, 80]"
    by (rule tryBackend_reply_exact [where v = 5])
      (simp_all add: chopped_backend_def avail_def success_reply_def)
  then show ?thesis by auto
qed

section \<open>Order and number of the attempts\<close>

text \<open>The log of a run: the ports tried are consecutive and all attempts but the last one failed.\<close>

lemma try_ports_ok:
  assumes "ports \<noteq> []" and "0 \<le> st"
  shows "\<exists>log. try_ports dial req ports st maxr k = Ok log \<and>
    (let n = length log in n \<le> min maxr (length ports) - k \<and>
       map fst log = map (\<lambda>j. ports ! ((nat st + k + j) mod length ports)) [0..<n] \<and>
       (\<forall>j<n. snd (log ! j) = tryBackend (dial (k + j)) (fst (log ! j)) req) \<and>
       (\<forall>j<n. a_err (snd (log ! j)) \<longleftrightarrow> \<not> (Suc j = n \<and> \<not> a_err (snd (last log)))) \<and>
       (n < min maxr (length ports) - k \<longrightarrow> log \<noteq> [] \<and> \<not> a_err (snd (last log))))"
  using assms
proof (induction dial req ports st maxr k rule: try_ports.induct)
  case (1 dial req ports st maxr k)
  show ?case
  proof (cases "k < maxr \<and> k < length ports")
    case False
    then show ?thesis by (auto simp: try_ports.simps [of dial req ports st maxr k] Let_def)
  next
    case True
    define idx where "idx = go_mod (st + int k) (int (length ports))"
    define i where "i = (nat st + k) mod length ports"
    have "idx = (st + int k) mod int (length ports)"
      unfolding idx_def using "1.prems" by (intro go_mod_nonneg) simp_all
    also have "st + int k = int (nat st + k)" using "1.prems"(2) by simp
    finally have idx: "idx = int i" by (simp add: i_def zmod_int)
    have i: "i < length ports" using "1.prems"(1) by (simp add: i_def)
    define a where "a = tryBackend (dial k) (ports ! i) req"
    have step: "try_ports dial req ports st maxr k =
        (if \<not> a_err a then Ok [(ports ! i, a)]
         else bind_res (try_ports dial req ports st maxr (Suc k)) (\<lambda>log. Ok ((ports ! i, a) # log)))"
      using True idx i
      by (simp add: try_ports.simps [of dial req ports st maxr k] idx_def [symmetric] Let_def a_def)
    show ?thesis
    proof (cases "a_err a")
      case False
      then show ?thesis
        using step True by (auto simp: Let_def a_def i_def)
    next
      case err: True
      have range: "\<not> (idx < 0 \<or> int (length ports) \<le> idx)" using idx i by simp
      have a2: "a = tryBackend (dial k) (ports ! nat idx) req" by (simp add: a_def idx)
      have nn: "\<not> \<not> a_err a" using err by simp
      obtain log where log: "try_ports dial req ports st maxr (Suc k) = Ok log"
        and L: "length log \<le> min maxr (length ports) - Suc k"
          "map fst log = map (\<lambda>j. ports ! ((nat st + Suc k + j) mod length ports)) [0..<length log]"
          "\<forall>j<length log. snd (log ! j) = tryBackend (dial (Suc k + j)) (fst (log ! j)) req"
          "\<forall>j<length log. a_err (snd (log ! j)) \<longleftrightarrow> \<not> (Suc j = length log \<and> \<not> a_err (snd (last log)))"
          "length log < min maxr (length ports) - Suc k \<longrightarrow> log \<noteq> [] \<and> \<not> a_err (snd (last log))"
        using "1.IH" [OF True idx_def range a2 nn "1.prems"] unfolding Let_def by blast
      let ?log = "(ports ! i, a) # log"
      have "try_ports dial req ports st maxr k = Ok ?log" using step err log by simp
      moreover have "map fst ?log = map (\<lambda>j. ports ! ((nat st + k + j) mod length ports)) [0..<length ?log]"
        using L(2) by (simp add: upt_conv_Cons map_Suc_upt [symmetric] i_def comp_def del: upt_Suc)
      moreover have "\<forall>j<length ?log. snd (?log ! j) = tryBackend (dial (k + j)) (fst (?log ! j)) req"
        using L(3) by (auto simp: less_Suc_eq_0_disj a_def)
      moreover have "\<forall>j<length ?log. a_err (snd (?log ! j)) \<longleftrightarrow>
          \<not> (Suc j = length ?log \<and> \<not> a_err (snd (last ?log)))"
        using L(4) err by (auto simp: less_Suc_eq_0_disj)
      moreover have "length ?log < min maxr (length ports) - k \<longrightarrow> ?log \<noteq> [] \<and> \<not> a_err (snd (last ?log))"
        using L(5) True by auto
      moreover have "length ?log \<le> min maxr (length ports) - k" using L(1) True by auto
      ultimately show ?thesis unfolding Let_def by blast
    qed
  qed
qed

lemma sint_small: "unat (w :: u64) < 2 ^ 63 \<Longrightarrow> sint w = int (unat w)"
proof -
  assume "unat w < 2 ^ 63"
  then have "int (unat w) < int (2 ^ 63)" by (simp only: of_nat_less_iff)
  then show ?thesis by (simp add: sint_uint signed_take_bit_int_eq_self_iff order_trans [OF _ uint_ge_0])
qed

lemma unat_Suc: "unat (w :: u64) + 1 < 2 ^ 64 \<Longrightarrow> unat (w + 1) = unat w + 1"
  by (simp add: unat_word_ariths)

text \<open>The starting points of successive connections are a round-robin until the counter passes \<open>2^63\<close>.\<close>

definition first_port :: "int list \<Rightarrow> retry_proxy \<Rightarrow> int option \<times> retry_proxy" where
  "first_port ports rp =
     (if ports = [] then (None, rp)
      else (case retry_start rp ports of (i, rp') \<Rightarrow> (Some (ports ! nat i), rp')))"

interpretation fp: round_robin "first_port ports" "\<lambda>_. ports" "\<lambda>rp. rp_index rp + 1" "2 ^ 63" for ports
proof
  fix s :: retry_proxy
  assume "ports \<noteq> []" and "unat (rp_index s + 1) < 2 ^ 63"
  then have "go_mod (sint (rp_index s + 1)) (int (length ports)) = int (unat (rp_index s + 1) mod length ports)"
    by (simp add: sint_small go_mod_nonneg zmod_int)
  with \<open>ports \<noteq> []\<close>
  show "fst (first_port ports s) = Some (ports ! (unat (rp_index s + 1) mod length ports))"
    by (simp add: first_port_def retry_start_def)
qed (simp_all add: first_port_def retry_start_def)

definition start_of :: "retry_proxy \<Rightarrow> int list \<Rightarrow> nat" where
  "start_of rp ports = (unat (rp_index rp) + 1) mod length ports"

lemma retry_start_nat:
  assumes "ports \<noteq> []" and "unat (rp_index rp) + 1 < 2 ^ 63"
  shows "retry_start rp ports = (int (start_of rp ports), rp\<lparr>rp_index := rp_index rp + 1\<rparr>)"
proof -
  have u: "unat (rp_index rp + 1) = unat (rp_index rp) + 1" using assms(2) unat_Suc by simp
  then have "sint (rp_index rp + 1) = int (unat (rp_index rp) + 1)" using assms(2) sint_small by metis
  then show ?thesis
    using assms(1) by (simp add: retry_start_def start_of_def go_mod_nonneg zmod_int)
qed

lemma ex_rt_end: "\<exists>rp' c'. rt_end rp c [] None = rt_end rp' c' [] None"
  by blast

text \<open>The two ways a connection can go.\<close>

lemma handleConn_cases:
  fixes gold backs :: "int list"
  assumes "unat (rp_index rp) + 1 < 2 ^ 63"
  defines "ports \<equiv> (if gold = [] then backs else gold)"
  obtains (early) rp' c' where "handleConn dial gold backs rp c = Ok (rt_end rp' c' [] None)"
  | (tried) rp1 c2 req log where "handleConn dial gold backs rp c = Ok (finish_conn rp1 c2 log)"
      "try_ports dial req ports (int (start_of rp ports)) (rp_maxRetries rp) 0 = Ok log" "ports \<noteq> []"
proof -
  define rq where "rq = rp\<lparr>rp_conns := s64 (rp_conns rp + 1)\<rparr>"
  obtain r buf c1 where rd: "read_into c (replicate 258 0) = ((r, buf), c1)" by (metis prod.exhaust)
  obtain r2 buf2 c2 where rd2: "read_into (send c1 [5, 0]) buf = ((r2, buf2), c2)" by (metis prod.exhaust)
  show ?thesis
  proof (cases "(r = None \<or> the r < 2 \<or> buf ! 0 \<noteq> 5) \<or> (r2 = None \<or> the r2 < 7) \<or> ports = []")
    case True
    then have "\<exists>rp' c'. handleConn dial gold backs rp c = Ok (rt_end rp' c' [] None)"
      by (auto simp: handleConn_def Let_def rd rd2 ports_def ex_rt_end)
    then show ?thesis using early by blast
  next
    case False
    have st: "retry_start rq ports = (int (start_of rp ports), rq\<lparr>rp_index := rp_index rq + 1\<rparr>)"
      using retry_start_nat [of ports rq] False assms(1) by (simp add: rq_def start_of_def)
    have mx: "rp_maxRetries (rq\<lparr>rp_index := rp_index rq + 1\<rparr>) = rp_maxRetries rp" by (simp add: rq_def)
    obtain log where log:
      "try_ports dial (take (the r2) buf2) ports (int (start_of rp ports)) (rp_maxRetries rp) 0 = Ok log"
      using try_ports_ok [of ports "int (start_of rp ports)"] False by (metis of_nat_0_le_iff)
    have "handleConn dial gold backs rp c = Ok (finish_conn (rq\<lparr>rp_index := rp_index rq + 1\<rparr>) c2 log)"
      using False rd rd2 st log mx
      by (auto simp: handleConn_def Let_def rq_def [symmetric] ports_def [symmetric])
    with log False show ?thesis using tried by blast
  qed
qed

lemma finish_conn_log [simp]: "rt_log (finish_conn rp c log) = log"
  by (simp add: finish_conn_def rt_end_def split: option.splits prod.splits)

lemma finish_conn_closed:
  "\<not> is_open (rt_client (finish_conn rp c log)) \<and>
   (\<forall>u\<in>set_option (rt_upstream (finish_conn rp c log)). \<not> is_open u)"
  by (auto simp: finish_conn_def rt_end_def split: option.splits prod.splits)

text \<open>
  C20. Until its connection counter passes \<open>2^63\<close>, the retry proxy handles every connection without a
  panic, whatever client and backends send. It tries ports of the gold pool if that has any, of the
  healthy backends otherwise: consecutive ones in cyclic order from the counter's position, at most
  \<open>maxRetries\<close> and each position once, going on only after an attempt that returned an error. In the
  end the client and the upstream connection are closed.
\<close>

theorem retry_attempts:
  assumes "unat (rp_index rp) + 1 < 2 ^ 63"
  shows "\<exists>h. handleConn dial gold backs rp c = Ok h \<and>
    (let ports = (if gold = [] then backs else gold); n = length (rt_log h) in
       n \<le> rp_maxRetries rp \<and> n \<le> length ports \<and>
       map fst (rt_log h) =
         map (\<lambda>j. ports ! ((unat (rp_index rp) + 1 + j) mod length ports)) [0..<n] \<and>
       (\<forall>j. Suc j < n \<longrightarrow> a_err (snd (rt_log h ! j)))) \<and>
    \<not> is_open (rt_client h) \<and> (\<forall>u\<in>set_option (rt_upstream h). \<not> is_open u)"
  using assms
proof (cases rule: handleConn_cases [where rp = rp and gold = gold and backs = backs and dial = dial and c = c])
  case (early rp' c')
  then show ?thesis by (simp add: rt_end_def Let_def)
next
  case (tried rp1 c2 req log)
  define ports where "ports = (if gold = [] then backs else gold)"
  have L: "length log \<le> min (rp_maxRetries rp) (length ports)"
    "map fst log = map (\<lambda>j. ports ! ((start_of rp ports + j) mod length ports)) [0..<length log]"
    "\<forall>j<length log. a_err (snd (log ! j)) \<longleftrightarrow> \<not> (Suc j = length log \<and> \<not> a_err (snd (last log)))"
    using try_ports_ok [of ports "int (start_of rp ports)" dial req "rp_maxRetries rp" 0] tried(2,3)
    unfolding ports_def [symmetric] Let_def by auto
  have "(start_of rp ports + j) mod length ports = (unat (rp_index rp) + 1 + j) mod length ports" for j
    by (simp add: start_of_def mod_add_left_eq)
  then show ?thesis
    using tried(1) L finish_conn_closed [of rp1 c2 log]
    unfolding ports_def [symmetric] Let_def by auto
qed

definition demo_retry :: retry_proxy where
  "demo_retry = NewRetryProxy '':1090''"

theorem retry_attempts_witness:
  "\<exists>h. handleConn (\<lambda>_ _. None) [] [10001, 10002, 10003] demo_retry anon_client = Ok h
     \<and> length (rt_log h) \<le> 3 \<and> \<not> is_open (rt_client h)"
proof -
  have "unat (rp_index demo_retry) + 1 < 2 ^ 63" by (simp add: demo_retry_def NewRetryProxy_def)
  from retry_attempts [OF this, of "\<lambda>_ _. None" "[]" "[10001, 10002, 10003]" anon_client]
  show ?thesis by (auto simp: Let_def)
qed

lemma handleConn_request:
  assumes "socks_client c g req rest" and "unat (rp_index rp) + 1 < 2 ^ 63"
    and "(if gold = [] then backs else gold) = ports" and "ports \<noteq> []"
  shows "\<exists>c2 log. handleConn dial gold backs rp c =
      Ok (finish_conn (rp\<lparr>rp_conns := s64 (rp_conns rp + 1), rp_index := rp_index rp + 1\<rparr>) c2 log)
    \<and> is_open c2 \<and> quota c2 = None \<and> tx c2 = [5, 0] \<and> avail c2 = stream_of rest
    \<and> try_ports dial req ports (int (start_of rp ports)) (rp_maxRetries rp) 0 = Ok log"
proof -
  define buf where "buf = g @ drop (length g) (replicate 258 (0 :: byte))"
  define ca where "ca = c\<lparr>rx := Chunk req # rest\<rparr>"
  have rd: "read_into c (replicate 258 0) = ((Some (length g), buf), ca)"
    using assms(1) read_into_Chunk [of c g "Chunk req # rest" "replicate 258 0"]
    by (simp add: socks_client_def buf_def ca_def)
  have buf: "length buf = 258" "buf ! 0 = 5" "\<not> length g < 2"
    using assms(1) by (auto simp: socks_client_def buf_def nth_append)
  define cb where "cb = send ca [5, 0]"
  have cb: "is_open cb" "quota cb = None" "tx cb = [5, 0]" "rx cb = Chunk req # rest"
    using assms(1) by (simp_all add: socks_client_def cb_def ca_def)
  define buf1 where "buf1 = req @ drop (length req) buf"
  define c2 where "c2 = cb\<lparr>rx := rest\<rparr>"
  have rd1: "read_into cb buf = ((Some (length req), buf1), c2)"
    using cb assms(1) buf(1) read_into_Chunk [of cb req rest buf]
    by (simp add: socks_client_def buf1_def c2_def)
  have req: "take (length req) buf1 = req" "\<not> length req < 7"
    using assms(1) by (auto simp: socks_client_def buf1_def)
  define rq where "rq = rp\<lparr>rp_conns := s64 (rp_conns rp + 1)\<rparr>"
  have st: "retry_start rq ports = (int (start_of rp ports), rq\<lparr>rp_index := rp_index rq + 1\<rparr>)"
    using retry_start_nat [of ports rq] assms(2,4) by (simp add: rq_def start_of_def)
  have mx: "rp_maxRetries (rq\<lparr>rp_index := rp_index rq + 1\<rparr>) = rp_maxRetries rp" by (simp add: rq_def)
  obtain log where log:
    "try_ports dial req ports (int (start_of rp ports)) (rp_maxRetries rp) 0 = Ok log"
    using try_ports_ok [of ports "int (start_of rp ports)"] assms(4) by (metis of_nat_0_le_iff)
  have "handleConn dial gold backs rp c = Ok (finish_conn (rq\<lparr>rp_index := rp_index rq + 1\<rparr>) c2 log)"
    using rd rd1 buf req st log mx assms(3,4)
    by (auto simp: handleConn_def Let_def rq_def [symmetric] cb_def [symmetric])
  moreover have "rq\<lparr>rp_index := rp_index rq + 1\<rparr> =
      rp\<lparr>rp_conns := s64 (rp_conns rp + 1), rp_index := rp_index rp + 1\<rparr>" by (simp add: rq_def)
  moreover have "is_open c2 \<and> quota c2 = None \<and> tx c2 = [5, 0] \<and> avail c2 = stream_of rest"
    using cb by (simp add: c2_def avail_def)
  ultimately show ?thesis using log by auto
qed

text \<open>If the attempts before position \<open>k\<close> fail and the one at \<open>k\<close> does not, the log ends there.\<close>

lemma try_ports_first:
  assumes "try_ports dial req ports (int st) maxr 0 = Ok log" and "ports \<noteq> []"
    and "k < maxr" and "k < length ports"
    and "\<forall>j<k. a_err (tryBackend (dial j) (ports ! ((st + j) mod length ports)) req)"
    and "\<not> a_err (tryBackend (dial k) (ports ! ((st + k) mod length ports)) req)"
  shows "length log = Suc k \<and> snd (last log) = tryBackend (dial k) (ports ! ((st + k) mod length ports)) req"
proof -
  have L: "length log \<le> min maxr (length ports)"
    "map fst log = map (\<lambda>j. ports ! ((st + j) mod length ports)) [0..<length log]"
    "\<forall>j<length log. snd (log ! j) = tryBackend (dial j) (fst (log ! j)) req"
    "\<forall>j<length log. a_err (snd (log ! j)) \<longleftrightarrow> \<not> (Suc j = length log \<and> \<not> a_err (snd (last log)))"
    "length log < min maxr (length ports) \<longrightarrow> log \<noteq> [] \<and> \<not> a_err (snd (last log))"
    using try_ports_ok [of ports "int st" dial req maxr 0] assms(1,2) unfolding Let_def by auto
  have f: "snd (log ! j) = tryBackend (dial j) (ports ! ((st + j) mod length ports)) req"
    if "j < length log" for j
  proof -
    have "fst (log ! j) = map fst log ! j" using that by simp
    also have "\<dots> = ports ! ((st + j) mod length ports)"
      by (subst L(2)) (use that in simp)
    finally show ?thesis using L(3) that by simp
  qed
  have ge: "k < length log"
  proof (rule ccontr)
    assume n: "\<not> k < length log"
    then have "log \<noteq> [] \<and> \<not> a_err (snd (last log))" using L(5) assms(3,4) by simp
    moreover have "last log = log ! (length log - 1)" if "log \<noteq> []" using that by (rule last_conv_nth)
    moreover have "a_err (snd (log ! (length log - 1)))" if "log \<noteq> []"
      using that n assms(5) f by (cases log) auto
    ultimately show False by auto
  qed
  have "\<not> a_err (snd (log ! k))" using f [OF ge] assms(6) by simp
  then have len: "length log = Suc k" using L(4) ge by auto
  moreover have "last log = log ! k" using len last_conv_nth [of log] by (cases "log = []") simp_all
  ultimately show ?thesis using f [OF ge] by simp
qed

text \<open>
  C31. A retried session: if the first \<open>k\<close> backends in cyclic order fail and the next one accepts,
  then the client is sent the method choice, that backend's reply and every byte after it, with
  nothing lost or changed however the network cuts the backend's bytes; the backend is sent the
  greeting, the request and everything the client sends; and the byte counters grow by what was
  moved.
\<close>

theorem retried_session:
  assumes "socks_client c g req crest" and "unat (rp_index rp) + 1 < 2 ^ 63"
    and "(if gold = [] then backs else gold) = ports"
    and "k < rp_maxRetries rp" and "k < length ports"
    and "\<forall>j<k. a_err (tryBackend (dial j) (ports ! ((start_of rp ports + j) mod length ports)) req)"
    and "dial k (''127.0.0.1:'' @ itoa (ports ! ((start_of rp ports + k) mod length ports))) = Some b"
    and "is_open b" and "quota b = None" and "tx b = []"
    and "avail b = [v, 0] @ rep @ rest" and "success_reply rep"
  shows "\<exists>h up. handleConn dial gold backs rp c = Ok h \<and> rt_upstream h = Some up \<and>
    tx (rt_client h) = [5, 0] @ rep @ rest \<and> tx up = [5, 1, 0] @ req @ stream_of crest \<and>
    length (rt_log h) = Suc k \<and>
    Stats (rt_proxy h) = (s64 (rp_conns rp + 1), s64 (rp_bytesIn rp + int (length (stream_of crest))),
      s64 (rp_bytesOut rp + int (length rest)))"
proof -
  have ne: "ports \<noteq> []" using assms(5) by auto
  define rq where "rq = rp\<lparr>rp_conns := s64 (rp_conns rp + 1), rp_index := rp_index rp + 1\<rparr>"
  obtain c2 log where hc: "handleConn dial gold backs rp c = Ok (finish_conn rq c2 log)"
    and c2: "is_open c2" "quota c2 = None" "tx c2 = [5, 0]" "avail c2 = stream_of crest"
    and tp: "try_ports dial req ports (int (start_of rp ports)) (rp_maxRetries rp) 0 = Ok log"
    using handleConn_request [OF assms(1,2,3) ne, of dial] rq_def by auto
  obtain b' where tb: "tryBackend (dial k) (ports ! ((start_of rp ports + k) mod length ports)) req =
      \<lparr>a_conn = Some b', a_reply = rep, a_err = False, a_made = Some b'\<rparr>"
    and b': "avail b' = rest" "tx b' = tx b @ [5, 1, 0] @ req" "is_open b'" "quota b' = None"
    using tryBackend_exact [of "dial k" "ports ! ((start_of rp ports + k) mod length ports)" b v rep rest req]
      assms(7-9,11,12) by blast
  have l: "length log = Suc k"
    "snd (last log) = \<lparr>a_conn = Some b', a_reply = rep, a_err = False, a_made = Some b'\<rparr>"
    using try_ports_first [OF tp ne assms(4,5,6)] tb by simp_all
  define c3 where "c3 = send c2 rep"
  have c3: "is_open c3" "quota c3 = None" "tx c3 = [5, 0] @ rep" "avail c3 = stream_of crest"
    using c2 by (simp_all add: c3_def)
  obtain n c4 up1 where up: "io_copy b' c3 = (n, c4, up1)" by (metis prod.exhaust)
  obtain j up2 c5 where down: "io_copy c4 up1 = (j, up2, c5)" by (metis prod.exhaust)
  have u: "n = length (stream_of crest)" "tx up1 = tx b' @ stream_of crest" "rx up1 = rx b'" "is_open up1"
    "tx c4 = tx c3" "quota c4 = None" "is_open c4"
    using copy_loop_result [of c3 b' 0 n c4 up1] up b' c3 by (simp_all add: io_copy_def)
  have av: "avail up1 = rest" using u(3,4) b'(1,3) by (simp add: avail_def)
  have d: "j = length rest" "tx c5 = tx c4 @ rest" "tx up2 = tx up1"
    using copy_loop_result [of up1 c4 0 j up2 c5] down u av by (simp_all add: io_copy_def)
  have "finish_conn rq c2 log =
      rt_end (rq\<lparr>rp_bytesIn := s64 (rp_bytesIn rq + int n), rp_bytesOut := s64 (rp_bytesOut rq + int j)\<rparr>)
        c5 log (Some up2)"
    using l up down by (cases log) (auto simp: finish_conn_def c3_def)
  then show ?thesis
    using hc u d l b' c3 assms(10) by (simp add: rt_end_def Stats_def rq_def)
qed

definition refusing_dialer :: "nat \<Rightarrow> dialer" where
  "refusing_dialer k addr = (if k = 0 then None else Some chopped_backend)"

theorem retried_session_witness:
  "\<exists>h. handleConn refusing_dialer [10001, 10002] [] demo_retry anon_client = Ok h
     \<and> tx (rt_client h) = [5, 0] @ [5, 0, 0, 3, 1, 97, 0, 80] @ [104, 105] \<and> length (rt_log h) = 2"
proof -
  have "\<exists>h up. handleConn refusing_dialer [10001, 10002] [] demo_retry anon_client = Ok h
    \<and> rt_upstream h = Some up
    \<and> tx (rt_client h) = [5, 0] @ [5, 0, 0, 3, 1, 97, 0, 80] @ [104, 105]
    \<and> tx up = [5, 1, 0] @ [5, 1, 0, 1, 1, 2, 3, 4, 0, 80] @ stream_of [Chunk [71, 69, 84]]
    \<and> length (rt_log h) = Suc 1
    \<and> Stats (rt_proxy h) = (s64 (rp_conns demo_retry + 1),
        s64 (rp_bytesIn demo_retry + int (length (stream_of [Chunk [71, 69, 84]]))),
        s64 (rp_bytesOut demo_retry + int (length [104, 105 :: byte])))"
    by (rule retried_session [where ports = "[10001, 10002]" and b = chopped_backend and v = 5,
          OF demo_session_facts(2)])
      (simp_all add: demo_retry_def NewRetryProxy_def refusing_dialer_def chopped_backend_def
        avail_def success_reply_def tryBackend_def)
  then show ?thesis by auto
qed

text \<open>
  A backend that answers the greeting with another method than 0 ends the retry loop: the error
  that \<^verbatim>\<open>tryBackend\<close> returns is the nil error of the successful read, so the loop stops with no
  connection, and the client is refused although further backends were never tried.
\<close>

theorem method_refusal_stops_the_retry:
  assumes "socks_client c g req crest" and "unat (rp_index rp) + 1 < 2 ^ 63"
    and "(if gold = [] then backs else gold) = ports" and "ports \<noteq> []" and "0 < rp_maxRetries rp"
    and "dial 0 (''127.0.0.1:'' @ itoa (ports ! start_of rp ports)) = Some b"
    and "is_open b" and "avail b = [v, x] @ rest" and "x \<noteq> 0"
  shows "\<exists>h. handleConn dial gold backs rp c = Ok h \<and> tx (rt_client h) = [5, 0] @ reply 5
    \<and> length (rt_log h) = 1"
proof -
  define rq where "rq = rp\<lparr>rp_conns := s64 (rp_conns rp + 1), rp_index := rp_index rp + 1\<rparr>"
  obtain c2 log where hc: "handleConn dial gold backs rp c = Ok (finish_conn rq c2 log)"
    and c2: "is_open c2" "quota c2 = None" "tx c2 = [5, 0]"
    and tp: "try_ports dial req ports (int (start_of rp ports)) (rp_maxRetries rp) 0 = Ok log"
    using handleConn_request [OF assms(1-4), of dial] rq_def by auto
  have "2 \<le> length (avail (send b [5, 1, 0]))" using assms(8) by simp
  then obtain b1 where "read_full (send b [5, 1, 0]) 2 = (([v, x], True), b1)"
    using read_full_ok [of 2 "send b [5, 1, 0]"] assms(8) by auto
  then have tb: "tryBackend (dial 0) (ports ! start_of rp ports) req =
      \<lparr>a_conn = None, a_reply = [], a_err = False, a_made = Some (conn_close b1)\<rparr>"
    using assms(6,9) by (simp add: tryBackend_def zero_pad_def)
  have st: "start_of rp ports mod length ports = start_of rp ports" by (simp add: start_of_def)
  have "length log = Suc 0 \<and> snd (last log) = tryBackend (dial 0) (ports ! ((start_of rp ports + 0) mod length ports)) req"
    using try_ports_first [OF tp assms(4,5)] tb st assms(4) by simp
  then have "length log = 1" "a_conn (snd (last log)) = None" using tb st by simp_all
  then have "finish_conn rq c2 log = rt_end rq (send c2 (reply 5)) log None"
    by (simp add: finish_conn_def)
  then show ?thesis using hc c2 \<open>length log = 1\<close> by (simp add: rt_end_def)
qed

definition picky_backend :: conn where
  "picky_backend = \<lparr>rx = [Chunk [5, 255]], tx = [], quota = None, is_open = True\<rparr>"

theorem method_refusal_stops_the_retry_witness:
  "\<exists>h. handleConn (\<lambda>k _. if k = 0 then Some picky_backend else Some chopped_backend)
      [] [10001, 10002] demo_retry anon_client = Ok h \<and> tx (rt_client h) = [5, 0] @ reply 5
    \<and> length (rt_log h) = 1"
  by (rule method_refusal_stops_the_retry [where b = picky_backend and v = 5 and x = 255 and rest = "[]"
          and ports = "[10001, 10002]",
        OF demo_session_facts(2)])
    (simp_all add: demo_retry_def NewRetryProxy_def picky_backend_def avail_def)

text \<open>
  The conversion of the unsigned connection counter to \<^verbatim>\<open>int\<close> turns negative at \<open>2^63\<close>: from
  then on the remainder is negative whenever the number of ports does not divide the counter, and
  the first attempt indexes the port list out of range and panics.
\<close>

theorem retry_index_overflow_panics:
  assumes "ports \<noteq> []" and "2 ^ 63 \<le> unat (rp_index rp + 1)"
    and "(2 ^ 64 - unat (rp_index rp + 1)) mod length ports \<noteq> 0" and "0 < maxr"
  shows "try_ports dial req ports (fst (retry_start rp ports)) maxr 0 = Panic ''index out of range''"
proof -
  define w where "w = rp_index rp + 1"
  define d where "d = 2 ^ 64 - unat w"
  have wl: "unat w < 2 ^ 64" using unsigned_less [of w, where 'a = nat] by simp
  then have d: "0 < d" "d \<le> 2 ^ 63" "int (unat w) = 2 ^ 64 - int d"
    using assms(2) by (simp_all add: d_def w_def of_nat_diff)
  have "sint w = (int (unat w) + 2 ^ 63) mod 2 ^ 64 - 2 ^ 63"
    by (simp add: sint_uint signed_take_bit_eq_take_bit_shift take_bit_eq_mod)
  also have "int (unat w) + 2 ^ 63 = (2 ^ 63 - int d) + 2 ^ 64" using d(3) by simp
  also have "\<dots> mod 2 ^ 64 = 2 ^ 63 - int d" using d by (subst mod_add_self2) simp
  finally have s: "sint w = - int d" by simp
  have "go_mod (- int d) (int (length ports)) = - (int d mod int (length ports))"
    using assms(1) by (intro go_mod_neg) simp_all
  also have "\<dots> = - int (d mod length ports)" by (simp add: zmod_int)
  finally have st: "fst (retry_start rp ports) = - int (d mod length ports)"
    using s by (simp add: retry_start_def w_def)
  have pos: "0 < d mod length ports" "d mod length ports < length ports"
    using assms(1,3) by (simp_all add: d_def w_def)
  have "go_mod (- int (d mod length ports)) (int (length ports)) =
      - (int (d mod length ports) mod int (length ports))"
    using assms(1) by (intro go_mod_neg) simp_all
  then have "go_mod (- int (d mod length ports)) (int (length ports)) < 0"
    using pos by simp
  then show ?thesis
    using st assms(1,4) by (simp add: try_ports.simps [of dial req ports _ maxr 0] Let_def)
qed

theorem retry_index_overflow_panics_witness:
  "try_ports (\<lambda>_ _. None) [] [10001, 10002, 10003]
     (fst (retry_start (demo_retry\<lparr>rp_index := 2 ^ 63 - 1\<rparr>) [10001, 10002, 10003])) 5 0
   = Panic ''index out of range''"
  by (rule retry_index_overflow_panics) (simp_all add: demo_retry_def)

end
