(* ===== verification/Health.thy ===== *)
theory Health
  imports Tunnels Conn
begin

text \<open>
  The health checker, \<^verbatim>\<open>internal/health/checker.go\<close>. Connecting to a tunnel's port, running \<^verbatim>\<open>curl\<close>,
  the clock and the HTTP request for the exit address are arguments. A check reads a tunnel's
  status, probes its port without holding the lock and then writes the result; what other goroutines
  do to the manager during the \<open>j\<close>-th probe of a pass is the function \<open>other j\<close>.
\<close>

section \<open>State\<close>

record tunnel_health =
  th_Name :: string
  th_Status :: string
  th_Latency :: int
  th_BytesIn :: int
  th_BytesOut :: int
  th_TotalConns :: int
  th_ExitIP :: string

record health_stats =
  hs_TotalChecks :: int
  hs_HealthyCount :: int
  hs_TotalCount :: int
  hs_AvgLatency :: int
  hs_LastCheckTime :: "int option"

record checker =
  hc_interval :: int
  hc_timeout :: int
  hc_stopped :: bool         \<comment> \<open>\<open>stopCh\<close> is closed\<close>
  hc_stats :: health_stats
  hc_exitIPs :: "(string \<times> string) list"
  hc_goldPorts :: "int list"

definition NewChecker :: "int \<Rightarrow> int \<Rightarrow> checker" where
  "NewChecker interval timeout =
     \<lparr>hc_interval = interval, hc_timeout = timeout, hc_stopped = False,
      hc_stats = \<lparr>hs_TotalChecks = 0, hs_HealthyCount = 0, hs_TotalCount = 0, hs_AvgLatency = 0,
                  hs_LastCheckTime = None\<rparr>,
      hc_exitIPs = [], hc_goldPorts = []\<rparr>"

definition GetStats :: "checker \<Rightarrow> health_stats" where
  "GetStats c = hc_stats c"

definition GetTunnelHealth :: "tunnel \<Rightarrow> tunnel_health" where
  "GetTunnelHealth t =
     \<lparr>th_Name = t_Name t, th_Status = status_String (t_Status t), th_Latency = t_Latency t,
      th_BytesIn = t_BytesIn t, th_BytesOut = t_BytesOut t, th_TotalConns = t_ConnCount t,
      th_ExitIP = t_ExitIP t\<rparr>"

definition GetGoldPorts :: "checker \<Rightarrow> int list" where
  "GetGoldPorts c = hc_goldPorts c"

section \<open>One pass over the tunnels\<close>

text \<open>
  What the environment does during a pass: the outcome of the \<open>j\<close>-th connection attempt to an
  address (the error's text or the time it took) and the clock after it.
\<close>

record probes =
  pr_dial :: "nat \<Rightarrow> string \<Rightarrow> string + int"
  pr_clock :: "nat \<Rightarrow> int"

definition checkTunnel :: "probes \<Rightarrow> nat \<Rightarrow> tunnel \<Rightarrow> string + int" where
  "checkTunnel P j t =
     (case pr_dial P j (''127.0.0.1:'' @ show_int (t_ProxyPort t)) of
        Inl e \<Rightarrow> Inl (''tcp connect failed: '' @ e)
      | Inr d \<Rightarrow> Inr d)"

definition skipped :: "TunnelStatus \<Rightarrow> bool" where
  "skipped s \<longleftrightarrow> s = StatusStopped \<or> s = StatusError \<or> s = StatusDisconnected"

definition record_check :: "manager \<Rightarrow> nat \<Rightarrow> int \<Rightarrow> string + int \<Rightarrow> manager" where
  "record_check m i at r =
     (case r of
        Inl e \<Rightarrow> upd m i (\<lambda>t. t\<lparr>t_LastCheck := Some at, t_Status := StatusUnhealthy, t_Error := e,
                               t_Latency := 0\<rparr>)
      | Inr d \<Rightarrow> upd m i (\<lambda>t. t\<lparr>t_LastCheck := Some at, t_Status := StatusRunning, t_Error := [],
                               t_Latency := d\<rparr>))"

text \<open>
  The loop of \<^verbatim>\<open>checkAll\<close>: the manager, the healthy tunnels counted, their latencies added up, and
  the tunnels whose exit address a new goroutine will look up.
\<close>

record pass =
  ps_manager :: manager
  ps_healthy :: int
  ps_latency :: int
  ps_resolve :: "nat list"

fun check_each ::
    "probes \<Rightarrow> (nat \<Rightarrow> manager \<Rightarrow> manager) \<Rightarrow> nat \<Rightarrow> pass \<Rightarrow> nat list \<Rightarrow> pass" where
  "check_each P other j s [] = s"
| "check_each P other j s (i # is) =
     (if skipped (t_Status (tun (ps_manager s) i)) then check_each P other j s is
      else (let r = checkTunnel P j (tun (ps_manager s) i);
                m1 = other j (ps_manager s);
                m2 = record_check m1 i (pr_clock P j) r
            in check_each P other (Suc j)
                 (case r of
                    Inl e \<Rightarrow> s\<lparr>ps_manager := m2\<rparr>
                  | Inr d \<Rightarrow>
                      s\<lparr>ps_manager := m2, ps_healthy := ps_healthy s + 1,
                        ps_latency := s64 (ps_latency s + d),
                        ps_resolve := (if t_ExitIP (tun m2 i) = [] then ps_resolve s @ [i]
                                       else ps_resolve s)\<rparr>) is))"

text \<open>
  \<^verbatim>\<open>checkAll\<close>: the checker, the manager, the tunnels to look up, and whether a deep check starts.
\<close>

definition checkAll ::
    "probes \<Rightarrow> (nat \<Rightarrow> manager \<Rightarrow> manager) \<Rightarrow> int \<Rightarrow> checker \<Rightarrow> manager \<Rightarrow>
       checker \<times> manager \<times> nat list \<times> bool" where
  "checkAll P other at c m =
     (let tuns = GetTunnels m;
          s = check_each P other 0
                \<lparr>ps_manager = m, ps_healthy = 0, ps_latency = 0, ps_resolve = []\<rparr> tuns;
          avg = (if 0 < ps_healthy s then go_div (ps_latency s) (ps_healthy s) else 0);
          total = s64 (hs_TotalChecks (hc_stats c) + 1);
          c1 = c\<lparr>hc_stats := \<lparr>hs_TotalChecks = total, hs_HealthyCount = ps_healthy s,
                   hs_TotalCount = int (length tuns), hs_AvgLatency = avg,
                   hs_LastCheckTime = Some at\<rparr>\<rparr>
      in (c1, ps_manager s, ps_resolve s, go_mod total 5 = 1))"

section \<open>The gold pool\<close>

definition curl_argv :: "int \<Rightarrow> string list" where
  "curl_argv port =
     [''curl'', ''-s'', ''--proxy'', ''socks5h://127.0.0.1:'' @ show_int port, ''--max-time'', ''8'',
      ''-o'', ''/dev/null'', ''-w'', ''%{http_code}'', ''https://example.com'']"

text \<open>\<open>curl argv\<close> is what the command prints and its error, if any.\<close>

definition httpsProbe :: "(string list \<Rightarrow> string \<times> string option) \<Rightarrow> int \<Rightarrow> bool" where
  "httpsProbe curl port =
     (case curl (curl_argv port) of
        (out, Some e) \<Rightarrow> False
      | (out, None) \<Rightarrow> trim_space out = ''200'')"

text \<open>
  The goroutines append the ports in the order in which their probes end: \<open>finish\<close> is that order.
\<close>

definition deepCheckAll ::
    "(string list \<Rightarrow> string \<times> string option) \<Rightarrow> (int list \<Rightarrow> int list) \<Rightarrow> checker \<Rightarrow> manager \<Rightarrow> checker" where
  "deepCheckAll curl finish c m =
     (let ports = map (\<lambda>i. t_ProxyPort (tun m i))
                    (filter (\<lambda>i. t_Status (tun m i) = StatusRunning) (GetTunnels m))
      in c\<lparr>hc_goldPorts := finish (filter (httpsProbe curl) ports)\<rparr>)"

section \<open>Exit addresses\<close>

definition exit_host :: string where
  "exit_host = ''ifconfig.me''"

definition exit_request :: "byte list" where
  "exit_request = [5, 1, 0, 3, of_nat (length exit_host)] @ bytes_of exit_host @ [0, 80]"

text \<open>The dial function of the transport: every read's error is ignored.\<close>

definition exit_dial :: "(string \<Rightarrow> conn option) \<Rightarrow> int \<Rightarrow> conn option" where
  "exit_dial dial port =
     (case dial (''127.0.0.1:'' @ show_int port) of
        None \<Rightarrow> None
      | Some p \<Rightarrow>
          (let p1 = snd (conn_read (send p [5, 1, 0]) 2) in
           case conn_read (send p1 exit_request) 256 of
             (r, p2) \<Rightarrow>
               (let resp = zero_pad 256 (case r of None \<Rightarrow> [] | Some bs \<Rightarrow> bs) in
                if resp ! 1 \<noteq> 0 then None else Some p2)))"

text \<open>\<open>http p\<close> is the body of the response to the request over \<open>p\<close>, or none when it fails.\<close>

definition resolveExitIP ::
    "(string \<Rightarrow> conn option) \<Rightarrow> (conn \<Rightarrow> string option) \<Rightarrow> manager \<Rightarrow> nat \<Rightarrow> manager" where
  "resolveExitIP dial http m i =
     (case exit_dial dial (t_ProxyPort (tun m i)) of
        None \<Rightarrow> m
      | Some p \<Rightarrow>
          (case http p of
             None \<Rightarrow> m
           | Some body \<Rightarrow> upd m i (\<lambda>t. t\<lparr>t_ExitIP := trim_space body\<rparr>)))"

section \<open>The loop\<close>

text \<open>
  \<open>Start\<close> runs one pass and then one per tick until the stop channel is closed: \<open>n\<close> is the number
  of ticks that come first. \<open>Stop\<close> closes the channel; closing it twice panics.
\<close>

fun loop ::
    "(nat \<Rightarrow> probes) \<Rightarrow> (nat \<Rightarrow> nat \<Rightarrow> manager \<Rightarrow> manager) \<Rightarrow> (nat \<Rightarrow> int) \<Rightarrow> nat \<Rightarrow>
       checker \<Rightarrow> manager \<Rightarrow> checker \<times> manager \<times> bool list" where
  "loop P other at 0 c m =
     (case checkAll (P 0) (other 0) (at 0) c m of (c1, m1, _, d) \<Rightarrow> (c1, m1, [d]))"
| "loop P other at (Suc n) c m =
     (case loop P other at n c m of
        (c1, m1, ds) \<Rightarrow>
          (case checkAll (P (Suc n)) (other (Suc n)) (at (Suc n)) c1 m1 of
             (c2, m2, _, d) \<Rightarrow> (c2, m2, ds @ [d])))"

definition hc_Stop :: "checker \<Rightarrow> (string, checker) res" where
  "hc_Stop c =
     (if hc_stopped c then Panic ''close of closed channel'' else Ok (c\<lparr>hc_stopped := True\<rparr>))"

end
