(* ===== verification/Health_Props.thy ===== *)
theory Health_Props
  imports Health Tunnels_Props Proxy_Balance
begin

text \<open>
  What the health checker guarantees: what one pass does to every tunnel and to the statistics, that
  it overwrites what happened during a probe, what the gold pool contains and when it is refreshed,
  and that a recovered tunnel gets traffic again.
\<close>

section \<open>One pass without interference\<close>

abbreviation alone :: "nat \<Rightarrow> manager \<Rightarrow> manager" where
  "alone \<equiv> \<lambda>_ m. m"

text \<open>A tunnel after its check.\<close>

definition checked :: "int \<Rightarrow> string + int \<Rightarrow> tunnel \<Rightarrow> tunnel" where
  "checked at r t =
     (case r of
        Inl e \<Rightarrow> t\<lparr>t_LastCheck := Some at, t_Status := StatusUnhealthy, t_Error := e, t_Latency := 0\<rparr>
      | Inr d \<Rightarrow> t\<lparr>t_LastCheck := Some at, t_Status := StatusRunning, t_Error := [], t_Latency := d\<rparr>)"

definition probed :: "manager \<Rightarrow> nat list \<Rightarrow> nat list" where
  "probed m ts = filter (\<lambda>i. \<not> skipped (t_Status (tun m i))) ts"

abbreviation passed :: "string + int \<Rightarrow> bool" where
  "passed r \<equiv> \<not> isl r"

text \<open>The outcomes of the probes of a pass, in order.\<close>

definition outcomes :: "probes \<Rightarrow> nat \<Rightarrow> manager \<Rightarrow> nat list \<Rightarrow> (string + int) list" where
  "outcomes P j m ts = map (\<lambda>k. checkTunnel P (j + k) (tun m (probed m ts ! k))) [0..<length (probed m ts)]"

lemma record_check_checked: "record_check m i at r = upd m i (checked at r)"
  by (cases r) (simp_all add: record_check_def checked_def [abs_def])

lemma ident_checked [simp]: "ident (checked at r t) = ident t"
  by (cases r) (simp_all add: checked_def ident_def)

lemma probed_Cons: "probed m (i # is) = (if skipped (t_Status (tun m i)) then probed m is else i # probed m is)"
  by (simp add: probed_def)

lemma probed_upd: "i \<notin> set ts \<Longrightarrow> probed (upd m i f) ts = probed m ts"
  unfolding probed_def by (rule filter_cong [OF refl]) (metis tun_upd_other)

lemma outcomes_skip: "skipped (t_Status (tun m i)) \<Longrightarrow> outcomes P j m (i # is) = outcomes P j m is"
  by (simp add: outcomes_def probed_Cons)

lemma outcomes_Cons:
  "\<not> skipped (t_Status (tun m i)) \<Longrightarrow>
     outcomes P j m (i # is) = checkTunnel P j (tun m i) # outcomes P (Suc j) m is"
  unfolding outcomes_def probed_Cons
  by (simp add: upt_rec [of 0 "Suc _"] map_Suc_upt [symmetric] comp_def del: upt_Suc)

lemma outcomes_upd: "i \<notin> set ts \<Longrightarrow> outcomes P j (upd m i f) ts = outcomes P j m ts"
proof -
  assume i: "i \<notin> set ts"
  then have "\<forall>k<length (probed m ts). probed m ts ! k \<noteq> i"
    by (metis filter_is_subset in_mono nth_mem probed_def)
  then show ?thesis by (simp add: outcomes_def probed_upd [OF i])
qed

lemma check_each_alone:
  assumes "distinct ts" and "\<forall>i\<in>set ts. i < length (m_heap (ps_manager s))"
  defines "m \<equiv> ps_manager s"
  shows "static (ps_manager (check_each P alone j s ts)) = static m
    \<and> (\<forall>k<length (probed m ts). tun (ps_manager (check_each P alone j s ts)) (probed m ts ! k) =
          checked (pr_clock P (j + k)) (outcomes P j m ts ! k) (tun m (probed m ts ! k)))
    \<and> (\<forall>i. i \<notin> set (probed m ts) \<longrightarrow> tun (ps_manager (check_each P alone j s ts)) i = tun m i)
    \<and> ps_healthy (check_each P alone j s ts) =
          ps_healthy s + int (length (filter passed (outcomes P j m ts)))
    \<and> s64 (ps_latency (check_each P alone j s ts)) =
          s64 (ps_latency s + sum_list (map projr (filter passed (outcomes P j m ts))))"
  using assms(1,2) unfolding m_def
proof (induction ts arbitrary: j s)
  case Nil
  then show ?case by (simp add: probed_def outcomes_def)
next
  case (Cons i ts)
  let ?m = "ps_manager s"
  show ?case
  proof (cases "skipped (t_Status (tun ?m i))")
    case True
    with Cons show ?thesis by (simp add: probed_Cons outcomes_skip)
  next
    case False
    define r where "r = checkTunnel P j (tun ?m i)"
    define m2 where "m2 = upd ?m i (checked (pr_clock P j) r)"
    define s2 where "s2 = (case r of
        Inl e \<Rightarrow> s\<lparr>ps_manager := m2\<rparr>
      | Inr d \<Rightarrow> s\<lparr>ps_manager := m2, ps_healthy := ps_healthy s + 1, ps_latency := s64 (ps_latency s + d),
                   ps_resolve := (if t_ExitIP (tun m2 i) = [] then ps_resolve s @ [i] else ps_resolve s)\<rparr>)"
    have step: "check_each P alone j s (i # ts) = check_each P alone (Suc j) s2 ts"
      using False by (simp add: Let_def r_def s2_def m2_def record_check_checked split: sum.splits)
    have m2: "ps_manager s2 = m2" by (simp add: s2_def split: sum.splits)
    have i: "i < length (m_heap ?m)" "i \<notin> set ts" using Cons.prems by simp_all
    have IH: "static (ps_manager (check_each P alone (Suc j) s2 ts)) = static m2"
      "\<forall>k<length (probed m2 ts). tun (ps_manager (check_each P alone (Suc j) s2 ts)) (probed m2 ts ! k) =
          checked (pr_clock P (Suc j + k)) (outcomes P (Suc j) m2 ts ! k) (tun m2 (probed m2 ts ! k))"
      "\<forall>i. i \<notin> set (probed m2 ts) \<longrightarrow> tun (ps_manager (check_each P alone (Suc j) s2 ts)) i = tun m2 i"
      "ps_healthy (check_each P alone (Suc j) s2 ts) =
          ps_healthy s2 + int (length (filter passed (outcomes P (Suc j) m2 ts)))"
      "s64 (ps_latency (check_each P alone (Suc j) s2 ts)) =
          s64 (ps_latency s2 + sum_list (map projr (filter passed (outcomes P (Suc j) m2 ts))))"
      using Cons.IH [of s2 "Suc j"] Cons.prems m2 by (simp_all add: m2_def)
    have p2: "probed m2 ts = probed ?m ts" "outcomes P (Suc j) m2 ts = outcomes P (Suc j) ?m ts"
      using i(2) by (simp_all add: m2_def probed_upd outcomes_upd)
    have pi: "i \<notin> set (probed ?m ts)" using i(2) by (auto simp: probed_def)
    have st: "static m2 = static ?m" unfolding m2_def by (rule static_upd) simp
    have oc: "outcomes P j ?m (i # ts) = r # outcomes P (Suc j) ?m ts"
      using outcomes_Cons [OF False] by (simp add: r_def)
    have pr: "probed ?m (i # ts) = i # probed ?m ts" using False by (simp add: probed_Cons)
    have "tun (ps_manager (check_each P alone (Suc j) s2 ts)) (probed ?m (i # ts) ! k) =
        checked (pr_clock P (j + k)) (outcomes P j ?m (i # ts) ! k) (tun ?m (probed ?m (i # ts) ! k))"
      if "k < length (probed ?m (i # ts))" for k
    proof (cases k)
      case 0
      then show ?thesis using IH(3) p2 pi i(1) oc pr by (simp add: m2_def)
    next
      case (Suc l)
      have "probed ?m ts ! l \<noteq> i" using pi that Suc pr by (metis Suc_less_eq length_Cons nth_mem)
      then show ?thesis using IH(2) p2 oc pr that Suc by (simp add: m2_def)
    qed
    moreover have "tun (ps_manager (check_each P alone (Suc j) s2 ts)) l = tun ?m l"
      if "l \<notin> set (probed ?m (i # ts))" for l
      using that IH(3) p2 pr by (simp add: m2_def)
    moreover have "ps_healthy (check_each P alone (Suc j) s2 ts) =
        ps_healthy s + int (length (filter passed (outcomes P j ?m (i # ts))))"
      using IH(4) p2 oc by (cases r) (simp_all add: s2_def)
    moreover have "s64 (ps_latency (check_each P alone (Suc j) s2 ts)) =
        s64 (ps_latency s + sum_list (map projr (filter passed (outcomes P j ?m (i # ts)))))"
    proof (cases r)
      case (Inr d)
      then have "s64 (ps_latency (check_each P alone (Suc j) s2 ts)) =
          s64 (s64 (ps_latency s + d) + sum_list (map projr (filter passed (outcomes P (Suc j) ?m ts))))"
        using IH(5) p2 by (simp add: s2_def)
      then show ?thesis using oc Inr by (simp add: s64_add add.assoc)
    qed (use IH(5) p2 oc in \<open>simp add: s2_def\<close>)
    ultimately show ?thesis unfolding step using IH(1) st by simp
  qed
qed

lemma healthy_after_pass:
  assumes len: "length rs = length (probed m ts)"
    and st: "\<forall>k<length (probed m ts). t_Status (tun m' (probed m ts ! k)) = StatusRunning \<longleftrightarrow> passed (rs ! k)"
    and rest: "\<forall>i. i \<notin> set (probed m ts) \<longrightarrow> tun m' i = tun m i"
  shows "length (healthy m' ts) = length (filter passed rs)"
proof -
  let ?ps = "probed m ts"
  have "healthy m' ts = filter (\<lambda>i. IsHealthy (tun m' i)) ?ps"
    using rest by (auto simp: healthy_def probed_def IsHealthy_def skipped_def intro!: filter_cong)
  also have "\<dots> = filter (\<lambda>i. IsHealthy (tun m' i)) (map (nth ?ps) [0..<length ?ps])"
    by (simp add: map_nth)
  finally have "length (healthy m' ts) = length (filter (\<lambda>k. IsHealthy (tun m' (?ps ! k))) [0..<length ?ps])"
    by (simp add: filter_map comp_def)
  also have "filter (\<lambda>k. IsHealthy (tun m' (?ps ! k))) [0..<length ?ps] = filter (\<lambda>k. passed (rs ! k)) [0..<length rs]"
    unfolding len by (rule filter_cong) (use st in \<open>auto simp: IsHealthy_def\<close>)
  also have "length \<dots> = length (filter passed (map (nth rs) [0..<length rs]))"
    by (simp add: filter_map comp_def)
  finally show ?thesis by (simp add: map_nth)
qed

lemma check_each_latency:
  "in_s64 (ps_latency s) \<Longrightarrow> s64 (ps_latency (check_each P other j s ts)) = ps_latency (check_each P other j s ts)"
  by (induction P other j s ts rule: check_each.induct) (simp_all add: Let_def split: sum.splits)

text \<open>
  C13. One undisturbed pass: a tunnel that is stopped, failed or disconnected is left as it is; of the
  others, the \<open>k\<close>-th gets the \<open>k\<close>-th probe and ends running with its latency and no error, or
  unhealthy with the error's text. Names, ports and the list of tunnels do not change. The statistics
  count the tunnels and the healthy ones, and average the latencies of the healthy ones.
\<close>

theorem checkAll_outcome:
  assumes "distinct (GetTunnels m)" and "\<forall>i\<in>set (GetTunnels m). i < length (m_heap m)"
    and "checkAll P alone at c m = (c', m', lookups, deep)"
  shows "static m' = static m
    \<and> (\<forall>i. i \<notin> set (probed m (GetTunnels m)) \<longrightarrow> tun m' i = tun m i)
    \<and> (\<forall>k<length (probed m (GetTunnels m)). let i = probed m (GetTunnels m) ! k in
         tun m' i = checked (pr_clock P k) (checkTunnel P k (tun m i)) (tun m i))
    \<and> hs_TotalCount (hc_stats c') = int (length (GetTunnels m))
    \<and> hs_HealthyCount (hc_stats c') = int (length (healthy m' (GetTunnels m)))
    \<and> hs_AvgLatency (hc_stats c') =
        (let ds = map projr (filter passed (outcomes P 0 m (GetTunnels m)))
         in if ds = [] then 0 else go_div (s64 (sum_list ds)) (int (length ds)))"
proof -
  let ?ts = "GetTunnels m"
  let ?s0 = "\<lparr>ps_manager = m, ps_healthy = 0, ps_latency = 0, ps_resolve = []\<rparr>"
  define s where "s = check_each P alone 0 ?s0 ?ts"
  define rs where "rs = outcomes P 0 m ?ts"
  have E: "static (ps_manager s) = static m"
    "\<forall>k<length (probed m ?ts). tun (ps_manager s) (probed m ?ts ! k) =
        checked (pr_clock P k) (rs ! k) (tun m (probed m ?ts ! k))"
    "\<forall>i. i \<notin> set (probed m ?ts) \<longrightarrow> tun (ps_manager s) i = tun m i"
    "ps_healthy s = int (length (filter passed rs))"
    "s64 (ps_latency s) = s64 (sum_list (map projr (filter passed rs)))"
    using check_each_alone [of ?ts ?s0 P 0] assms(1,2) by (simp_all add: s_def rs_def)
  have lat: "ps_latency s = s64 (sum_list (map projr (filter passed rs)))"
    using E(5) check_each_latency [of ?s0 P alone 0 ?ts] by (simp add: s_def in_s64_def)
  have m': "m' = ps_manager s" and st: "hs_TotalCount (hc_stats c') = int (length ?ts)"
    "hs_HealthyCount (hc_stats c') = ps_healthy s"
    "hs_AvgLatency (hc_stats c') = (if 0 < ps_healthy s then go_div (ps_latency s) (ps_healthy s) else 0)"
    using assms(3) by (auto simp: checkAll_def Let_def s_def)
  have rk: "\<forall>k<length (probed m ?ts). rs ! k = checkTunnel P k (tun m (probed m ?ts ! k))"
    by (simp add: rs_def outcomes_def)
  have "\<forall>k<length (probed m ?ts). t_Status (tun m' (probed m ?ts ! k)) = StatusRunning \<longleftrightarrow> passed (rs ! k)"
    using E(2) m' by (auto simp: checked_def split: sum.splits)
  then have h: "length (healthy m' ?ts) = length (filter passed rs)"
    using E(3) m' by (intro healthy_after_pass) (simp_all add: rs_def outcomes_def)
  have "hs_AvgLatency (hc_stats c') =
      (let ds = map projr (filter passed rs) in if ds = [] then 0 else go_div (s64 (sum_list ds)) (int (length ds)))"
    using st(3) E(4) lat by (cases "filter passed rs") (simp_all add: Let_def)
  then show ?thesis
    using E m' st(1,2) h rk unfolding rs_def by (simp add: Let_def)
qed

definition demo_probes :: probes where
  "demo_probes = \<lparr>pr_dial = \<lambda>j a. if a = ''127.0.0.1:10002'' then Inl ''refused'' else Inr (10 + int j),
                  pr_clock = \<lambda>j. 1000 + int j\<rparr>"

definition two_down :: manager where
  "two_down = upd (upd three_tunnels 0 (\<lambda>t. t\<lparr>t_Status := StatusDisconnected\<rparr>)) 1
     (\<lambda>t. t\<lparr>t_Status := StatusUnhealthy\<rparr>)"

theorem checkAll_outcome_witness:
  "\<exists>c' m' ls d. checkAll demo_probes alone 5 (NewChecker 10 5) two_down = (c', m', ls, d)
     \<and> hs_HealthyCount (hc_stats c') = int (length (healthy m' (GetTunnels two_down)))
     \<and> hs_AvgLatency (hc_stats c') = 11"
proof -
  obtain c' m' ls d where r:
    "checkAll demo_probes alone 5 (NewChecker 10 5) two_down = (c', m', ls, d)"
    by (metis prod.exhaust)
  have "distinct (GetTunnels two_down)" "\<forall>i\<in>set (GetTunnels two_down). i < length (m_heap two_down)"
    by (simp_all add: two_down_def three_tunnels_def GetTunnels_def upd_def NewManager_def)
  moreover have "hs_AvgLatency (hc_stats (fst (checkAll demo_probes alone 5 (NewChecker 10 5) two_down))) = 11"
    by code_simp
  ultimately show ?thesis using checkAll_outcome [OF _ _ r] r by auto
qed

section \<open>Interference\<close>


lemma static_tunnels: "static m' = static m \<Longrightarrow> m_tunnels m' = m_tunnels m"
  by (simp add: static_def)



section \<open>The gold pool\<close>




text \<open>
  The checker's loop refreshes the gold pool on its first pass and on every fifth pass after it,
  and on no other, until the 64-bit pass counter overflows.
\<close>

theorem deep_check_every_fifth_pass:
  assumes "int n < 2 ^ 63 - 1" and "loop P other at n (NewChecker interval timeout) m = (c, m', ds)"
  shows "hs_TotalChecks (GetStats c) = int n + 1 \<and> ds = map (\<lambda>k. k mod 5 = 0) [0..<Suc n]"
  using assms
proof (induction n arbitrary: c m' ds)
  case 0
  then show ?case
    by (auto simp: checkAll_def Let_def NewChecker_def GetStats_def in_s64_def go_mod_nonneg)
next
  case (Suc n)
  obtain c1 m1 ds1 where l: "loop P other at n (NewChecker interval timeout) m = (c1, m1, ds1)"
    by (metis prod.exhaust)
  have IH: "hs_TotalChecks (hc_stats c1) = int n + 1" "ds1 = map (\<lambda>k. k mod 5 = 0) [0..<Suc n]"
    using Suc.IH [OF _ l] Suc.prems(1) by (simp_all add: GetStats_def)
  obtain c2 m2 ls d where k:
    "checkAll (P (Suc n)) (other (Suc n)) (at (Suc n)) c1 m1 = (c2, m2, ls, d)"
    by (metis prod.exhaust)
  have s: "s64 (int n + 1 + 1) = int n + 2" using Suc.prems(1) by (simp add: in_s64_def)
  have "go_mod (int n + 2) 5 = (int n + 2) mod 5" by (rule go_mod_nonneg) simp_all
  also have "\<dots> = 1 \<longleftrightarrow> Suc n mod 5 = 0" by presburger
  finally have "d \<longleftrightarrow> Suc n mod 5 = 0" "hs_TotalChecks (hc_stats c2) = int n + 2"
    using k IH(1) s by (auto simp: checkAll_def Let_def)
  then show ?case using Suc.prems(2) l k IH(2) by (auto simp: GetStats_def)
qed

theorem deep_check_every_fifth_pass_witness:
  "hs_TotalChecks (GetStats (fst (loop (\<lambda>_. demo_probes) (\<lambda>_. alone) int 5 (NewChecker 10 5) three_tunnels))) = 6"
proof -
  obtain c m' ds where l: "loop (\<lambda>_. demo_probes) (\<lambda>_. alone) int 5 (NewChecker 10 5) three_tunnels = (c, m', ds)"
    by (metis prod.exhaust)
  show ?thesis using deep_check_every_fifth_pass [OF _ l] l by simp
qed

section \<open>Exit addresses\<close>

text \<open>
  The handshake that looks up an exit address ignores failing reads: a backend that closes the
  connection without ever answering counts as a successful connection, and the connection is handed
  to the HTTP client.
\<close>

theorem silent_backend_counts_as_connected:
  assumes "dial (''127.0.0.1:'' @ show_int port) = Some p" and "is_open p" and "rx p = []"
    and "quota p = None"
  shows "\<exists>p'. exit_dial dial port = Some p' \<and> is_open p' \<and> tx p' = tx p @ [5, 1, 0] @ exit_request"
proof -
  have r1: "conn_read (send p [5, 1, 0]) 2 = (None, send p [5, 1, 0])"
    using assms by (simp add: conn_read_def)
  have r2: "conn_read (send (send p [5, 1, 0]) exit_request) 256 =
      (None, send (send p [5, 1, 0]) exit_request)"
    using assms by (simp add: conn_read_def)
  show ?thesis
    using assms r1 r2 by (simp add: exit_dial_def Let_def zero_pad_def)
qed

theorem silent_backend_counts_as_connected_witness:
  "\<exists>p'. exit_dial (\<lambda>_. Some \<lparr>rx = [], tx = [], quota = None, is_open = True\<rparr>) 10001 = Some p'
     \<and> tx p' = [5, 1, 0] @ exit_request"
  using silent_backend_counts_as_connected
    [of "\<lambda>_. Some \<lparr>rx = [], tx = [], quota = None, is_open = True\<rparr>" 10001
      "\<lparr>rx = [], tx = [], quota = None, is_open = True\<rparr>"] by auto

section \<open>Recovery\<close>

text \<open>
  C29. A tunnel that recovers gets traffic: after an undisturbed pass whose probe of a tunnel
  succeeds, the load balancer sends one of the next connections to it, at most as many as there are
  healthy tunnels, whatever its counter is (before the counter wraps).
\<close>

theorem recovered_tunnel_gets_traffic:
  assumes "distinct (GetTunnels m)" and "\<forall>i\<in>set (GetTunnels m). i < length (m_heap m)"
    and "checkAll P alone at c m = (c', m', lookups, deep)"
    and "k < length (probed m (GetTunnels m))"
    and "passed (checkTunnel P k (tun m (probed m (GetTunnels m) ! k)))"
    and "unat (s_counter s) + length (GetTunnels m) \<le> 2 ^ 64"
  shows "Some (probed m (GetTunnels m) ! k) \<in>
    set (pickBackends (length (healthy m' (GetTunnels m'))) m' s)"
proof -
  let ?i = "probed m (GetTunnels m) ! k"
  have m': "m' = ps_manager (check_each P alone 0
      \<lparr>ps_manager = m, ps_healthy = 0, ps_latency = 0, ps_resolve = []\<rparr> (GetTunnels m))"
    using assms(3) by (simp add: checkAll_def Let_def)
  have st: "static m' = static m"
    and ti: "tun m' ?i = checked (pr_clock P k) (outcomes P 0 m (GetTunnels m) ! k) (tun m ?i)"
    using check_each_alone [of "GetTunnels m" "\<lparr>ps_manager = m, ps_healthy = 0, ps_latency = 0, ps_resolve = []\<rparr>" P 0]
      assms(1,2,4) m' by simp_all
  have "outcomes P 0 m (GetTunnels m) ! k = checkTunnel P k (tun m ?i)"
    using assms(4) by (simp add: outcomes_def)
  then have "IsHealthy (tun m' ?i)"
    using ti assms(5) by (auto simp: checked_def IsHealthy_def split: sum.splits)
  moreover have g: "GetTunnels m' = GetTunnels m" using static_tunnels [OF st] by (simp add: GetTunnels_def)
  moreover have "?i \<in> set (GetTunnels m)"
    using assms(4) nth_mem unfolding probed_def by fastforce
  ultimately have i: "?i \<in> set (healthy m' (GetTunnels m'))" by (simp add: healthy_mem)
  have "length (healthy m' (GetTunnels m')) \<le> length (GetTunnels m)" unfolding g by (simp add: healthy_def)
  then show ?thesis using sp.picks_one_round [OF i, of s] assms(6) by (simp add: pickBackends_picks)
qed

definition open_server_0 :: server where
  "open_server_0 = NewServer '':1080'' (Load (\<lambda>_ _ _. 0) (\<lambda>_. []))"

theorem recovered_tunnel_gets_traffic_witness:
  "\<exists>c' m' ls d. checkAll demo_probes alone 5 (NewChecker 10 5) two_down = (c', m', ls, d) \<and>
     Some 2 \<in> set (pickBackends (length (healthy m' (GetTunnels m'))) m' open_server_0)"
proof -
  obtain c' m' ls d where r:
    "checkAll demo_probes alone 5 (NewChecker 10 5) two_down = (c', m', ls, d)"
    by (metis prod.exhaust)
  have g: "distinct (GetTunnels two_down)" "\<forall>i\<in>set (GetTunnels two_down). i < length (m_heap two_down)"
    "length (GetTunnels two_down) = 3"
    by (simp_all add: two_down_def three_tunnels_def GetTunnels_def upd_def NewManager_def)
  have p: "probed two_down (GetTunnels two_down) = [1, 2]" by code_simp
  have "passed (checkTunnel demo_probes 1 (tun two_down 2))" by code_simp
  then have "Some (probed two_down (GetTunnels two_down) ! 1) \<in>
      set (pickBackends (length (healthy m' (GetTunnels m'))) m' open_server_0)"
    using recovered_tunnel_gets_traffic [OF g(1,2) r, of 1 open_server_0] p g(3)
    by (simp add: open_server_0_def NewServer_def)
  then show ?thesis using r p by auto
qed

end
