(* ===== verification/Net.thy ===== *)
theory Net
  imports Utf8
begin

text \<open>
  The part of Go's \<^verbatim>\<open>net\<close> package that the VPN server uses: \<^verbatim>\<open>ParseCIDR\<close>, \<^verbatim>\<open>IP.String\<close>, \<^verbatim>\<open>IP.To4\<close>,
  \<^verbatim>\<open>IP.Mask\<close>, \<^verbatim>\<open>IPMask.Size\<close>, \<^verbatim>\<open>IPNet.Contains\<close> and \<^verbatim>\<open>IP.IsLoopback\<close>, for IPv4 and IPv6. A \<^verbatim>\<open>net.IP\<close>
  is its list of bytes.
\<close>

unbundle bit_operations_syntax

type_synonym ip = "byte list"

record ipnet =
  n_IP :: ip
  n_Mask :: "byte list"

section \<open>Parsing addresses\<close>

text \<open>
  \<^verbatim>\<open>parseIPv4Fields\<close>: the value and the number of digits of the current field, the fields so far,
  and whether the previous character is a dot (or there is none).
\<close>

fun ipv4_fields :: "nat \<Rightarrow> nat \<Rightarrow> ip \<Rightarrow> bool \<Rightarrow> string \<Rightarrow> ip option" where
  "ipv4_fields val digLen fs start [] =
     (if length fs < 3 then None else Some (fs @ [of_nat val]))"
| "ipv4_fields val digLen fs start (c # cs) =
     (if is_digit c then
        (if digLen = 1 \<and> val = 0 then None
         else if 255 < val * 10 + digit_val c then None
         else ipv4_fields (val * 10 + digit_val c) (Suc digLen) fs False cs)
      else if c = CHR ''.'' then
        (if start \<or> cs = [] then None
         else if length fs = 3 then None
         else ipv4_fields 0 0 (fs @ [of_nat val]) True cs)
      else None)"

definition parse_ipv4 :: "string \<Rightarrow> ip option" where
  "parse_ipv4 s = ipv4_fields 0 0 [] True s"

definition hex_val :: "char \<Rightarrow> nat option" where
  "hex_val c =
     (let n = of_char c :: nat in
      if 48 \<le> n \<and> n \<le> 57 then Some (n - 48)
      else if 97 \<le> n \<and> n \<le> 102 then Some (n - 87)
      else if 65 \<le> n \<and> n \<le> 70 then Some (n - 55)
      else None)"

definition is_hex :: "char \<Rightarrow> bool" where
  "is_hex c \<longleftrightarrow> hex_val c \<noteq> None"

definition read_hex :: "string \<Rightarrow> nat" where
  "read_hex s = foldl (\<lambda>n c. n * 16 + the (hex_val c)) 0 s"

text \<open>The loop of \<^verbatim>\<open>parseIPv6\<close>: bytes so far, position of the ellipsis, rest of the string.\<close>

function ipv6_loop ::
    "ip \<Rightarrow> nat option \<Rightarrow> string \<Rightarrow> (ip \<times> nat option \<times> string) option" where
  "ipv6_loop bs ell s =
     (if 16 \<le> length bs then Some (bs, ell, s)
      else (let ds = takeWhile is_hex s; r = dropWhile is_hex s in
        if ds = [] \<or> 4 < length ds then None
        else if r \<noteq> [] \<and> hd r = CHR ''.'' then
          (if (ell = None \<and> length bs \<noteq> 12) \<or> 16 < length bs + 4 then None
           else (case parse_ipv4 s of None \<Rightarrow> None | Some f \<Rightarrow> Some (bs @ f, ell, [])))
        else (let bs' = bs @ [of_nat (read_hex ds div 256), of_nat (read_hex ds mod 256)] in
          if r = [] then Some (bs', ell, [])
          else if hd r \<noteq> CHR '':'' \<or> tl r = [] then None
          else if hd (tl r) = CHR '':'' then
            (if ell \<noteq> None then None
             else if tl (tl r) = [] then Some (bs', Some (length bs'), [])
             else ipv6_loop bs' (Some (length bs')) (tl (tl r)))
          else ipv6_loop bs' ell (tl r))))"
  by pat_completeness auto
termination
proof (relation "measure (\<lambda>(bs, ell, s). length s)", goal_cases)
  case 1
  then show ?case by simp
next
  case (2 bs ell s ds r bs')
  have "length r \<le> length s" using 2(3) length_dropWhile_le [of is_hex s] by simp
  moreover have "length (tl (tl r)) < length r" using 2(7) by (cases r) auto
  ultimately show ?case by simp
next
  case (3 bs ell s ds r bs')
  have "length r \<le> length s" using 3(3) length_dropWhile_le [of is_hex s] by simp
  moreover have "length (tl r) < length r" using 3(7) by (cases r) auto
  ultimately show ?case by simp
qed

declare ipv6_loop.simps [simp del]

definition ipv6_finish :: "ip \<times> nat option \<times> string \<Rightarrow> ip option" where
  "ipv6_finish p =
     (case p of (bs, ell, s) \<Rightarrow>
        if s \<noteq> [] then None
        else if length bs < 16 then
          (case ell of None \<Rightarrow> None
             | Some e \<Rightarrow> Some (take e bs @ replicate (16 - length bs) 0 @ drop e bs))
        else if ell \<noteq> None then None else Some bs)"

definition parse_ipv6 :: "string \<Rightarrow> ip option" where
  "parse_ipv6 s =
     (if has_prefix s ''::'' then
        (if drop 2 s = [] then Some (replicate 16 0)
         else Option.bind (ipv6_loop [] (Some 0) (drop 2 s)) ipv6_finish)
      else Option.bind (ipv6_loop [] None s) ipv6_finish)"

text \<open>
  \<^verbatim>\<open>netip.ParseAddr\<close> decides by the first dot or colon. An address with a zone is refused by
  \<^verbatim>\<open>ParseCIDR\<close>, whatever the zone, so a percent sign always means failure here.
\<close>

definition parse_addr :: "string \<Rightarrow> ip option" where
  "parse_addr s =
     (if CHR ''%'' \<in> set s then None
      else (case find (\<lambda>c. c = CHR ''.'' \<or> c = CHR '':'') s of
          None \<Rightarrow> None
        | Some c \<Rightarrow> if c = CHR ''.'' then parse_ipv4 s else parse_ipv6 s))"

section \<open>Masks and networks\<close>

fun cidr_mask :: "nat \<Rightarrow> nat \<Rightarrow> byte list" where
  "cidr_mask n 0 = []"
| "cidr_mask n (Suc l) =
     (if 8 \<le> n then 255 # cidr_mask (n - 8) l else (NOT (drop_bit n 255)) # cidr_mask 0 l)"

definition to4 :: "ip \<Rightarrow> ip option" where
  "to4 a =
     (if length a = 4 then Some a
      else if length a = 16 \<and> take 12 a = replicate 10 0 @ [255, 255] then Some (drop 12 a)
      else None)"

text \<open>
  \<^verbatim>\<open>net.ParseCIDR\<close>: address, slash, a decimal prefix length of at most 32 or 128 bits; the network
  is the address under the mask.
\<close>

definition ParseCIDR :: "string \<Rightarrow> ipnet option" where
  "ParseCIDR s =
     (if CHR ''/'' \<notin> set s then None
      else (let addr = takeWhile (\<lambda>c. c \<noteq> CHR ''/'') s;
                mask = drop (Suc (length addr)) s
            in case parse_addr addr of
                 None \<Rightarrow> None
               | Some a \<Rightarrow>
                   if mask = [] \<or> \<not> list_all is_digit mask \<or> 8 * length a < read_nat mask then None
                   else (let m = cidr_mask (read_nat mask) (length a)
                         in Some \<lparr>n_IP = map2 (AND) a m, n_Mask = m\<rparr>)))"

text \<open>\<^verbatim>\<open>IPMask.Size\<close>: the number of leading ones, and 0 for a mask that is not canonical.\<close>

fun byte_ones :: "nat \<Rightarrow> byte \<Rightarrow> nat option" where
  "byte_ones 0 v = (if v = 0 then Some 0 else None)"
| "byte_ones (Suc k) v =
     (if v AND 128 \<noteq> 0 then map_option Suc (byte_ones k (push_bit 1 v))
      else if v = 0 then Some 0 else None)"

fun mask_ones :: "byte list \<Rightarrow> nat option" where
  "mask_ones [] = Some 0"
| "mask_ones (v # vs) =
     (if v = 255 then map_option ((+) 8) (mask_ones vs)
      else if list_all (\<lambda>x. x = 0) vs then byte_ones 8 v else None)"

definition mask_size :: "byte list \<Rightarrow> nat" where
  "mask_size m = (case mask_ones m of None \<Rightarrow> 0 | Some n \<Rightarrow> n)"

definition Contains :: "ipnet \<Rightarrow> ip \<Rightarrow> bool" where
  "Contains n a =
     (let nn = (case to4 (n_IP n) of Some b \<Rightarrow> b
                | None \<Rightarrow> if length (n_IP n) = 16 then n_IP n else []);
          m = (if length (n_Mask n) = 16 \<and> length nn = 4 then drop 12 (n_Mask n) else n_Mask n);
          b = (case to4 a of Some b \<Rightarrow> b | None \<Rightarrow> a)
      in length b = length nn \<and> length m = length nn \<and>
         map2 (AND) nn m = map2 (AND) b m)"

definition IsLoopback :: "ip \<Rightarrow> bool" where
  "IsLoopback a =
     (case to4 a of Some b \<Rightarrow> hd b = 127 | None \<Rightarrow> a = replicate 15 0 @ [1])"

section \<open>Printing addresses\<close>

fun show_hex :: "nat \<Rightarrow> string" where
  "show_hex n = (if n < 16 then [hex_char n] else show_hex (n div 16) @ [hex_char (n mod 16)])"

declare show_hex.simps [simp del]

fun groups16 :: "ip \<Rightarrow> nat list" where
  "groups16 (a # b # r) = (unat a * 256 + unat b) # groups16 r"
| "groups16 _ = []"

definition zero_run :: "nat list \<Rightarrow> nat \<Rightarrow> nat" where
  "zero_run gs i = length (takeWhile (\<lambda>g. g = 0) (drop i gs))"

definition best_run :: "nat list \<Rightarrow> nat \<times> nat" where
  "best_run gs =
     foldl (\<lambda>(zs, ze) i. if 2 \<le> zero_run gs i \<and> ze - zs < zero_run gs i then (i, i + zero_run gs i)
                         else (zs, ze)) (255, 255) [0..<8]"

function print6 :: "nat list \<Rightarrow> nat \<Rightarrow> nat \<Rightarrow> nat \<Rightarrow> string" where
  "print6 gs zs ze i =
     (if 8 \<le> i then []
      else if i = zs \<and> zs < ze then
        ''::'' @ (if 8 \<le> ze then [] else show_hex (gs ! ze) @ print6 gs zs ze (Suc ze))
      else (if 0 < i then '':'' else []) @ show_hex (gs ! i) @ print6 gs zs ze (Suc i))"
  by pat_completeness auto
termination by (relation "measure (\<lambda>(gs, zs, ze, i). 8 - i)") auto

declare print6.simps [simp del]

definition show_octet :: "byte \<Rightarrow> string" where
  "show_octet b = show_nat (unat b)"

definition ip_String :: "ip \<Rightarrow> string" where
  "ip_String a =
     (case to4 a of
        Some b \<Rightarrow> join_with ''.'' (map show_octet b)
      | None \<Rightarrow>
          if length a = 16
          then (case best_run (groups16 a) of (zs, ze) \<Rightarrow> print6 (groups16 a) zs ze 0)
          else if a = [] then ''<nil>''
          else CHR ''?'' # concat (map (\<lambda>b. [hex_char (unat b div 16), hex_char (unat b mod 16)]) a))"

section \<open>IPv4 addresses\<close>

lemma ipv4_fields_digits:
  assumes "n \<le> 255" and "r = [] \<or> \<not> is_digit (hd r)"
  shows "ipv4_fields 0 0 f st (show_nat n @ r) = ipv4_fields n (length (show_nat n)) f False r"
proof -
  have step: "ipv4_fields v k f s (ds @ r) = ipv4_fields (foldl dec_step v ds) (k + length ds) f False r"
    if "\<forall>c\<in>set ds. is_digit c" "foldl dec_step v ds \<le> 255" "ds \<noteq> []"
      "v \<noteq> 0 \<or> k = 0" "length ds = 1 \<or> v \<noteq> 0 \<or> digit_val (hd ds) \<noteq> 0" for v k s ds
    using that
  proof (induction ds arbitrary: v k s)
    case Nil
    then show ?case by simp
  next
    case (Cons c cs)
    have "dec_step v c \<le> 255" using foldl_dec_mono [of "dec_step v c" cs] Cons.prems(2) by simp
    then have le2: "v * 10 + digit_val c \<le> 255" by (simp add: dec_step_def)
    have s: "ipv4_fields v k f s ((c # cs) @ r) =
        ipv4_fields (v * 10 + digit_val c) (Suc k) f False (cs @ r)"
      using Cons.prems(1,4) le2 by auto
    show ?case
    proof (cases "cs = []")
      case True
      then show ?thesis using s by (simp add: dec_step_def)
    next
      case False
      then have nz: "v * 10 + digit_val c \<noteq> 0" using Cons.prems(5) by auto
      show ?thesis
        unfolding s using Cons.IH [of "v * 10 + digit_val c" "Suc k" False] Cons.prems(1,2) False nz
        by (simp add: dec_step_def)
    qed
  qed
  have lead: "length (show_nat n) = 1 \<or> digit_val (hd (show_nat n)) \<noteq> 0" for n
  proof (induction n rule: show_nat.induct)
    case (1 n)
    show ?case
    proof (cases "n < 10")
      case True
      then show ?thesis by (simp add: show_nat.simps [of n])
    next
      case False
      have "length (show_nat (n div 10)) = 1 \<Longrightarrow> digit_val (hd (show_nat (n div 10))) \<noteq> 0"
      proof -
        assume l: "length (show_nat (n div 10)) = 1"
        then have "n div 10 < 10" by (simp add: show_nat.simps [of "n div 10"] split: if_splits)
        then have "show_nat (n div 10) = [digit_char (n div 10)]" by (simp add: show_nat.simps [of "n div 10"])
        then show ?thesis using \<open>n div 10 < 10\<close> False by simp
      qed
      then show ?thesis using 1 False by (auto simp: show_nat.simps [of n])
    qed
  qed
  have "foldl dec_step 0 (show_nat n) = n" using read_nat_show_nat [of n] by (simp add: read_nat_def)
  then show ?thesis
    using step [of "show_nat n" 0 0 st] lead [of n] show_nat_digits assms(1) by auto
qed

lemma unat_octet: "unat (b :: byte) \<le> 255"
  using unsigned_less [of b, where 'a = nat] by simp

text \<open>An IPv4 address survives printing and parsing.\<close>

lemma parse_ipv4_String: "parse_ipv4 (ip_String [a, b, c, d]) = Some [a, b, c, d]"
proof -
  have nd: "\<not> is_digit (CHR ''.'')" by (simp add: is_digit_def)
  have ne: "show_nat n \<noteq> []" for n by simp
  show ?thesis
    by (simp add: parse_ipv4_def ip_String_def to4_def show_octet_def ipv4_fields_digits unat_octet
        nd del: show_nat_digits)
      (simp add: ipv4_fields_digits [where r = "[]", simplified] unat_octet)
qed

lemma ip_String_inj4:
  "length a = 4 \<Longrightarrow> length b = 4 \<Longrightarrow> ip_String a = ip_String b \<longleftrightarrow> a = b"
proof -
  have four: "\<exists>w x y z. a = [w, x, y, z]" if "length a = 4" for a :: ip
    using that by (auto simp: numeral_eq_Suc length_Suc_conv)
  assume "length a = 4" "length b = 4"
  then show ?thesis using four parse_ipv4_String by (metis option.inject)
qed

end
