(* ===== verification/Json.thy ===== *)
theory Json
  imports Net
begin

text \<open>
  The part of Go's \<^verbatim>\<open>encoding/json\<close> that the program uses: printing with HTML escaping, compact or
  indented, and parsing. Strings are bytes; bytes that are not valid UTF-8 are printed and read as
  the replacement character, as Go does.
\<close>

section \<open>Values\<close>

text \<open>
  A string literal is kept as it stands between its quotes: \<open>esc_string\<close> makes one and \<open>unquote\<close>
  reads it, which happens only where the decoder stores into a string.
\<close>

datatype json =
    JNull
  | JBool bool
  | JNum string
  | JLit string
  | JArr "json list"
  | JObj "(string \<times> json) list"

section \<open>Printing\<close>

abbreviation bsl :: char where
  "bsl \<equiv> CHR 0x5C"

definition esc_u :: "nat \<Rightarrow> string" where
  "esc_u n = [bsl, CHR ''u'', hex_char (n div 4096 mod 16), hex_char (n div 256 mod 16),
              hex_char (n div 16 mod 16), hex_char (n mod 16)]"

definition esc_ascii :: "char \<Rightarrow> string" where
  "esc_ascii c =
     (if c = bsl \<or> c = CHR 0x22 then [bsl, c]
      else if c = CHR 0x08 then [bsl, CHR ''b'']
      else if c = CHR 0x0C then [bsl, CHR ''f'']
      else if c = CHR 0x0A then [bsl, CHR ''n'']
      else if c = CHR 0x0D then [bsl, CHR ''r'']
      else if c = CHR 0x09 then [bsl, CHR ''t'']
      else if byte_in 0 0x1F c \<or> c = CHR ''<'' \<or> c = CHR ''>'' \<or> c = CHR ''&'' then esc_u (of_char c)
      else [c])"

text \<open>
  \<^verbatim>\<open>appendString\<close> with HTML escaping: a byte that starts no valid sequence becomes the escape of
  U+FFFD, and U+2028 and U+2029 are escaped too.
\<close>

function esc_string :: "string \<Rightarrow> string" where
  "esc_string s =
     (if s = [] then []
      else if byte_in 0 0x7F (hd s) then esc_ascii (hd s) @ esc_string (drop 1 s)
      else if rune_len s = 0 then esc_u 0xFFFD @ esc_string (drop 1 s)
      else if take 3 s = [CHR 0xE2, CHR 0x80, CHR 0xA8] then esc_u 0x2028 @ esc_string (drop 3 s)
      else if take 3 s = [CHR 0xE2, CHR 0x80, CHR 0xA9] then esc_u 0x2029 @ esc_string (drop 3 s)
      else take (rune_len s) s @ esc_string (drop (rune_len s) s))"
  by pat_completeness auto
termination
  by (relation "measure length") auto

declare esc_string.simps [simp del]

definition JStr :: "string \<Rightarrow> json" where
  "JStr s = JLit (esc_string s)"

definition quoted :: "string \<Rightarrow> string" where
  "quoted lit = CHR 0x22 # lit @ [CHR 0x22]"

text \<open>
  \<open>nl d\<close> is what stands between the elements at depth \<open>d\<close>: nothing for \<^verbatim>\<open>Marshal\<close>, a newline and
  the indentation for \<^verbatim>\<open>MarshalIndent\<close>; \<open>col\<close> is what follows the colon. Keys are literals.
\<close>

fun print_json :: "(nat \<Rightarrow> string) \<Rightarrow> string \<Rightarrow> nat \<Rightarrow> json \<Rightarrow> string" where
  "print_json nl col d JNull = ''null''"
| "print_json nl col d (JBool b) = (if b then ''true'' else ''false'')"
| "print_json nl col d (JNum t) = t"
| "print_json nl col d (JLit s) = quoted s"
| "print_json nl col d (JArr vs) =
     (if vs = [] then ''[]''
      else CHR ''['' # nl (Suc d) @
             join_with (CHR '','' # nl (Suc d)) (map (print_json nl col (Suc d)) vs) @ nl d @ '']'')"
| "print_json nl col d (JObj kvs) =
     (if kvs = [] then ''{}''
      else CHR ''{'' # nl (Suc d) @
             join_with (CHR '','' # nl (Suc d))
               (map (\<lambda>(k, v). quoted k @ CHR '':'' # col @ print_json nl col (Suc d) v) kvs) @ nl d @ ''}'')"

definition Marshal :: "json \<Rightarrow> string" where
  "Marshal v = print_json (\<lambda>_. []) [] 0 v"

definition indent2 :: "nat \<Rightarrow> string" where
  "indent2 d = CHR 0x0A # replicate (2 * d) (CHR '' '')"

text \<open>\<^verbatim>\<open>json.MarshalIndent(v, "", "  ")\<close>.\<close>

definition MarshalIndent :: "json \<Rightarrow> string" where
  "MarshalIndent v = print_json indent2 '' '' 0 v"

section \<open>Parsing\<close>

definition is_ws :: "char \<Rightarrow> bool" where
  "is_ws c \<longleftrightarrow> c = CHR 0x20 \<or> c = CHR 0x09 \<or> c = CHR 0x0A \<or> c = CHR 0x0D"

abbreviation skip_ws :: "string \<Rightarrow> string" where
  "skip_ws \<equiv> dropWhile is_ws"

definition hex4 :: "string \<Rightarrow> nat option" where
  "hex4 s = (if length (take 4 s) = 4 \<and> list_all is_hex (take 4 s) then Some (read_hex (take 4 s)) else None)"

definition simple_escape :: "char \<Rightarrow> char option" where
  "simple_escape c =
     (if c = CHR 0x22 \<or> c = CHR 0x5C \<or> c = CHR ''/'' then Some c
      else if c = CHR ''b'' then Some (CHR 0x08)
      else if c = CHR ''f'' then Some (CHR 0x0C)
      else if c = CHR ''n'' then Some (CHR 0x0A)
      else if c = CHR ''r'' then Some (CHR 0x0D)
      else if c = CHR ''t'' then Some (CHR 0x09)
      else None)"

text \<open>
  A string literal after its opening quote: what stands before the closing quote and what follows it.
\<close>

fun scan_string :: "string \<Rightarrow> (string \<times> string) option" where
  "scan_string [] = None"
| "scan_string (c # r) =
     (if c = CHR 0x22 then Some ([], r)
      else if byte_in 0 0x1F c then None
      else if c = bsl then
        (case r of
           [] \<Rightarrow> None
         | e # r1 \<Rightarrow>
             if simple_escape e \<noteq> None then map_option (apfst (\<lambda>l. c # e # l)) (scan_string r1)
             else if e = CHR ''u'' then
               (case r1 of
                  h1 # h2 # h3 # h4 # r2 \<Rightarrow>
                    if list_all is_hex [h1, h2, h3, h4]
                    then map_option (apfst (\<lambda>l. c # e # h1 # h2 # h3 # h4 # l)) (scan_string r2)
                    else None
                | _ \<Rightarrow> None)
             else None)
      else map_option (apfst (\<lambda>l. c # l)) (scan_string r))"

text \<open>
  What follows the two characters of a Unicode escape: the bytes it stands for and the rest. A
  surrogate counts together with a fitting second escape, and as the replacement character without
  one.
\<close>

definition unicode_escape :: "string \<Rightarrow> (string \<times> string) option" where
  "unicode_escape s =
     (case hex4 s of
        None \<Rightarrow> None
      | Some n \<Rightarrow>
          if 0xD800 \<le> n \<and> n < 0xE000 then
            (case (if take 2 (drop 4 s) = [bsl, CHR ''u''] then hex4 (drop 6 s) else None) of
               Some k \<Rightarrow>
                 if n < 0xDC00 \<and> 0xDC00 \<le> k \<and> k < 0xE000
                 then Some (utf8_enc (0x10000 + (n - 0xD800) * 0x400 + (k - 0xDC00)), drop 10 s)
                 else Some (replacement, drop 4 s)
             | None \<Rightarrow> Some (replacement, drop 4 s))
          else Some (utf8_enc n, drop 4 s))"

lemma unicode_escape_rest: "unicode_escape s = Some (x, r) \<Longrightarrow> length r \<le> length s"
  by (auto simp: unicode_escape_def split: option.splits if_splits)

text \<open>\<^verbatim>\<open>unquote\<close>: the bytes a literal stands for; bytes that are not UTF-8 are replaced.\<close>

function unquote :: "string \<Rightarrow> string option" where
  "unquote s =
     (if s = [] then Some []
      else if hd s = bsl then
        (if drop 1 s = [] then None
         else if hd (drop 1 s) = CHR ''u'' then
           (case unicode_escape (drop 2 s) of
              None \<Rightarrow> None
            | Some (x, r) \<Rightarrow> map_option ((@) x) (unquote r))
         else (case simple_escape (hd (drop 1 s)) of
             None \<Rightarrow> None
           | Some x \<Rightarrow> map_option ((@) [x]) (unquote (drop 2 s))))
      else if byte_in 0 0x1F (hd s) \<or> hd s = CHR 0x22 then None
      else if rune_len s = 0 then map_option ((@) replacement) (unquote (drop 1 s))
      else map_option ((@) (take (rune_len s) s)) (unquote (drop (rune_len s) s)))"
  by pat_completeness auto
termination
proof (relation "measure length", goal_cases)
  case (2 s x xa y)
  then show ?case using unicode_escape_rest [of "drop 2 s"] by (cases s) fastforce+
qed auto

declare unquote.simps [simp del]

text \<open>A number: an optional minus, an integer without leading zeros, fraction, exponent.\<close>

definition num_frac :: "string \<Rightarrow> string \<times> string" where
  "num_frac s =
     (if s \<noteq> [] \<and> hd s = CHR ''.'' \<and> takeWhile is_digit (tl s) \<noteq> []
      then (CHR ''.'' # takeWhile is_digit (tl s), dropWhile is_digit (tl s)) else ([], s))"

definition num_exp :: "string \<Rightarrow> string \<times> string" where
  "num_exp s =
     (if s \<noteq> [] \<and> (hd s = CHR ''e'' \<or> hd s = CHR ''E'') then
        (let sg = (if tl s \<noteq> [] \<and> (hd (tl s) = CHR ''+'' \<or> hd (tl s) = CHR ''-'') then [hd (tl s)] else []);
             r = drop (length sg) (tl s)
         in if takeWhile is_digit r = [] then ([], s)
            else (hd s # sg @ takeWhile is_digit r, dropWhile is_digit r))
      else ([], s))"

definition parse_number :: "string \<Rightarrow> (string \<times> string) option" where
  "parse_number s =
     (let sg = (if s \<noteq> [] \<and> hd s = CHR ''-'' then ''-'' else []);
          s1 = drop (length sg) s;
          ds = (if s1 \<noteq> [] \<and> hd s1 = CHR ''0'' then ''0'' else takeWhile is_digit s1);
          s2 = drop (length ds) s1
      in if ds = [] then None
         else (case num_frac s2 of (fr, s3) \<Rightarrow> case num_exp s3 of (ex, s4) \<Rightarrow>
                 Some (sg @ ds @ fr @ ex, s4)))"

text \<open>
  Recursive descent, with fuel for the recursion and the nesting depth, which Go limits to 10000.
\<close>

fun parse_value :: "nat \<Rightarrow> nat \<Rightarrow> string \<Rightarrow> (json \<times> string) option"
  and parse_elems :: "nat \<Rightarrow> nat \<Rightarrow> string \<Rightarrow> (json list \<times> string) option"
  and parse_members :: "nat \<Rightarrow> nat \<Rightarrow> string \<Rightarrow> ((string \<times> json) list \<times> string) option"
where
  "parse_value 0 d s = None"
| "parse_value (Suc n) d s =
     (case skip_ws s of
        [] \<Rightarrow> None
      | c # r \<Rightarrow>
          if c = CHR 0x22 then map_option (\<lambda>(t, r1). (JLit t, r1)) (scan_string r)
          else if c = CHR ''['' then
            (if 10000 \<le> d then None
             else if skip_ws r \<noteq> [] \<and> hd (skip_ws r) = CHR '']'' then Some (JArr [], tl (skip_ws r))
             else map_option (\<lambda>(vs, r1). (JArr vs, r1)) (parse_elems n (Suc d) r))
          else if c = CHR ''{'' then
            (if 10000 \<le> d then None
             else if skip_ws r \<noteq> [] \<and> hd (skip_ws r) = CHR ''}'' then Some (JObj [], tl (skip_ws r))
             else map_option (\<lambda>(kvs, r1). (JObj kvs, r1)) (parse_members n (Suc d) r))
          else if has_prefix (c # r) ''null'' then Some (JNull, drop 4 (c # r))
          else if has_prefix (c # r) ''true'' then Some (JBool True, drop 4 (c # r))
          else if has_prefix (c # r) ''false'' then Some (JBool False, drop 5 (c # r))
          else map_option (\<lambda>(t, r1). (JNum t, r1)) (parse_number (c # r)))"
| "parse_elems 0 d s = None"
| "parse_elems (Suc n) d s =
     (case parse_value n d s of
        None \<Rightarrow> None
      | Some (v, r) \<Rightarrow>
          (case skip_ws r of
             [] \<Rightarrow> None
           | c # r1 \<Rightarrow>
               if c = CHR '','' then map_option (\<lambda>(vs, r2). (v # vs, r2)) (parse_elems n d r1)
               else if c = CHR '']'' then Some ([v], r1)
               else None))"
| "parse_members 0 d s = None"
| "parse_members (Suc n) d s =
     (case skip_ws s of
        [] \<Rightarrow> None
      | q # s1 \<Rightarrow>
          if q \<noteq> CHR 0x22 then None
          else (case scan_string s1 of
              None \<Rightarrow> None
            | Some (k, s2) \<Rightarrow>
                (case skip_ws s2 of
                   [] \<Rightarrow> None
                 | e # s3 \<Rightarrow>
                     if e \<noteq> CHR '':'' then None
                     else (case parse_value n d s3 of
                         None \<Rightarrow> None
                       | Some (v, r) \<Rightarrow>
                           (case skip_ws r of
                              [] \<Rightarrow> None
                            | c # r1 \<Rightarrow>
                                if c = CHR '','' then map_option (\<lambda>(kvs, r2). ((k, v) # kvs, r2)) (parse_members n d r1)
                                else if c = CHR ''}'' then Some ([(k, v)], r1)
                                else None)))))"

definition json_parse :: "string \<Rightarrow> json option" where
  "json_parse s =
     (case parse_value (2 * length s + 2) 0 s of
        Some (v, r) \<Rightarrow> if skip_ws r = [] then Some v else None
      | None \<Rightarrow> None)"

end
