(* ===== verification/Json_Roundtrip.thy ===== *)
theory Json_Roundtrip
  imports Json
begin

text \<open>
  What is printed is read back: string literals (\<open>unquote (esc_string s) = Some s\<close> for valid UTF-8),
  numbers, and whole values, compact or indented.
\<close>

section \<open>Characters\<close>

lemma of_char_hex_char: "d < 16 \<Longrightarrow> of_char (hex_char d) = (if d < 10 then 48 + d else 87 + d)"
  by (simp add: hex_char_def)

lemma hex_val_hex_char [simp]: "d < 16 \<Longrightarrow> hex_val (hex_char d) = Some d"
  by (simp add: hex_val_def of_char_hex_char)

lemma is_hex_hex_char [simp]: "d < 16 \<Longrightarrow> is_hex (hex_char d)"
  by (simp add: is_hex_def)

lemma hex_digits_value:
  fixes n :: nat
  assumes "n < 65536"
  shows "((n div 4096 mod 16 * 16 + n div 256 mod 16) * 16 + n div 16 mod 16) * 16 + n mod 16 = n"
proof -
  have a: "n div 4096 mod 16 = n div 4096" using assms by simp
  have b: "n div 4096 * 16 + n div 256 mod 16 = n div 256"
    using mult_div_mod_eq [of 16 "n div 256"] by (simp add: div_mult2_eq [symmetric] mult.commute)
  have c: "n div 256 * 16 + n div 16 mod 16 = n div 16"
    using mult_div_mod_eq [of 16 "n div 16"] by (simp add: div_mult2_eq [symmetric] mult.commute)
  have d: "n div 16 * 16 + n mod 16 = n" by simp
  show ?thesis unfolding a b c d ..
qed

lemma hex4_digits:
  "n < 65536 \<Longrightarrow> hex4 (hex_char (n div 4096 mod 16) # hex_char (n div 256 mod 16) #
      hex_char (n div 16 mod 16) # hex_char (n mod 16) # x) = Some n"
  using hex_digits_value [of n] by (simp add: hex4_def read_hex_def)

lemma unicode_escape_digits:
  "n < 0xD800 \<or> 0xE000 \<le> n \<and> n < 65536 \<Longrightarrow>
     unicode_escape (hex_char (n div 4096 mod 16) # hex_char (n div 256 mod 16) #
      hex_char (n div 16 mod 16) # hex_char (n mod 16) # x) = Some (utf8_enc n, x)"
  using hex4_digits [of n x] by (auto simp: unicode_escape_def)

lemma high_byte:
  "\<not> byte_in 0 0x7F c \<Longrightarrow> c \<noteq> CHR 0x22 \<and> c \<noteq> bsl \<and> \<not> byte_in 0 0x1F c"
  by (auto simp: byte_in_def)

text \<open>A sequence of more than one byte has no ASCII byte.\<close>

lemma utf8_2_high: "utf8_2 a b \<Longrightarrow> \<not> byte_in 0 0x7F a \<and> \<not> byte_in 0 0x7F b"
  by (auto simp: utf8_2_def byte_in_def cont_def)

lemma utf8_3_high: "utf8_3 a b c \<Longrightarrow> \<not> byte_in 0 0x7F a \<and> \<not> byte_in 0 0x7F b \<and> \<not> byte_in 0 0x7F c"
  unfolding utf8_3_def byte_in_def cont_def by linarith

lemma utf8_4_high:
  "utf8_4 a b c e \<Longrightarrow> \<not> byte_in 0 0x7F a \<and> \<not> byte_in 0 0x7F b \<and> \<not> byte_in 0 0x7F c \<and> \<not> byte_in 0 0x7F e"
  unfolding utf8_4_def byte_in_def cont_def by linarith

lemma rune_high:
  assumes "1 < rune_len s" and "c \<in> set (take (rune_len s) s)"
  shows "\<not> byte_in 0 0x7F c"
  using assms
  by (cases s rule: rune_cases)
     (auto simp: rune_len_def split: if_splits dest: utf8_2_high utf8_3_high utf8_4_high)

lemma rune_len_one_iff: "s \<noteq> [] \<Longrightarrow> rune_len s = 1 \<longleftrightarrow> byte_in 0 0x7F (hd s)"
  by (cases s rule: rune_cases) (auto simp: rune_len_def)

section \<open>Scanning a literal\<close>

lemma apfst_apfst_append [simp]:
  "apfst ((@) a) (apfst ((@) b) p) = apfst ((@) (a @ b)) p"
  by (cases p) simp

lemma scan_ascii:
  assumes "byte_in 0 0x7F c"
  shows "scan_string (esc_ascii c @ x) = map_option (apfst ((@) (esc_ascii c))) (scan_string x)"
  using assms
  by (cases "scan_string x") (auto simp: esc_ascii_def esc_u_def simple_escape_def byte_in_def)

lemma scan_esc_u: "scan_string (esc_u n @ x) = map_option (apfst ((@) (esc_u n))) (scan_string x)"
  by (cases "scan_string x") (auto simp: esc_u_def simple_escape_def byte_in_def)

lemma scan_high:
  "\<forall>c\<in>set u. \<not> byte_in 0 0x7F c \<Longrightarrow>
     scan_string (u @ x) = map_option (apfst ((@) u)) (scan_string x)"
proof (induction u)
  case Nil
  show ?case by (cases "scan_string x") auto
next
  case (Cons c u)
  then show ?case using high_byte [of c] by (cases "scan_string x") auto
qed

lemma scan_esc_string: "scan_string (esc_string s @ CHR 0x22 # r) = Some (esc_string s, r)"
proof (induction s rule: esc_string.induct)
  case (1 s)
  show ?case
  proof (cases "s = []")
    case True
    then show ?thesis by (simp add: esc_string.simps [of "[]"])
  next
    case ne: False
    consider "byte_in 0 0x7F (hd s)" | "\<not> byte_in 0 0x7F (hd s)" "rune_len s = 0"
      | "\<not> byte_in 0 0x7F (hd s)" "rune_len s \<noteq> 0" by blast
    then show ?thesis
    proof cases
      case 1
      then show ?thesis using "1.IH"(1) [OF ne] by (simp add: esc_string.simps [of s] ne scan_ascii)
    next
      case 2
      then show ?thesis using "1.IH"(2) [OF ne] by (simp add: esc_string.simps [of s] ne scan_esc_u)
    next
      case 3
      then have "1 < rune_len s" using rune_len_one_iff [OF ne] by linarith
      then have h: "\<forall>c\<in>set (take (rune_len s) s). \<not> byte_in 0 0x7F c" using rune_high by blast
      show ?thesis
        using "1.IH"(3-5) [OF ne] 3 by (auto simp: esc_string.simps [of s] ne scan_esc_u scan_high [OF h])
    qed
  qed
qed

section \<open>Reading a literal\<close>

lemma unquote_ascii:
  assumes "byte_in 0 0x7F c"
  shows "unquote (esc_ascii c @ x) = map_option ((@) [c]) (unquote x)"
proof -
  have u: "unquote (esc_u (of_char c) @ x) = map_option ((@) [c]) (unquote x)" if "(of_char c :: nat) < 0x80"
    using that unicode_escape_digits [of "of_char c" x]
    by (simp add: unquote.simps [of "_ # _"] esc_u_def utf8_enc_def)
  have p: "rune_len (c # x) = 1" using assms by (simp add: rune_len_def)
  have b: "(of_char c :: nat) < 0x80" using assms by (simp add: byte_in_def)
  show ?thesis
    unfolding esc_ascii_def
    using assms p u [OF b]
    by (auto simp: unquote.simps [of "_ # _"] simple_escape_def)
qed

lemma unquote_esc_u:
  "0x80 \<le> n \<Longrightarrow> n < 0xD800 \<or> 0xE000 \<le> n \<and> n < 65536 \<Longrightarrow>
     unquote (esc_u n @ x) = map_option ((@) (utf8_enc n)) (unquote x)"
  using unicode_escape_digits [of n x] by (simp add: unquote.simps [of "_ # _"] esc_u_def)

lemma unquote_rune:
  assumes "1 < rune_len s"
  shows "unquote (take (rune_len s) s @ x) = map_option ((@) (take (rune_len s) s)) (unquote x)"
proof -
  let ?u = "take (rune_len s) s"
  have l: "rune_len (?u @ x) = rune_len s"
    using assms rune_len_take [of s] rune_len_append [of ?u x] by simp
  have ne: "?u \<noteq> []" using assms rune_len_le [of s] by (metis less_zeroE not_one_less_zero rune_len_nonempty take_eq_Nil)
  then have "\<not> byte_in 0 0x7F (hd ?u)" using rune_high [OF assms] list.set_sel(1) by blast
  then have h: "hd ?u \<noteq> CHR 0x22" "hd ?u \<noteq> bsl" "\<not> byte_in 0 0x1F (hd ?u)"
    using high_byte by blast+
  have len: "length ?u = rune_len s" using rune_len_le [of s] by simp
  then have t: "take (rune_len s) (?u @ x) = ?u" "drop (rune_len s) (?u @ x) = x"
    by simp_all
  show ?thesis
    using assms ne h by (subst unquote.simps) (simp add: l t del: take_append drop_append)
qed

theorem unquote_esc_string: "valid_utf8 s \<Longrightarrow> unquote (esc_string s) = Some s"
proof (induction s rule: esc_string.induct)
  case (1 s)
  show ?case
  proof (cases "s = []")
    case True
    then show ?thesis by (simp add: esc_string.simps [of "[]"] unquote.simps [of "[]"])
  next
    case ne: False
    then have r: "rune_len s \<noteq> 0" and v: "valid_utf8 (drop (rune_len s) s)"
      using "1.prems" by (auto simp: valid_utf8.simps [of s] split: if_splits)
    show ?thesis
    proof (cases "byte_in 0 0x7F (hd s)")
      case True
      then have "rune_len s = 1" using rune_len_one_iff [OF ne] by simp
      then show ?thesis
        using "1.IH"(1) [OF ne True] v ne True
        by (simp add: esc_string.simps [of s] unquote_ascii) (metis drop_Suc drop0 list.collapse)
    next
      case False
      then have l: "1 < rune_len s" using rune_len_one_iff [OF ne] r by linarith
      have u8: "utf8_enc 0x2028 = [CHR 0xE2, CHR 0x80, CHR 0xA8]"
        "utf8_enc 0x2029 = [CHR 0xE2, CHR 0x80, CHR 0xA9]" by (simp_all add: utf8_enc_def char_of_eq_iff)
      have l3: "rune_len s = 3"
        if "take 3 s = [CHR 0xE2, CHR 0x80, CHR 0xA8] \<or> take 3 s = [CHR 0xE2, CHR 0x80, CHR 0xA9]"
      proof -
        have "rune_len [CHR 0xE2, CHR 0x80, CHR 0xA8] = 3" "rune_len [CHR 0xE2, CHR 0x80, CHR 0xA9] = 3"
          by (simp_all add: rune_len_def utf8_2_def utf8_3_def cont_def byte_in_def)
        with that have "rune_len (take 3 s) = 3" by metis
        then show ?thesis using rune_len_append [of "take 3 s" "drop 3 s"] by simp
      qed
      have split3: "s = take 3 s @ drop 3 s" by simp
      consider "take 3 s = [CHR 0xE2, CHR 0x80, CHR 0xA8]"
        | "take 3 s = [CHR 0xE2, CHR 0x80, CHR 0xA9]"
        | "take 3 s \<noteq> [CHR 0xE2, CHR 0x80, CHR 0xA8]" "take 3 s \<noteq> [CHR 0xE2, CHR 0x80, CHR 0xA9]"
        by blast
      then show ?thesis
      proof cases
        case 1
        then have "unquote (esc_string (drop 3 s)) = Some (drop 3 s)"
          using "1.IH"(3) [OF ne False r] v l3 by simp
        moreover have "esc_string s = esc_u 0x2028 @ esc_string (drop 3 s)"
          using 1 ne False r by (subst esc_string.simps) simp
        ultimately show ?thesis using split3 1 by (simp add: unquote_esc_u u8)
      next
        case 2
        then have "unquote (esc_string (drop 3 s)) = Some (drop 3 s)"
          using "1.IH"(4) [OF ne False r] v l3 by simp
        moreover have "esc_string s = esc_u 0x2029 @ esc_string (drop 3 s)"
          using 2 ne False r by (subst esc_string.simps) simp
        ultimately show ?thesis using split3 2 by (simp add: unquote_esc_u u8)
      next
        case 3
        then have "unquote (esc_string (drop (rune_len s) s)) = Some (drop (rune_len s) s)"
          using "1.IH"(5) [OF ne False r] v by simp
        moreover have "esc_string s = take (rune_len s) s @ esc_string (drop (rune_len s) s)"
          using 3 ne False r by (subst esc_string.simps) simp
        ultimately show ?thesis by (simp add: unquote_rune [OF l])
      qed
    qed
  qed
qed


section \<open>Numbers\<close>

lemma show_nat_lead: "0 < n \<Longrightarrow> hd (show_nat n) \<noteq> CHR ''0''"
proof (induction n rule: show_nat.induct)
  case (1 n)
  show ?case
  proof (cases "n < 10")
    case True
    have "digit_char n \<noteq> CHR ''0''"
    proof
      assume "digit_char n = CHR ''0''"
      then have "48 + n = 48" using of_char_digit_char [OF True] by simp
      then show False using 1 by simp
    qed
    then show ?thesis using True by (simp add: show_nat.simps [of n])
  next
    case False
    then show ?thesis using 1 by (simp add: show_nat.simps [of n])
  qed
qed

text \<open>What may follow a value without becoming part of it.\<close>

definition stops :: "string \<Rightarrow> bool" where
  "stops r \<longleftrightarrow> r = [] \<or> \<not> is_digit (hd r) \<and> hd r \<noteq> CHR ''.'' \<and> hd r \<noteq> CHR ''e'' \<and> hd r \<noteq> CHR ''E''"

lemma takeWhile_digits_stop:
  "\<forall>c\<in>set ds. is_digit c \<Longrightarrow> stops r \<Longrightarrow>
     takeWhile is_digit (ds @ r) = ds \<and> dropWhile is_digit (ds @ r) = r"
  by (cases r) (auto simp: stops_def takeWhile_append dropWhile_append)

lemma num_tail_stop: "stops r \<Longrightarrow> num_frac r = ([], r) \<and> num_exp r = ([], r)"
  by (auto simp: stops_def num_frac_def num_exp_def)

lemma parse_digits:
  assumes "stops r"
  shows "parse_number (show_nat n @ r) = Some (show_nat n, r)"
    and "parse_number (CHR ''-'' # show_nat n @ r) = Some (CHR ''-'' # show_nat n, r)"
proof -
  have w: "takeWhile is_digit (show_nat n @ r) = show_nat n"
    using takeWhile_digits_stop [OF _ assms, of "show_nat n"] show_nat_digits by blast
  have nm: "hd (show_nat n) \<noteq> CHR ''-''"
    using show_nat_digits [of "hd (show_nat n)" n] digit_not_minus by (metis hd_in_set show_nat_nonempty)
  consider "hd (show_nat n) = CHR ''0''" "show_nat n = ''0''" | "hd (show_nat n) \<noteq> CHR ''0''"
    using show_nat_lead [of n] by (cases "n = 0") (auto simp: show_nat.simps [of 0] digit_char_def char_of_eq_iff)
  then have "parse_number (show_nat n @ r) = Some (show_nat n, r) \<and>
      parse_number (CHR ''-'' # show_nat n @ r) = Some (CHR ''-'' # show_nat n, r)"
    using num_tail_stop [OF assms] nm by cases (simp_all add: parse_number_def w)
  then show "parse_number (show_nat n @ r) = Some (show_nat n, r)"
    and "parse_number (CHR ''-'' # show_nat n @ r) = Some (CHR ''-'' # show_nat n, r)" by simp_all
qed

lemma parse_show_int: "stops r \<Longrightarrow> parse_number (show_int i @ r) = Some (show_int i, r)"
  using parse_digits [of r "nat i"] parse_digits [of r "nat (- i)"] by (simp add: show_int_def)

section \<open>Values\<close>

definition lit_ok :: "string \<Rightarrow> bool" where
  "lit_ok l \<longleftrightarrow> (\<exists>s. l = esc_string s)"

lemma lit_ok_esc [simp]: "lit_ok (esc_string s)"
  by (auto simp: lit_ok_def)

lemma scan_lit: "lit_ok l \<Longrightarrow> scan_string (l @ CHR 0x22 # r) = Some (l, r)"
  by (auto simp: lit_ok_def scan_esc_string)

fun json_ok :: "json \<Rightarrow> bool" where
  "json_ok JNull = True"
| "json_ok (JBool b) = True"
| "json_ok (JNum t) = (\<exists>i. t = show_int i)"
| "json_ok (JLit l) = lit_ok l"
| "json_ok (JArr vs) = (\<forall>v\<in>set vs. json_ok v)"
| "json_ok (JObj kvs) = (\<forall>p\<in>set kvs. lit_ok (fst p) \<and> json_ok (snd p))"

lemma json_ok_JStr [simp]: "json_ok (JStr s)"
  by (simp add: JStr_def)

fun depth :: "json \<Rightarrow> nat" where
  "depth (JArr vs) = Suc (Max (set (0 # map depth vs)))"
| "depth (JObj kvs) = Suc (Max (set (0 # map (\<lambda>p. depth (snd p)) kvs)))"
| "depth _ = 0"

fun fuel :: "json \<Rightarrow> nat" where
  "fuel (JArr vs) = Suc (sum_list (map (\<lambda>v. Suc (fuel v)) vs))"
| "fuel (JObj kvs) = Suc (sum_list (map (\<lambda>p. Suc (fuel (snd p))) kvs))"
| "fuel _ = 1"

text \<open>The layouts the program prints with.\<close>

definition layout :: "(nat \<Rightarrow> string) \<Rightarrow> string \<Rightarrow> bool" where
  "layout nl col \<longleftrightarrow> (\<forall>d. \<forall>c\<in>set (nl d). is_ws c) \<and> (\<forall>c\<in>set col. is_ws c)"

lemma skip_layout: "\<forall>c\<in>set w. is_ws c \<Longrightarrow> skip_ws (w @ x) = skip_ws x"
  by (induction w) auto

definition head_ok :: "string \<Rightarrow> bool" where
  "head_ok s \<longleftrightarrow> s \<noteq> [] \<and> \<not> is_ws (hd s) \<and> hd s \<noteq> CHR '']''"

lemma head_ok_skip: "head_ok s \<Longrightarrow> skip_ws (s @ x) = s @ x"
  by (cases s) (auto simp: head_ok_def)

lemma digit_plain:
  "is_digit c \<Longrightarrow> \<not> is_ws c \<and> c \<notin> set '']}[{ntf'' \<and> c \<noteq> CHR 0x22"
  by (auto simp: is_digit_def is_ws_def)

lemma head_show_int: "show_int i \<noteq> [] \<and> (hd (show_int i) = CHR ''-'' \<or> is_digit (hd (show_int i)))"
proof -
  have "is_digit (hd (show_nat n))" for n using show_nat_digits by (metis hd_in_set show_nat_nonempty)
  then show ?thesis by (simp add: show_int_def)
qed

lemma head_show_int_ok: "head_ok (show_int i)"
  using head_show_int [of i] digit_plain [of "hd (show_int i)"] by (auto simp: head_ok_def is_ws_def)

lemma head_print: "json_ok v \<Longrightarrow> head_ok (print_json nl col d v)"
  using head_show_int_ok by (cases v) (auto simp: head_ok_def is_ws_def quoted_def)


text \<open>A value that is read back from its printed form, wherever that stands.\<close>

definition reads :: "(nat \<Rightarrow> string) \<Rightarrow> string \<Rightarrow> json \<Rightarrow> bool" where
  "reads nl col v \<longleftrightarrow>
     (\<forall>n d e r w. depth v + e \<le> 10000 \<longrightarrow> fuel v \<le> n \<longrightarrow> stops r \<longrightarrow> (\<forall>c\<in>set w. is_ws c) \<longrightarrow>
        parse_value n e (w @ print_json nl col d v @ r) = Some (v, r))"

lemma readsD:
  "reads nl col v \<Longrightarrow> depth v + e \<le> 10000 \<Longrightarrow> fuel v \<le> n \<Longrightarrow> stops r \<Longrightarrow> \<forall>c\<in>set w. is_ws c \<Longrightarrow>
     parse_value n e (w @ print_json nl col d v @ r) = Some (v, r)"
  by (simp add: reads_def)

lemma ws_plain: "is_ws c \<Longrightarrow> \<not> is_digit c \<and> c \<noteq> CHR ''.'' \<and> c \<noteq> CHR ''e'' \<and> c \<noteq> CHR ''E''"
  unfolding is_ws_def by (elim disjE) (simp_all add: is_digit_def)

lemma stops_ws: "\<forall>c\<in>set w. is_ws c \<Longrightarrow> stops (c # r) \<Longrightarrow> stops (w @ c # r)"
  using ws_plain by (cases w) (simp_all add: stops_def)

lemma stops_simps [simp]:
  "stops []" "stops (CHR '','' # r)" "stops (CHR '']'' # r)" "stops (CHR ''}'' # r)"
  by (simp_all add: stops_def is_digit_def)

lemma not_ws [simp]:
  "\<not> is_ws (CHR '','')" "\<not> is_ws (CHR '']'')" "\<not> is_ws (CHR ''}'')" "\<not> is_ws (CHR '':'')"
  "\<not> is_ws (CHR ''['')" "\<not> is_ws (CHR ''{'')" "\<not> is_ws (CHR 0x22)"
  by (simp_all add: is_ws_def)

lemma elems_print:
  assumes "\<forall>v\<in>set vs. reads nl col v \<and> depth v + e \<le> 10000" and "vs \<noteq> []"
    and "sum_list (map (\<lambda>v. Suc (fuel v)) vs) \<le> n"
    and "\<forall>c\<in>set w. is_ws c" and "\<forall>c\<in>set w1. is_ws c" and "\<forall>c\<in>set w2. is_ws c"
  shows "parse_elems n e (w @ join_with (CHR '','' # w1) (map (print_json nl col d) vs) @ w2 @ CHR '']'' # r)
           = Some (vs, r)"
  using assms(1-4)
proof (induction vs arbitrary: n w)
  case Nil
  then show ?case by simp
next
  case (Cons v vs)
  obtain k where n: "n = Suc k" using Cons.prems(3) by (cases n) auto
  have v: "reads nl col v" "depth v + e \<le> 10000" "fuel v \<le> k"
    using Cons.prems n by auto
  show ?case
  proof (cases vs)
    case Nil
    have "stops (w2 @ CHR '']'' # r)" using stops_ws [OF assms(6)] by simp
    note pv = readsD [OF v this Cons.prems(4), of d]
    show ?thesis using assms(6) by (simp add: Nil n pv skip_layout)
  next
    case (Cons v' vs')
    let ?rest = "w1 @ join_with (CHR '','' # w1) (map (print_json nl col d) vs) @ w2 @ CHR '']'' # r"
    note pv = readsD [OF v stops_simps(2) Cons.prems(4), of d ?rest]
    have ih: "parse_elems k e ?rest = Some (vs, r)"
      using Cons.IH [of k w1] Cons.prems assms(5) n Cons by simp
    show ?thesis using pv ih by (simp add: Cons n)
  qed
qed

lemma members_print:
  assumes "\<forall>p\<in>set kvs. lit_ok (fst p) \<and> reads nl col (snd p) \<and> depth (snd p) + e \<le> 10000" and "kvs \<noteq> []"
    and "sum_list (map (\<lambda>p. Suc (fuel (snd p))) kvs) \<le> n"
    and "\<forall>c\<in>set w. is_ws c" and "\<forall>c\<in>set w1. is_ws c" and "\<forall>c\<in>set w2. is_ws c"
    and "\<forall>c\<in>set col. is_ws c"
  shows "parse_members n e (w @ join_with (CHR '','' # w1)
             (map (\<lambda>(k, v). quoted k @ CHR '':'' # col @ print_json nl col d v) kvs) @ w2 @ CHR ''}'' # r)
           = Some (kvs, r)"
  using assms(1-4)
proof (induction kvs arbitrary: n w)
  case Nil
  then show ?case by simp
next
  case (Cons p kvs)
  obtain k v where p: "p = (k, v)" by (cases p)
  obtain m where n: "n = Suc m" using Cons.prems(3) by (cases n) auto
  have v: "reads nl col v" "depth v + e \<le> 10000" "fuel v \<le> m" and k: "lit_ok k"
    using Cons.prems n p by auto
  show ?case
  proof (cases kvs)
    case Nil
    have "stops (w2 @ CHR ''}'' # r)" using stops_ws [OF assms(6)] by simp
    note pv = readsD [OF v this assms(7), of d]
    show ?thesis
      using assms(6) Cons.prems(4)
      by (simp add: Nil n p pv skip_layout quoted_def scan_lit [OF k])
  next
    case (Cons p' kvs')
    let ?rest = "w1 @ join_with (CHR '','' # w1)
             (map (\<lambda>(k, v). quoted k @ CHR '':'' # col @ print_json nl col d v) kvs) @ w2 @ CHR ''}'' # r"
    note pv = readsD [OF v stops_simps(2) assms(7), of d ?rest]
    have ih: "parse_members m e ?rest = Some (kvs, r)"
      using Cons.IH [of m w1] Cons.prems assms(5) n Cons by simp
    show ?thesis
      using pv ih Cons.prems(4) by (simp add: Cons n p skip_layout quoted_def scan_lit [OF k])
  qed
qed


lemma show_int_head_plain:
  "hd (show_int i) \<noteq> CHR 0x22 \<and> hd (show_int i) \<notin> set ''[{ntf''"
  using head_show_int [of i] digit_plain [of "hd (show_int i)"] by auto

lemma has_prefix_hd: "has_prefix s p \<Longrightarrow> p \<noteq> [] \<Longrightarrow> s \<noteq> [] \<and> hd s = hd p"
  by (cases s; cases p) (auto simp: has_prefix_def)

lemma depth_elem: "v \<in> set vs \<Longrightarrow> depth v < depth (JArr vs)"
  by (simp add: le_imp_less_Suc)

lemma depth_member: "p \<in> set kvs \<Longrightarrow> depth (snd p) < depth (JObj kvs)"
  by (simp add: le_imp_less_Suc)

lemma reads_JNum: "reads nl col (JNum (show_int i))"
proof -
  have "parse_value n e (w @ show_int i @ r) = Some (JNum (show_int i), r)"
    if "1 \<le> n" "stops r" "\<forall>c\<in>set w. is_ws c" for n e r w
  proof -
    obtain c t where ct: "show_int i = c # t" using head_show_int [of i] by (cases "show_int i") auto
    have c: "c \<noteq> CHR 0x22" "c \<notin> set ''[{ntf''" using show_int_head_plain [of i] ct by simp_all
    have "\<not> has_prefix (c # t @ r) ''null''" "\<not> has_prefix (c # t @ r) ''true''"
      "\<not> has_prefix (c # t @ r) ''false''"
      using c(2) by (auto dest: has_prefix_hd)
    moreover have "parse_number (c # t @ r) = Some (c # t, r)"
      using parse_show_int [OF that(2), of i] ct by simp
    moreover have "skip_ws (w @ c # t @ r) = c # t @ r"
      using skip_layout [OF that(3)] head_ok_skip [OF head_show_int_ok [of i], of r] ct by simp
    ultimately show ?thesis using that(1) c ct by (cases n) simp_all
  qed
  then show ?thesis by (simp add: reads_def)
qed

lemma reads_atoms:
  "reads nl col JNull" "reads nl col (JBool b)" "lit_ok l \<Longrightarrow> reads nl col (JLit l)"
proof -
  have w: "\<not> is_ws (CHR ''n'')" "\<not> is_ws (CHR ''t'')" "\<not> is_ws (CHR ''f'')" by (simp_all add: is_ws_def)
  show "reads nl col JNull" "reads nl col (JBool b)"
    unfolding reads_def
    by (intro allI impI, case_tac n; simp add: skip_layout w has_prefix_def)+
  assume l: "lit_ok l"
  show "reads nl col (JLit l)"
    unfolding reads_def
    by (intro allI impI, case_tac n; simp add: skip_layout quoted_def scan_lit [OF l])
qed

lemma reads_JArr:
  assumes l: "layout nl col" and vs: "\<forall>v\<in>set vs. json_ok v \<and> reads nl col v"
  shows "reads nl col (JArr vs)"
  unfolding reads_def
proof (intro allI impI)
  fix n d e r and w :: string
  assume dep: "depth (JArr vs) + e \<le> 10000" and f: "fuel (JArr vs) \<le> n" and r: "stops r"
    and w: "\<forall>c\<in>set w. is_ws c"
  obtain m where n: "n = Suc m" using f by (cases n) auto
  have e: "e < 10000" using dep by simp
  show "parse_value n e (w @ print_json nl col d (JArr vs) @ r) = Some (JArr vs, r)"
  proof (cases vs)
    case Nil
    then show ?thesis using w e by (simp add: n skip_layout)
  next
    case (Cons v vs')
    have ws: "\<forall>c\<in>set (nl k). is_ws c" for k using l by (simp add: layout_def)
    let ?body = "join_with (CHR '','' # nl (Suc d)) (map (print_json nl col (Suc d)) vs)"
    have el: "parse_elems m (Suc e) (nl (Suc d) @ ?body @ nl d @ CHR '']'' # r) = Some (vs, r)"
    proof (rule elems_print)
      show "\<forall>v\<in>set vs. reads nl col v \<and> depth v + Suc e \<le> 10000"
        using vs dep depth_elem by fastforce
    qed (use f n Cons ws in auto)
    have "head_ok (print_json nl col (Suc d) v)" using head_print vs Cons by simp
    then have h: "head_ok ?body" unfolding Cons
      by (cases vs'; cases "print_json nl col (Suc d) v") (simp_all add: head_ok_def)
    have "skip_ws (nl (Suc d) @ ?body @ nl d @ CHR '']'' # r) = ?body @ nl d @ CHR '']'' # r"
      using skip_layout [OF ws] head_ok_skip [OF h] by simp
    moreover have "hd (?body @ nl d @ CHR '']'' # r) \<noteq> CHR '']''" using h by (simp add: head_ok_def)
    ultimately show ?thesis
      using w e el Cons by (simp add: n skip_layout del: list.map join_with.simps)
  qed
qed

lemma reads_JObj:
  assumes l: "layout nl col" and kvs: "\<forall>p\<in>set kvs. lit_ok (fst p) \<and> reads nl col (snd p)"
  shows "reads nl col (JObj kvs)"
  unfolding reads_def
proof (intro allI impI)
  fix n d e r and w :: string
  assume dep: "depth (JObj kvs) + e \<le> 10000" and f: "fuel (JObj kvs) \<le> n" and r: "stops r"
    and w: "\<forall>c\<in>set w. is_ws c"
  obtain m where n: "n = Suc m" using f by (cases n) auto
  have e: "e < 10000" using dep by simp
  show "parse_value n e (w @ print_json nl col d (JObj kvs) @ r) = Some (JObj kvs, r)"
  proof (cases kvs)
    case Nil
    then show ?thesis using w e by (simp add: n skip_layout)
  next
    case (Cons p kvs')
    have ws: "\<forall>c\<in>set (nl k). is_ws c" "\<forall>c\<in>set col. is_ws c" for k using l by (simp_all add: layout_def)
    let ?body = "join_with (CHR '','' # nl (Suc d))
                   (map (\<lambda>(k, v). quoted k @ CHR '':'' # col @ print_json nl col (Suc d) v) kvs)"
    have el: "parse_members m (Suc e) (nl (Suc d) @ ?body @ nl d @ CHR ''}'' # r) = Some (kvs, r)"
    proof (rule members_print)
      show "\<forall>p\<in>set kvs. lit_ok (fst p) \<and> reads nl col (snd p) \<and> depth (snd p) + Suc e \<le> 10000"
        using kvs dep depth_member by fastforce
    qed (use f n Cons ws in auto)
    have h: "?body \<noteq> [] \<and> hd ?body = CHR 0x22" unfolding Cons
      by (cases kvs') (simp_all add: quoted_def split: prod.split)
    then have "head_ok ?body" by (simp add: head_ok_def)
    then have "skip_ws (nl (Suc d) @ ?body @ nl d @ CHR ''}'' # r) = ?body @ nl d @ CHR ''}'' # r"
      using skip_layout [OF ws(1)] head_ok_skip by simp
    moreover have "hd (?body @ nl d @ CHR ''}'' # r) \<noteq> CHR ''}''" using h by simp
    ultimately show ?thesis
      using w e el Cons by (simp add: n skip_layout del: list.map join_with.simps)
  qed
qed

lemma all_read:
  assumes "layout nl col"
  shows "json_ok v \<Longrightarrow> reads nl col v"
proof (induction v)
  case (JObj kvs)
  have "reads nl col (snd p)" if "p \<in> set kvs" for p
    using JObj that by (cases p) (auto intro: snds.intros)
  then show ?case using reads_JObj [OF assms] JObj.prems by simp
qed (use reads_atoms reads_JNum reads_JArr [OF assms] in auto)

text \<open>The parser's fuel is enough.\<close>

lemma length_join: "vs \<noteq> [] \<Longrightarrow>
    length (join_with (CHR '','' # w) vs) \<ge> sum_list (map (\<lambda>v. Suc (length v)) vs) - 1"
  by (induction "CHR '','' # w" vs rule: join_with.induct) auto

lemma fuel_print: "json_ok v \<Longrightarrow> fuel v \<le> 2 * length (print_json nl col d v)"
proof (induction v arbitrary: d)
  case (JNum t)
  then have "t \<noteq> []" using head_show_int by auto
  then show ?case by (cases t) simp_all
next
  case (JArr vs)
  have "Suc (fuel v) \<le> 2 * Suc (length (print_json nl col (Suc d) v))" if "v \<in> set vs" for v
    using JArr.IH [OF that, of "Suc d"] JArr.prems that by simp
  then have "sum_list (map (\<lambda>v. Suc (fuel v)) vs)
      \<le> 2 * sum_list (map (\<lambda>v. Suc (length v)) (map (print_json nl col (Suc d)) vs))"
    unfolding sum_list_const_mult [symmetric] map_map comp_def
    by (intro sum_list_mono) blast
  then show ?case
    using length_join [of "map (print_json nl col (Suc d)) vs" "nl (Suc d)"] by auto
next
  case (JObj kvs)
  let ?pr = "\<lambda>(k, v). quoted k @ CHR '':'' # col @ print_json nl col (Suc d) v"
  have "Suc (fuel (snd p)) \<le> 2 * Suc (length (?pr p))" if "p \<in> set kvs" for p
  proof -
    have "fuel (snd p) \<le> 2 * length (print_json nl col (Suc d) (snd p))"
      using JObj that by (cases p) (fastforce intro: snds.intros)
    then show ?thesis by (cases p) (simp add: quoted_def)
  qed
  then have "sum_list (map (\<lambda>p. Suc (fuel (snd p))) kvs)
      \<le> 2 * sum_list (map (\<lambda>v. Suc (length v)) (map ?pr kvs))"
    unfolding sum_list_const_mult [symmetric] map_map comp_def
    by (intro sum_list_mono) blast
  then show ?case using length_join [of "map ?pr kvs" "nl (Suc d)"] by auto
qed (simp_all add: quoted_def)

theorem json_parse_print:
  assumes "layout nl col" and "json_ok v" and "depth v \<le> 10000"
  shows "json_parse (print_json nl col 0 v) = Some v"
  using readsD [OF all_read [OF assms(1,2)], of 0 "2 * length (print_json nl col 0 v) + 2" "[]" "[]" 0]
    fuel_print [OF assms(2), of nl col 0] assms(3)
  by (simp add: json_parse_def)

lemma layout_Marshal: "layout (\<lambda>_. []) []"
  by (simp add: layout_def)

lemma layout_indent: "layout indent2 '' ''"
  by (auto simp: layout_def indent2_def is_ws_def)

theorem json_parse_Marshal: "json_ok v \<Longrightarrow> depth v \<le> 10000 \<Longrightarrow> json_parse (Marshal v) = Some v"
  by (simp add: Marshal_def json_parse_print layout_Marshal)

theorem json_parse_MarshalIndent:
  "json_ok v \<Longrightarrow> depth v \<le> 10000 \<Longrightarrow> json_parse (MarshalIndent v) = Some v"
  by (simp add: MarshalIndent_def json_parse_print layout_indent)

text \<open>One value followed by a line break, as \<^verbatim>\<open>json.Encoder\<close> writes it.\<close>

lemma json_parse_line:
  assumes "json_ok v" and "depth v \<le> 10000"
  shows "json_parse (Marshal v @ [CHR 0x0A]) = Some v"
proof -
  let ?s = "Marshal v @ [CHR 0x0A]"
  have "stops [CHR 0x0A]" by (simp add: stops_def is_digit_def)
  then have "parse_value (2 * length ?s + 2) 0 ?s = Some (v, [CHR 0x0A])"
    using readsD [OF all_read [OF layout_Marshal assms(1)], of 0 "2 * length ?s + 2" "[CHR 0x0A]" "[]" 0]
      fuel_print [OF assms(1), of "\<lambda>_. []" "[]" 0] assms(2)
    by (simp add: Marshal_def)
  then show ?thesis by (simp add: json_parse_def is_ws_def)
qed

text \<open>The first value of a text that is just one.\<close>

lemma parse_value_Marshal:
  assumes "json_ok v" and "depth v \<le> 10000"
  shows "parse_value (2 * length (Marshal v) + 2) 0 (Marshal v) = Some (v, [])"
  using readsD [OF all_read [OF layout_Marshal assms(1)], of 0 "2 * length (Marshal v) + 2" "[]" "[]" 0]
    fuel_print [OF assms(1), of "\<lambda>_. []" "[]" 0] assms(2)
  by (simp add: Marshal_def)

end
