(* ===== verification/Timestamp.thy ===== *)
theory Timestamp
  imports Go_Strings
begin

text \<open>
  A \<^verbatim>\<open>time.Time\<close> as its fields in its own time zone, with the two conversions that JSON uses:
  \<^verbatim>\<open>MarshalJSON\<close> prints RFC 3339 with the nanoseconds' trailing zeros dropped, \<^verbatim>\<open>UnmarshalJSON\<close> parses
  it strictly. Time zones are whole minutes.
\<close>

record timestamp =
  ts_year :: nat
  ts_month :: nat
  ts_day :: nat
  ts_hour :: nat
  ts_min :: nat
  ts_sec :: nat
  ts_nsec :: nat
  ts_zone :: int   \<comment> \<open>minutes east of UTC\<close>

text \<open>The zero \<^verbatim>\<open>time.Time\<close>.\<close>

definition zero_time :: timestamp where
  "zero_time = \<lparr>ts_year = 1, ts_month = 1, ts_day = 1, ts_hour = 0, ts_min = 0, ts_sec = 0,
                ts_nsec = 0, ts_zone = 0\<rparr>"

section \<open>Printing\<close>

definition pad :: "nat \<Rightarrow> nat \<Rightarrow> string" where
  "pad k n = replicate (k - length (show_nat n)) (CHR ''0'') @ show_nat n"

definition strip_zeros :: "string \<Rightarrow> string" where
  "strip_zeros s = rev (dropWhile (\<lambda>c. c = CHR ''0'') (rev s))"

definition show_frac :: "nat \<Rightarrow> string" where
  "show_frac n = (if n = 0 then [] else CHR ''.'' # strip_zeros (pad 9 n))"

definition show_zone :: "int \<Rightarrow> string" where
  "show_zone z =
     (if z = 0 then ''Z''
      else (if z < 0 then CHR ''-'' else CHR ''+'') #
           pad 2 (nat \<bar>z\<bar> div 60) @ CHR '':'' # pad 2 (nat \<bar>z\<bar> mod 60))"

definition show_time :: "timestamp \<Rightarrow> string" where
  "show_time t =
     pad 4 (ts_year t) @ CHR ''-'' # pad 2 (ts_month t) @ CHR ''-'' # pad 2 (ts_day t) @ CHR ''T'' #
     pad 2 (ts_hour t) @ CHR '':'' # pad 2 (ts_min t) @ CHR '':'' # pad 2 (ts_sec t) @
     show_frac (ts_nsec t) @ show_zone (ts_zone t)"

text \<open>\<^verbatim>\<open>MarshalJSON\<close> refuses a year of more than four digits and a zone of 24 hours or more.\<close>

definition marshal_time :: "timestamp \<Rightarrow> string option" where
  "marshal_time t = (if 9999 < ts_year t \<or> 1440 \<le> \<bar>ts_zone t\<bar> then None else Some (show_time t))"

section \<open>Parsing\<close>

definition leap :: "nat \<Rightarrow> bool" where
  "leap y \<longleftrightarrow> y mod 4 = 0 \<and> (y mod 100 \<noteq> 0 \<or> y mod 400 = 0)"

definition days_in :: "nat \<Rightarrow> nat \<Rightarrow> nat" where
  "days_in m y =
     (if m = 2 then (if leap y then 29 else 28)
      else if m = 4 \<or> m = 6 \<or> m = 9 \<or> m = 11 then 30 else 31)"

text \<open>A field of exactly \<open>k\<close> digits between two bounds, and the rest.\<close>

definition num_field :: "nat \<Rightarrow> nat \<Rightarrow> nat \<Rightarrow> string \<Rightarrow> (nat \<times> string) option" where
  "num_field k lo hi s =
     (if length (take k s) = k \<and> list_all is_digit (take k s) \<and>
         lo \<le> read_nat (take k s) \<and> read_nat (take k s) \<le> hi
      then Some (read_nat (take k s), drop k s) else None)"

fun expect :: "char \<Rightarrow> string \<Rightarrow> string option" where
  "expect c [] = None"
| "expect c (x # xs) = (if x = c then Some xs else None)"

text \<open>A fraction: at most nine digits count.\<close>

definition frac_field :: "string \<Rightarrow> nat \<times> string" where
  "frac_field s =
     (if s \<noteq> [] \<and> hd s = CHR ''.'' \<and> takeWhile is_digit (tl s) \<noteq> [] then
        (let ds = take 9 (takeWhile is_digit (tl s))
         in (read_nat (ds @ replicate (9 - length ds) (CHR ''0'')), dropWhile is_digit (tl s)))
      else (0, s))"

definition zone_field :: "string \<Rightarrow> int option" where
  "zone_field s =
     (if s = ''Z'' then Some 0
      else if s \<noteq> [] \<and> (hd s = CHR ''+'' \<or> hd s = CHR ''-'') then
        Option.bind (num_field 2 0 23 (tl s)) (\<lambda>(h, s1).
        Option.bind (expect (CHR '':'') s1) (\<lambda>s2.
        Option.bind (num_field 2 0 59 s2) (\<lambda>(m, s3).
          if s3 \<noteq> [] then None
          else Some (if hd s = CHR ''-'' then - int (h * 60 + m) else int (h * 60 + m)))))
      else None)"

definition parse_time :: "string \<Rightarrow> timestamp option" where
  "parse_time s =
     Option.bind (num_field 4 0 9999 s) (\<lambda>(y, s).
     Option.bind (expect (CHR ''-'') s) (\<lambda>s.
     Option.bind (num_field 2 1 12 s) (\<lambda>(mo, s).
     Option.bind (expect (CHR ''-'') s) (\<lambda>s.
     Option.bind (num_field 2 1 (days_in mo y) s) (\<lambda>(d, s).
     Option.bind (expect (CHR ''T'') s) (\<lambda>s.
     Option.bind (num_field 2 0 23 s) (\<lambda>(h, s).
     Option.bind (expect (CHR '':'') s) (\<lambda>s.
     Option.bind (num_field 2 0 59 s) (\<lambda>(mi, s).
     Option.bind (expect (CHR '':'') s) (\<lambda>s.
     Option.bind (num_field 2 0 59 s) (\<lambda>(se, s).
       (case frac_field s of (ns, s) \<Rightarrow>
          map_option (\<lambda>z. \<lparr>ts_year = y, ts_month = mo, ts_day = d, ts_hour = h, ts_min = mi,
                           ts_sec = se, ts_nsec = ns, ts_zone = z\<rparr>) (zone_field s)))))))))))))"

section \<open>Round trip\<close>

definition time_ok :: "timestamp \<Rightarrow> bool" where
  "time_ok t \<longleftrightarrow>
     ts_year t \<le> 9999 \<and> 1 \<le> ts_month t \<and> ts_month t \<le> 12 \<and>
     1 \<le> ts_day t \<and> ts_day t \<le> days_in (ts_month t) (ts_year t) \<and>
     ts_hour t \<le> 23 \<and> ts_min t \<le> 59 \<and> ts_sec t \<le> 59 \<and> ts_nsec t < 10 ^ 9 \<and> \<bar>ts_zone t\<bar> < 1440"

lemma length_show_nat: "n < 10 ^ k \<Longrightarrow> 0 < k \<Longrightarrow> length (show_nat n) \<le> k"
proof (induction k arbitrary: n)
  case (Suc k)
  show ?case
  proof (cases "n < 10")
    case False
    then have "n div 10 < 10 ^ k" and "0 < k" using Suc.prems by (cases k; simp add: less_mult_imp_div_less)+
    then show ?thesis using Suc.IH [of "n div 10"] False by (simp add: show_nat.simps [of n])
  qed (simp add: show_nat.simps [of n])
qed simp

lemma zero_digit: "is_digit (CHR ''0'')" "digit_val (CHR ''0'') = 0"
  by (simp_all add: is_digit_def digit_val_def)

lemma read_zeros: "read_nat (replicate k (CHR ''0'') @ s) = read_nat s"
proof -
  have "foldl dec_step 0 (replicate k (CHR ''0'')) = 0"
    by (induction k) (simp_all add: dec_step_def zero_digit)
  then show ?thesis by (simp add: read_nat_def)
qed

lemma length_pad: "n < 10 ^ k \<Longrightarrow> 0 < k \<Longrightarrow> length (pad k n) = k"
  using length_show_nat [of n k] by (simp add: pad_def)

lemma read_pad [simp]: "read_nat (pad k n) = n"
  by (simp add: pad_def read_zeros)

lemma pad_digits: "c \<in> set (pad k n) \<Longrightarrow> is_digit c"
  using show_nat_digits by (auto simp: pad_def zero_digit)

lemma num_field_pad:
  "n < 10 ^ k \<Longrightarrow> 0 < k \<Longrightarrow> lo \<le> n \<Longrightarrow> n \<le> hi \<Longrightarrow> num_field k lo hi (pad k n @ s) = Some (n, s)"
  using length_pad [of n k] pad_digits by (auto simp: num_field_def list_all_iff)

lemma strip_zeros_append:
  "strip_zeros s @ replicate (length s - length (strip_zeros s)) (CHR ''0'') = s"
proof -
  let ?z = "takeWhile (\<lambda>c. c = CHR ''0'') (rev s)"
  have all0: "\<forall>c\<in>set ?z. c = CHR ''0''" by (auto dest: set_takeWhileD)
  have "rev s = ?z @ dropWhile (\<lambda>c. c = CHR ''0'') (rev s)" by simp
  then have "rev (rev s) = strip_zeros s @ rev ?z" unfolding strip_zeros_def by (metis rev_append)
  then have "s = strip_zeros s @ rev ?z" by simp
  moreover have "rev ?z = replicate (length ?z) (CHR ''0'')"
    using replicate_length_same [OF all0] by (metis rev_replicate)
  ultimately show ?thesis by (metis add_diff_cancel_left' length_append length_rev)
qed

lemma strip_zeros_set: "set (strip_zeros s) \<subseteq> set s"
  unfolding strip_zeros_def by (auto dest: set_dropWhileD)

lemma zone_head: "\<exists>c x. show_zone z = c # x \<and> \<not> is_digit c \<and> c \<noteq> CHR ''.''"
  by (simp add: show_zone_def is_digit_def)

lemma frac_field_show:
  assumes "n < 10 ^ 9"
  shows "frac_field (show_frac n @ show_zone z) = (n, show_zone z)"
proof -
  obtain c x where z: "show_zone z = c # x" "\<not> is_digit c" "c \<noteq> CHR ''.''" using zone_head by blast
  show ?thesis
  proof (cases "n = 0")
    case True
    then show ?thesis using z by (simp add: frac_field_def show_frac_def)
  next
    case False
    let ?ds = "strip_zeros (pad 9 n)"
    have dig: "\<forall>c\<in>set ?ds. is_digit c" using strip_zeros_set pad_digits by blast
    have len: "length (pad 9 n) = 9" using length_pad [of n 9] assms by simp
    have app: "?ds @ replicate (9 - length ?ds) (CHR ''0'') = pad 9 n"
      using strip_zeros_append [of "pad 9 n"] len by simp
    have le: "length ?ds \<le> 9" using arg_cong [OF app, of length] len by simp
    have ne: "?ds \<noteq> []"
    proof
      assume "?ds = []"
      then have "pad 9 n = replicate 9 (CHR ''0'')" using app by simp
      then have "n = 0" using read_pad [of 9 n] read_zeros [of 9 "[]"] by (simp add: read_nat_def)
      with False show False ..
    qed
    have tw: "takeWhile is_digit (?ds @ show_zone z) = ?ds" "dropWhile is_digit (?ds @ show_zone z) = show_zone z"
      using dig z by (simp_all add: takeWhile_append dropWhile_append)
    show ?thesis
      using False ne tw le app read_pad [of 9 n] by (simp add: frac_field_def show_frac_def)
  qed
qed

lemma zone_field_show:
  assumes "\<bar>z\<bar> < 1440"
  shows "zone_field (show_zone z) = Some z"
proof (cases "z = 0")
  case True
  then show ?thesis by (simp add: zone_field_def show_zone_def)
next
  case False
  have h: "nat \<bar>z\<bar> div 60 \<le> 23" using assms by linarith
  have m: "nat \<bar>z\<bar> mod 60 \<le> 59" by simp
  have v: "nat \<bar>z\<bar> div 60 * 60 + nat \<bar>z\<bar> mod 60 = nat \<bar>z\<bar>" by simp
  have a: "num_field 2 0 23 (pad 2 (nat \<bar>z\<bar> div 60) @ s) = Some (nat \<bar>z\<bar> div 60, s)" for s
    using h by (intro num_field_pad) simp_all
  have b: "num_field 2 0 59 (pad 2 (nat \<bar>z\<bar> mod 60)) = Some (nat \<bar>z\<bar> mod 60, [])"
    using num_field_pad [of "nat \<bar>z\<bar> mod 60" 2 0 59 "[]"] m by simp
  show ?thesis using False by (simp add: zone_field_def show_zone_def a b v)
qed

lemma time_roundtrip:
  assumes "time_ok t"
  shows "marshal_time t = Some (show_time t)" and "parse_time (show_time t) = Some t"
proof -
  show "marshal_time t = Some (show_time t)" using assms by (auto simp: marshal_time_def time_ok_def)
  have d: "ts_day t < 10 ^ 2"
    using assms by (auto simp: time_ok_def days_in_def split: if_splits)
  have p: "num_field 4 0 9999 (pad 4 (ts_year t) @ s) = Some (ts_year t, s)"
    "num_field 2 1 12 (pad 2 (ts_month t) @ s) = Some (ts_month t, s)"
    "num_field 2 1 (days_in (ts_month t) (ts_year t)) (pad 2 (ts_day t) @ s) = Some (ts_day t, s)"
    "num_field 2 0 23 (pad 2 (ts_hour t) @ s) = Some (ts_hour t, s)"
    "num_field 2 0 59 (pad 2 (ts_min t) @ s) = Some (ts_min t, s)"
    "num_field 2 0 59 (pad 2 (ts_sec t) @ s) = Some (ts_sec t, s)" for s
    using assms d by (intro num_field_pad; simp add: time_ok_def)+
  show "parse_time (show_time t) = Some t"
    using assms by (simp add: parse_time_def show_time_def p frac_field_show zone_field_show time_ok_def
        del: One_nat_def)
qed

text \<open>A printed time needs no escapes in JSON.\<close>

definition time_char :: "char \<Rightarrow> bool" where
  "time_char c \<longleftrightarrow> is_digit c \<or> c \<in> set ''-T:.Z+''"

lemma pad_chars: "\<forall>c\<in>set (pad k n). time_char c"
  using pad_digits by (simp add: time_char_def)

lemma show_time_chars: "\<forall>c\<in>set (show_time t). time_char c"
proof -
  have tc: "time_char (CHR ''-'')" "time_char (CHR ''T'')" "time_char (CHR '':'')" "time_char (CHR ''+'')"
    "time_char (CHR ''Z'')"
    by (simp_all add: time_char_def)
  have "\<forall>c\<in>set (show_frac n). time_char c" for n
  proof -
    have "\<forall>c\<in>set (strip_zeros (pad 9 n)). time_char c" using strip_zeros_set pad_chars by blast
    then show ?thesis by (simp add: show_frac_def time_char_def [of "CHR ''.''"])
  qed
  moreover have "\<forall>c\<in>set (show_zone z). time_char c" for z
    using pad_chars tc by (simp add: show_zone_def ball_Un)
  ultimately show ?thesis using pad_chars tc by (simp add: show_time_def ball_Un)
qed

end
