(* ===== verification/Peers.thy ===== *)
theory Peers
  imports Os Json_Roundtrip Timestamp
begin

text \<open>
  The store of VPN peers, \<^verbatim>\<open>internal/wgserver/peers.go\<close>: a slice of pointers to peers that every
  change writes to a JSON file. A pointer is nil when the file has \<^verbatim>\<open>null\<close> for an element, and the
  slice is nil when the whole file is \<^verbatim>\<open>null\<close>; following a nil pointer is a panic.
\<close>

section \<open>Data\<close>

record Peer =
  p_Name :: string
  p_PublicKey :: string
  p_PrivateKey :: string
  p_AllowedIP :: string
  p_CreatedAt :: timestamp

record PeerStore =
  ps_peers :: "Peer option list"
  ps_nil :: bool
  ps_filePath :: string

datatype peers_err =
    ReadingPeers os_err
  | ParsingPeers
  | MarshalingPeers
  | WritingPeers os_err
  | PeerNotStored string

definition NewPeerStore :: "string \<Rightarrow> PeerStore" where
  "NewPeerStore path = \<lparr>ps_peers = [], ps_nil = False, ps_filePath = path\<rparr>"

definition nil_deref :: string where
  "nil_deref = ''invalid memory address or nil pointer dereference''"

section \<open>The JSON form\<close>

text \<open>Field names match under case folding, in which U+017F and U+212A count as S and K.\<close>

function fold_name :: "string \<Rightarrow> string" where
  "fold_name s =
     (if s = [] then []
      else if take 2 s = [CHR 0xC5, CHR 0xBF] then CHR ''S'' # fold_name (drop 2 s)
      else if take 3 s = [CHR 0xE2, CHR 0x84, CHR 0xAA] then CHR ''K'' # fold_name (drop 3 s)
      else upper_char (hd s) # fold_name (drop 1 s))"
  by pat_completeness auto
termination
  by (relation "measure length") auto

declare fold_name.simps [simp del]

definition zero_peer :: Peer where
  "zero_peer = \<lparr>p_Name = [], p_PublicKey = [], p_PrivateKey = [], p_AllowedIP = [],
                p_CreatedAt = zero_time\<rparr>"

text \<open>Storing a value into a string field: \<^verbatim>\<open>null\<close> leaves it as it is.\<close>

definition set_string :: "json \<Rightarrow> (string \<Rightarrow> 'a \<Rightarrow> 'a) \<Rightarrow> 'a \<Rightarrow> 'a option" where
  "set_string v f p =
     (case v of
        JNull \<Rightarrow> Some p
      | JLit l \<Rightarrow> map_option (\<lambda>s. f s p) (unquote l)
      | _ \<Rightarrow> None)"

definition set_time :: "json \<Rightarrow> (timestamp \<Rightarrow> 'a \<Rightarrow> 'a) \<Rightarrow> 'a \<Rightarrow> 'a option" where
  "set_time v f p =
     (case v of
        JNull \<Rightarrow> Some p
      | JLit l \<Rightarrow> map_option (\<lambda>t. f t p) (parse_time l)
      | _ \<Rightarrow> None)"

definition set_field :: "Peer \<Rightarrow> string \<times> json \<Rightarrow> Peer option" where
  "set_field p kv =
     (case kv of (k, v) \<Rightarrow>
        (case unquote k of
           None \<Rightarrow> None
         | Some key \<Rightarrow>
             (let n = fold_name key in
              if n = ''NAME'' then set_string v (\<lambda>s p. p\<lparr>p_Name := s\<rparr>) p
              else if n = ''PUBLIC_KEY'' then set_string v (\<lambda>s p. p\<lparr>p_PublicKey := s\<rparr>) p
              else if n = ''PRIVATE_KEY'' then set_string v (\<lambda>s p. p\<lparr>p_PrivateKey := s\<rparr>) p
              else if n = ''ALLOWED_IP'' then set_string v (\<lambda>s p. p\<lparr>p_AllowedIP := s\<rparr>) p
              else if n = ''CREATED_AT'' then set_time v (\<lambda>t p. p\<lparr>p_CreatedAt := t\<rparr>) p
              else Some p)))"

fun set_fields :: "Peer \<Rightarrow> (string \<times> json) list \<Rightarrow> Peer option" where
  "set_fields p [] = Some p"
| "set_fields p (kv # kvs) = Option.bind (set_field p kv) (\<lambda>q. set_fields q kvs)"

definition decode_peer :: "json \<Rightarrow> Peer option option" where
  "decode_peer v =
     (case v of
        JNull \<Rightarrow> Some None
      | JObj kvs \<Rightarrow> map_option Some (set_fields zero_peer kvs)
      | _ \<Rightarrow> None)"

text \<open>The list of a decoded file and whether it is the nil slice.\<close>

definition decode_peers :: "json \<Rightarrow> (Peer option list \<times> bool) option" where
  "decode_peers v =
     (case v of
        JNull \<Rightarrow> Some ([], True)
      | JArr vs \<Rightarrow> map_option (\<lambda>ps. (ps, False)) (those (map decode_peer vs))
      | _ \<Rightarrow> None)"

definition encode_peer :: "Peer option \<Rightarrow> json option" where
  "encode_peer q =
     (case q of
        None \<Rightarrow> Some JNull
      | Some p \<Rightarrow>
          map_option (\<lambda>t.
            JObj [(''name'', JStr (p_Name p)), (''public_key'', JStr (p_PublicKey p)),
                  (''private_key'', JStr (p_PrivateKey p)), (''allowed_ip'', JStr (p_AllowedIP p)),
                  (''created_at'', JLit t)])
            (marshal_time (p_CreatedAt p)))"

definition encode_peers :: "PeerStore \<Rightarrow> json option" where
  "encode_peers ps =
     (if ps_nil ps then Some JNull else map_option JArr (those (map encode_peer (ps_peers ps))))"

section \<open>Operations\<close>

definition ps_Load :: "env \<Rightarrow> world \<Rightarrow> PeerStore \<Rightarrow> ((peers_err, unit) res \<times> PeerStore) \<times> world" where
  "ps_Load E w ps =
     (case read_file E w (ps_filePath ps) of
        (Err (NotExist e), w1) \<Rightarrow> ((Ok (), ps), w1)
      | (Err e, w1) \<Rightarrow> ((Err (ReadingPeers e), ps), w1)
      | (Panic p, w1) \<Rightarrow> ((Panic p, ps), w1)
      | (Ok text, w1) \<Rightarrow>
          (case Option.bind (json_parse text) decode_peers of
             None \<Rightarrow> ((Err ParsingPeers, ps), w1)
           | Some (peers, isnil) \<Rightarrow> ((Ok (), ps\<lparr>ps_peers := peers, ps_nil := isnil\<rparr>), w1)))"

definition ps_Save :: "env \<Rightarrow> world \<Rightarrow> PeerStore \<Rightarrow> (peers_err, unit) res \<times> world" where
  "ps_Save E w ps =
     (case encode_peers ps of
        None \<Rightarrow> (Err MarshalingPeers, w)
      | Some v \<Rightarrow>
          (case write_file E w (ps_filePath ps) (MarshalIndent v) of
             (None, w1) \<Rightarrow> (Ok (), w1)
           | (Some e, w1) \<Rightarrow> (Err (WritingPeers e), w1)))"

text \<open>\<open>at\<close> is the time \<^verbatim>\<open>time.Now()\<close> returns.\<close>

definition ps_Add ::
    "env \<Rightarrow> world \<Rightarrow> timestamp \<Rightarrow> PeerStore \<Rightarrow> Peer \<Rightarrow> ((peers_err, unit) res \<times> PeerStore) \<times> world" where
  "ps_Add E w at ps p =
     (let ps1 = ps\<lparr>ps_peers := ps_peers ps @ [Some (p\<lparr>p_CreatedAt := at\<rparr>)], ps_nil := False\<rparr>
      in case ps_Save E w ps1 of (r, w1) \<Rightarrow> ((r, ps1), w1))"

text \<open>The loops look at one pointer after the other, up to the first peer of the name.\<close>

fun find_peer :: "string \<Rightarrow> Peer option list \<Rightarrow> ('e, nat option) res" where
  "find_peer name [] = Ok None"
| "find_peer name (None # ps) = Panic nil_deref"
| "find_peer name (Some p # ps) =
     (if p_Name p = name then Ok (Some 0)
      else bind_res (find_peer name ps) (\<lambda>r. Ok (map_option Suc r)))"

definition ps_Remove ::
    "env \<Rightarrow> world \<Rightarrow> PeerStore \<Rightarrow> string \<Rightarrow> ((peers_err, unit) res \<times> PeerStore) \<times> world" where
  "ps_Remove E w ps name =
     (case find_peer name (ps_peers ps) of
        Panic e \<Rightarrow> ((Panic e, ps), w)
      | Err e \<Rightarrow> ((Err e, ps), w)
      | Ok None \<Rightarrow> ((Err (PeerNotStored name), ps), w)
      | Ok (Some i) \<Rightarrow>
          (let ps1 = ps\<lparr>ps_peers := take i (ps_peers ps) @ drop (i + 1) (ps_peers ps)\<rparr>
           in case ps_Save E w ps1 of (r, w1) \<Rightarrow> ((r, ps1), w1)))"

definition ps_Get :: "PeerStore \<Rightarrow> string \<Rightarrow> ('e, Peer option) res" where
  "ps_Get ps name =
     bind_res (find_peer name (ps_peers ps))
       (\<lambda>r. Ok (case r of None \<Rightarrow> None | Some i \<Rightarrow> ps_peers ps ! i))"

definition ps_List :: "PeerStore \<Rightarrow> ('e, Peer list) res" where
  "ps_List ps = (case those (ps_peers ps) of None \<Rightarrow> Panic nil_deref | Some l \<Rightarrow> Ok l)"

end
