(* ===== verification/Peers_Props.thy ===== *)
theory Peers_Props
  imports Peers
begin

text \<open>
  The peer store keeps what it is given: a saved store is loaded back unchanged, and its operations
  are those of a map from names to peers as long as the names differ.
\<close>

section \<open>Encoding and decoding\<close>

definition peer_ok :: "Peer \<Rightarrow> bool" where
  "peer_ok p \<longleftrightarrow>
     valid_utf8 (p_Name p) \<and> valid_utf8 (p_PublicKey p) \<and> valid_utf8 (p_PrivateKey p) \<and>
     valid_utf8 (p_AllowedIP p) \<and> time_ok (p_CreatedAt p)"

definition peers_ok :: "PeerStore \<Rightarrow> bool" where
  "peers_ok ps \<longleftrightarrow>
     (\<forall>q\<in>set (ps_peers ps). \<forall>p. q = Some p \<longrightarrow> peer_ok p) \<and> (ps_nil ps \<longrightarrow> ps_peers ps = [])"

lemma esc_plain:
  "\<forall>c\<in>set s. byte_in 0 0x7F c \<and> esc_ascii c = [c] \<Longrightarrow> esc_string s = s"
proof (induction s)
  case Nil
  show ?case by (simp add: esc_string.simps [of "[]"])
next
  case (Cons c s)
  then show ?case by (simp add: esc_string.simps [of "c # s"])
qed

lemma digit_plain_lit:
  assumes "is_digit c"
  shows "byte_in 0 0x7F c \<and> esc_ascii c = [c]"
proof -
  have "c \<noteq> bsl" "c \<noteq> CHR 0x22" "c \<noteq> CHR 0x08" "c \<noteq> CHR 0x0C" "c \<noteq> CHR 0x0A" "c \<noteq> CHR 0x0D"
    "c \<noteq> CHR 0x09" "c \<noteq> CHR ''<''" "c \<noteq> CHR ''>''" "c \<noteq> CHR ''&''"
    using assms by (auto simp: is_digit_def)
  moreover have "\<not> byte_in 0 0x1F c" "byte_in 0 0x7F c" using assms by (simp_all add: is_digit_def byte_in_def)
  ultimately show ?thesis by (simp add: esc_ascii_def)
qed

lemma time_char_plain: "time_char c \<Longrightarrow> byte_in 0 0x7F c \<and> esc_ascii c = [c]"
proof -
  have "\<forall>c\<in>set ''-T:.Z+''. byte_in 0 0x7F c \<and> esc_ascii c = [c]"
    by (simp add: byte_in_def esc_ascii_def)
  then show "time_char c \<Longrightarrow> byte_in 0 0x7F c \<and> esc_ascii c = [c]"
    unfolding time_char_def using digit_plain_lit by blast
qed

lemma lit_ok_time: "lit_ok (show_time t)"
proof -
  have "esc_string (show_time t) = show_time t"
    using show_time_chars time_char_plain by (intro esc_plain) blast
  then show ?thesis by (metis lit_ok_def)
qed

lemma lit_ok_plain: "\<forall>c\<in>set s. byte_in 0 0x7F c \<and> esc_ascii c = [c] \<Longrightarrow> lit_ok s"
  using esc_plain by (metis lit_ok_def)

lemma unquote_plain:
  "\<forall>c\<in>set s. byte_in 0 0x7F c \<and> esc_ascii c = [c] \<Longrightarrow> unquote s = Some s"
proof (induction s)
  case Nil
  show ?case by (simp add: unquote.simps [of "[]"])
next
  case (Cons c s)
  then show ?case using unquote_ascii [of c s] by simp
qed

lemma plain_names:
  "\<forall>c\<in>set (''name'' @ ''public_key'' @ ''private_key'' @ ''allowed_ip'' @ ''created_at'').
     byte_in 0 0x7F c \<and> esc_ascii c = [c]"
  by (simp add: byte_in_def esc_ascii_def)

lemma unquote_names:
  "unquote ''name'' = Some ''name''" "unquote ''public_key'' = Some ''public_key''"
  "unquote ''private_key'' = Some ''private_key''" "unquote ''allowed_ip'' = Some ''allowed_ip''"
  "unquote ''created_at'' = Some ''created_at''"
  using plain_names by (simp_all add: unquote_plain)

lemma lit_ok_names:
  "lit_ok ''name''" "lit_ok ''public_key''" "lit_ok ''private_key''" "lit_ok ''allowed_ip''"
  "lit_ok ''created_at''"
  using plain_names by (simp_all add: lit_ok_plain)

lemma fold_names:
  "fold_name ''name'' = ''NAME''" "fold_name ''public_key'' = ''PUBLIC_KEY''"
  "fold_name ''private_key'' = ''PRIVATE_KEY''" "fold_name ''allowed_ip'' = ''ALLOWED_IP''"
  "fold_name ''created_at'' = ''CREATED_AT''"
  by code_simp+

lemma decode_encode_peer:
  assumes "\<And>p. q = Some p \<Longrightarrow> peer_ok p"
  shows "\<exists>v. encode_peer q = Some v \<and> decode_peer v = Some q \<and> json_ok v \<and> depth v \<le> 1"
proof (cases q)
  case None
  then show ?thesis by (simp add: encode_peer_def decode_peer_def)
next
  case (Some p)
  then have p: "peer_ok p" using assms by simp
  then have t: "time_ok (p_CreatedAt p)" by (simp add: peer_ok_def)
  show ?thesis
    using p Some
    by (simp add: encode_peer_def time_roundtrip [OF t] decode_peer_def set_field_def unquote_names
        fold_names set_string_def set_time_def JStr_def unquote_esc_string peer_ok_def zero_peer_def
        lit_ok_names lit_ok_time)
qed

lemma decode_encode_peers:
  assumes "\<forall>q\<in>set qs. \<forall>p. q = Some p \<longrightarrow> peer_ok p"
  shows "\<exists>vs. those (map encode_peer qs) = Some vs \<and> those (map decode_peer vs) = Some qs \<and>
              (\<forall>v\<in>set vs. json_ok v \<and> depth v \<le> 1)"
  using assms
proof (induction qs)
  case Nil
  then show ?case by simp
next
  case (Cons q qs)
  then obtain vs where "those (map encode_peer qs) = Some vs" "those (map decode_peer vs) = Some qs"
    "\<forall>v\<in>set vs. json_ok v \<and> depth v \<le> 1" by auto
  moreover obtain v where "encode_peer q = Some v" "decode_peer v = Some q" "json_ok v" "depth v \<le> 1"
    using decode_encode_peer [of q] Cons.prems by auto
  ultimately show ?case by (intro exI [of _ "v # vs"]) simp
qed

lemma decode_encode_store:
  assumes "peers_ok ps"
  obtains v where "encode_peers ps = Some v" "decode_peers v = Some (ps_peers ps, ps_nil ps)"
    "json_parse (MarshalIndent v) = Some v"
proof (cases "ps_nil ps")
  case True
  then show ?thesis
    using that [of JNull] assms json_parse_MarshalIndent [of JNull]
    by (simp add: encode_peers_def decode_peers_def peers_ok_def)
next
  case False
  obtain vs where vs: "those (map encode_peer (ps_peers ps)) = Some vs"
    "those (map decode_peer vs) = Some (ps_peers ps)" "\<forall>v\<in>set vs. json_ok v \<and> depth v \<le> 1"
    using decode_encode_peers [of "ps_peers ps"] assms by (auto simp: peers_ok_def)
  have "depth (JArr vs) \<le> 2" using vs(3) by (auto simp: Max_le_iff)
  then have "json_parse (MarshalIndent (JArr vs)) = Some (JArr vs)"
    using vs(3) by (intro json_parse_MarshalIndent) auto
  then show ?thesis
    using that [of "JArr vs"] vs False by (simp add: encode_peers_def decode_peers_def)
qed

lemma save_then_load:
  assumes "peers_ok ps" and "ps_Save E w ps = (Ok (), w')"
    and "read_fault E (tick w') (ps_filePath ps) = None" and "ps_filePath old = ps_filePath ps"
  shows "ps_Load E w' old = ((Ok (), ps), tock w')"
proof -
  obtain v where v: "encode_peers ps = Some v" "decode_peers v = Some (ps_peers ps, ps_nil ps)"
    "json_parse (MarshalIndent v) = Some v"
    using decode_encode_store [OF assms(1)] by blast
  have "write_file E w (ps_filePath ps) (MarshalIndent v) = (None, w')"
    using assms(2) v(1) by (simp add: ps_Save_def split: prod.splits option.splits)
  then have "file_at w' (ps_filePath ps) = Some (MarshalIndent v)" by (rule write_file_ok)
  then have "read_file E w' (ps_filePath ps) = (Ok (MarshalIndent v), tock w')"
    using assms(3) by (simp add: read_file_def)
  then show ?thesis using v assms(4) by (simp add: ps_Load_def)
qed

end
