(* ===== verification/Named_Store.thy ===== *)
theory Named_Store
  imports Peers_Props
begin

text \<open>
  The contract between the VPN server and the store of its peers: a list of items looked up by the
  first match of a name, extended at its end and shortened by the first match. Under it a client that
  only inserts absent names works on a map. The peer store is an interpretation.
\<close>

definition by_name :: "('i \<Rightarrow> string) \<Rightarrow> 'i list \<Rightarrow> string \<Rightarrow> 'i option" where
  "by_name name xs = map_of (map (\<lambda>x. (name x, x)) xs)"

lemma by_name_find: "by_name name xs n = find (\<lambda>x. name x = n) xs"
  by (induction xs) (simp_all add: by_name_def)

lemma by_name_None_iff: "by_name name xs n = None \<longleftrightarrow> n \<notin> name ` set xs"
  by (auto simp: by_name_find find_None_iff)

lemma by_name_remove:
  assumes "distinct (map name xs)"
  shows "by_name name (remove_first (\<lambda>x. name x = n) xs) = (by_name name xs)(n := None)"
proof
  fix k
  show "by_name name (remove_first (\<lambda>x. name x = n) xs) k = ((by_name name xs)(n := None)) k"
    using find_remove_first_same [OF assms, of n]
      find_remove_first_other [of "\<lambda>x. name x = k" "\<lambda>x. name x = n" xs]
    by (simp add: by_name_find)
qed

lemma by_name_snoc:
  "by_name name xs (name x) = None \<Longrightarrow> by_name name (xs @ [x]) = (by_name name xs)(name x \<mapsto> x)"
  by (auto simp: by_name_find find_append fun_eq_iff split: option.splits)

locale named_store =
  fixes items :: "'s \<Rightarrow> 'i list"
    and name :: "'i \<Rightarrow> string"
    and lookup :: "'s \<Rightarrow> string \<Rightarrow> 'i option"
    and stored :: "'i \<Rightarrow> 'i"
    and insert_item :: "'s \<Rightarrow> 'i \<Rightarrow> 's"
    and delete_item :: "'s \<Rightarrow> string \<Rightarrow> 's"
    and ok :: "'s \<Rightarrow> bool"
  assumes lookup_first: "ok s \<Longrightarrow> lookup s n = find (\<lambda>x. name x = n) (items s)"
    and insert_last: "ok s \<Longrightarrow> items (insert_item s x) = items s @ [stored x]"
    and delete_first: "ok s \<Longrightarrow> items (delete_item s n) = remove_first (\<lambda>x. name x = n) (items s)"
    and insert_ok: "ok s \<Longrightarrow> ok (insert_item s x)"
    and delete_ok: "ok s \<Longrightarrow> ok (delete_item s n)"
    and stored_name: "name (stored x) = name x"
begin

lemma lookup_map: "ok s \<Longrightarrow> lookup s n = by_name name (items s) n"
  by (simp add: lookup_first by_name_find)

lemma insert_map:
  "ok s \<Longrightarrow> lookup s (name x) = None \<Longrightarrow>
     by_name name (items (insert_item s x)) = (by_name name (items s))(name x \<mapsto> stored x)"
  using by_name_snoc [of name "items s" "stored x"] by (simp add: lookup_map insert_last stored_name)

lemma insert_distinct:
  "ok s \<Longrightarrow> lookup s (name x) = None \<Longrightarrow> distinct (map name (items s)) \<Longrightarrow>
     distinct (map name (items (insert_item s x)))"
  by (auto simp: lookup_map insert_last stored_name by_name_None_iff)

lemma delete_map:
  "ok s \<Longrightarrow> distinct (map name (items s)) \<Longrightarrow>
     by_name name (items (delete_item s n)) = (by_name name (items s))(n := None)"
  by (simp add: delete_first by_name_remove)

lemma delete_distinct:
  "ok s \<Longrightarrow> distinct (map f (items s)) \<Longrightarrow> distinct (map f (items (delete_item s n)))"
  by (simp add: delete_first distinct_map_remove_first)

text \<open>A name is found after its insertion and gone after its deletion.\<close>

lemma lookup_insert:
  "ok s \<Longrightarrow> lookup s (name x) = None \<Longrightarrow> lookup (insert_item s x) (name x) = Some (stored x)"
  by (simp add: lookup_map [OF insert_ok] insert_map)

lemma lookup_delete:
  "ok s \<Longrightarrow> distinct (map name (items s)) \<Longrightarrow> lookup (delete_item s n) n = None"
  by (simp add: lookup_map [OF delete_ok] delete_map)

end

section \<open>The peer store\<close>

definition ps_items :: "PeerStore \<Rightarrow> Peer list" where
  "ps_items ps = map the (ps_peers ps)"

definition no_nil :: "PeerStore \<Rightarrow> bool" where
  "no_nil ps \<longleftrightarrow> None \<notin> set (ps_peers ps)"

lemma no_nil_items: "no_nil ps \<Longrightarrow> ps_peers ps = map Some (ps_items ps)"
proof -
  assume "no_nil ps"
  then have "map (\<lambda>q. Some (the q)) (ps_peers ps) = ps_peers ps"
    by (intro map_idI) (metis no_nil_def option.collapse)
  then show ?thesis by (simp add: ps_items_def comp_def)
qed

fun first_index :: "('a \<Rightarrow> bool) \<Rightarrow> 'a list \<Rightarrow> nat option" where
  "first_index P [] = None"
| "first_index P (x # xs) = (if P x then Some 0 else map_option Suc (first_index P xs))"

lemma find_peer_Some: "find_peer n (map Some l) = Ok (first_index (\<lambda>p. p_Name p = n) l)"
  by (induction l) simp_all

lemma first_index_find:
  "find P l = map_option ((!) l) (first_index P l)"
  by (induction l) (auto simp: option.map_comp comp_def)

lemma first_index_remove:
  "first_index P l = Some i \<Longrightarrow> take i l @ drop (Suc i) l = remove_first P l"
  by (induction l arbitrary: i) (auto split: if_splits)

lemma first_index_None: "first_index P l = None \<Longrightarrow> remove_first P l = l"
  by (induction l) (auto split: if_splits)

lemma first_index_less: "first_index P l = Some i \<Longrightarrow> i < length l"
  by (induction l arbitrary: i) (auto split: if_splits)

lemma those_map_Some [simp]: "those (map Some l) = Some l"
  by (induction l) simp_all

lemma ps_List_items: "no_nil ps \<Longrightarrow> ps_List ps = Ok (ps_items ps)"
  by (simp add: ps_List_def no_nil_items)

lemma ps_Get_items: "no_nil ps \<Longrightarrow> ps_Get ps n = Ok (find (\<lambda>p. p_Name p = n) (ps_items ps))"
  using first_index_less [of _ "ps_items ps"]
  by (auto simp: ps_Get_def no_nil_items find_peer_Some first_index_find split: option.split)

lemma ps_Add_store:
  "snd (fst (ps_Add E w at ps p)) =
     ps\<lparr>ps_peers := ps_peers ps @ [Some (p\<lparr>p_CreatedAt := at\<rparr>)], ps_nil := False\<rparr>"
  by (simp add: ps_Add_def Let_def split: prod.split)

lemma ps_Remove_items:
  "no_nil ps \<Longrightarrow> ps_peers (snd (fst (ps_Remove E w ps n))) =
     map Some (remove_first (\<lambda>p. p_Name p = n) (ps_items ps))"
  using first_index_remove [of "\<lambda>p. p_Name p = n" "ps_items ps"]
    first_index_None [of "\<lambda>p. p_Name p = n" "ps_items ps"]
  by (auto simp: ps_Remove_def Let_def no_nil_items find_peer_Some take_map drop_map
      simp flip: map_append split: option.split prod.split)

definition ok_default :: "'a \<Rightarrow> ('e, 'a) res \<Rightarrow> 'a" where
  "ok_default d r = (case r of Ok x \<Rightarrow> x | _ \<Rightarrow> d)"

interpretation store: named_store ps_items p_Name "\<lambda>ps n. ok_default None (ps_Get ps n)"
    "\<lambda>p. p\<lparr>p_CreatedAt := at\<rparr>" "\<lambda>ps p. snd (fst (ps_Add E w at ps p))"
    "\<lambda>ps n. snd (fst (ps_Remove E w ps n))" no_nil
  for E :: env and w :: world and at :: timestamp
proof
  show "no_nil ps \<Longrightarrow> ok_default None (ps_Get ps n) = find (\<lambda>x. p_Name x = n) (ps_items ps)" for ps n
    by (simp add: ok_default_def ps_Get_items)
  show "no_nil ps \<Longrightarrow> ps_items (snd (fst (ps_Add E w at ps p))) = ps_items ps @ [p\<lparr>p_CreatedAt := at\<rparr>]" for ps p
    by (simp add: ps_Add_store ps_items_def)
  show "no_nil ps \<Longrightarrow> ps_items (snd (fst (ps_Remove E w ps n))) = remove_first (\<lambda>x. p_Name x = n) (ps_items ps)"
    for ps n
    by (simp add: ps_items_def [of "snd _"] ps_Remove_items comp_def)
  show "no_nil ps \<Longrightarrow> no_nil (snd (fst (ps_Add E w at ps p)))" for ps p
    by (simp add: no_nil_def ps_Add_store)
  show "no_nil ps \<Longrightarrow> no_nil (snd (fst (ps_Remove E w ps n)))" for ps n
    by (auto simp: no_nil_def [of "snd _"] ps_Remove_items)
qed simp

end
