(* ===== verification/WgServer.thy ===== *)
theory WgServer
  imports Named_Store Config Net
begin

text \<open>
  The VPN server, \<^verbatim>\<open>internal/wgserver/server.go\<close>. It keeps a key pair and the peers, and drives
  \<^verbatim>\<open>ip\<close>, \<^verbatim>\<open>wg\<close> and \<^verbatim>\<open>iptables\<close> through commands, which appear in the trace of the world. What a
  command prints, the machine's interfaces and the clock belong to the environment \<open>wg_env\<close>.
\<close>

section \<open>Data\<close>

record wg_env =
  we_os :: env
  we_mkdir :: "nat \<Rightarrow> string \<Rightarrow> string option"
  we_time :: "nat \<Rightarrow> timestamp"
  we_addrs :: "nat \<Rightarrow> string \<Rightarrow> ip option list option"
    \<comment> \<open>the addresses of an interface, those that are networks, or none if it cannot be read\<close>

record wgserver =
  sv_cfg :: config
  sv_privateKey :: string
  sv_publicKey :: string
  sv_running :: bool
  sv_peers :: PeerStore
  sv_configDir :: string

record ClientConfig =
  cc_Name :: string
  cc_PrivateKey :: string
  cc_Address :: string
  cc_DNS :: string
  cc_ServerPubKey :: string
  cc_Endpoint :: string
  cc_AllowedIPs :: string

record ServerStatus =
  ss_Running :: bool
  ss_PublicKey :: string
  ss_Endpoint :: string
  ss_Port :: int
  ss_Subnet :: string
  ss_PeerCount :: int

text \<open>\<open>Wrap p e\<close> is \<^verbatim>\<open>fmt.Errorf("p: %w", e)\<close>, \<open>Cmd p out e\<close> is \<^verbatim>\<open>fmt.Errorf("p: %s: %w", out, e)\<close>.\<close>

datatype wg_err =
    Wrap string wg_err
  | Cmd string string string
  | OsFailed os_err
  | Store peers_err
  | Msg string
  | NoPeer string
  | PeerExists string

definition wgInterface :: string where
  "wgInterface = ''wg-server''"

definition NewWgServer :: "config \<Rightarrow> wgserver" where
  "NewWgServer cfg =
     \<lparr>sv_cfg = cfg, sv_privateKey = [], sv_publicKey = [], sv_running = False,
      sv_peers = NewPeerStore (path_join ''/etc/wg-proxy'' ''peers.json''),
      sv_configDir = ''/etc/wg-proxy''\<rparr>"

section \<open>Sequencing\<close>

text \<open>Go's \<^verbatim>\<open>if err != nil { return err }\<close> with the state reached so far.\<close>

fun on_ok :: "('e, 'a) res \<times> 's \<Rightarrow> ('a \<Rightarrow> 's \<Rightarrow> ('e, 'b) res \<times> 's) \<Rightarrow> ('e, 'b) res \<times> 's" where
  "on_ok (Ok x, s) f = f x s"
| "on_ok (Err e, s) f = (Err e, s)"
| "on_ok (Panic p, s) f = (Panic p, s)"

fun map_err :: "('e \<Rightarrow> 'f) \<Rightarrow> ('e, 'a) res \<times> 's \<Rightarrow> ('f, 'a) res \<times> 's" where
  "map_err h (Ok x, s) = (Ok x, s)"
| "map_err h (Err e, s) = (Err (h e), s)"
| "map_err h (Panic p, s) = (Panic p, s)"

definition run_cmd :: "wg_env \<Rightarrow> world \<Rightarrow> string list \<Rightarrow> (string \<times> string option) \<times> world" where
  "run_cmd E w argv = exec (we_os E) w argv []"

text \<open>A command whose failure is an error with its output.\<close>

definition must_cmd :: "wg_env \<Rightarrow> string \<Rightarrow> string list \<Rightarrow> world \<Rightarrow> (wg_err, unit) res \<times> world" where
  "must_cmd E what argv w =
     (case run_cmd E w argv of
        ((out, None), w1) \<Rightarrow> (Ok (), w1)
      | ((out, Some e), w1) \<Rightarrow> (Err (Cmd what out e), w1))"

definition os_step :: "os_err option \<times> world \<Rightarrow> (wg_err, unit) res \<times> world" where
  "os_step r = (case r of (None, w) \<Rightarrow> (Ok (), w) | (Some e, w) \<Rightarrow> (Err (OsFailed e), w))"

section \<open>Keys\<close>

text \<open>\<^verbatim>\<open>base64.StdEncoding\<close>.\<close>

definition b64_alphabet :: string where
  "b64_alphabet = ''ABCDEFGHIJKLMNOPQRSTUVWXYZabcdefghijklmnopqrstuvwxyz0123456789+/''"

definition b64_char :: "nat \<Rightarrow> char" where
  "b64_char n = b64_alphabet ! n"

fun b64_encode :: "byte list \<Rightarrow> string" where
  "b64_encode [] = []"
| "b64_encode [a] =
     [b64_char (unat a div 4), b64_char (unat a mod 4 * 16), CHR ''='', CHR ''='']"
| "b64_encode [a, b] =
     [b64_char (unat a div 4), b64_char (unat a mod 4 * 16 + unat b div 16),
      b64_char (unat b mod 16 * 4), CHR ''='']"
| "b64_encode (a # b # c # r) =
     [b64_char (unat a div 4), b64_char (unat a mod 4 * 16 + unat b div 16),
      b64_char (unat b mod 16 * 4 + unat c div 64), b64_char (unat c mod 64)] @ b64_encode r"

definition clamp :: "byte list \<Rightarrow> byte list" where
  "clamp key =
     (let k1 = key[0 := key ! 0 AND 248];
          k2 = k1[31 := k1 ! 31 AND 127]
      in k2[31 := k2 ! 31 OR 64])"

definition derivePublicKey :: "wg_env \<Rightarrow> string \<Rightarrow> world \<Rightarrow> (wg_err, string) res \<times> world" where
  "derivePublicKey E privateKey w =
     (case exec (we_os E) w [''wg'', ''pubkey''] privateKey of
        ((out, Some e), w1) \<Rightarrow> (Err (Wrap ''deriving public key'' (Msg e)), w1)
      | ((out, None), w1) \<Rightarrow> (Ok (trim_space out), w1))"

text \<open>\<^verbatim>\<open>rand.Read\<close> fills the 32 bytes from the stream of random bytes.\<close>

definition rand_key :: "wg_env \<Rightarrow> world \<Rightarrow> (wg_err, byte list) res \<times> world" where
  "rand_key E w =
     (case entropy (we_os E) (tick w) of
        Inl e \<Rightarrow> (Err (Wrap ''generating random bytes'' (Msg e)), tock w)
      | Inr bs \<Rightarrow> (Ok (take 32 (bs @ replicate 32 0)), tock w))"

definition generateKeyPair :: "wg_env \<Rightarrow> world \<Rightarrow> (wg_err, string \<times> string) res \<times> world" where
  "generateKeyPair E w =
     on_ok (rand_key E w) (\<lambda>key w1.
       let privKey = b64_encode (clamp key) in
       on_ok (derivePublicKey E privKey w1) (\<lambda>pubKey w2. (Ok (privKey, pubKey), w2)))"

definition nl :: string where
  "nl = [CHR 0x0A]"

text \<open>The keys are set in the server even where writing them to their files then fails.\<close>

definition loadOrGenerateKeys :: "wg_env \<Rightarrow> wgserver \<times> world \<Rightarrow> (wg_err, unit) res \<times> wgserver \<times> world" where
  "loadOrGenerateKeys E sw =
     (case sw of (s, w) \<Rightarrow>
       let keyPath = path_join (sv_configDir s) ''server.key'';
           pubPath = path_join (sv_configDir s) ''server.pub''
       in case read_file (we_os E) w keyPath of
            (Ok privData, w1) \<Rightarrow>
              (let s1 = s\<lparr>sv_privateKey := trim_space privData\<rparr> in
               case read_file (we_os E) w1 pubPath of
                 (Ok pubData, w2) \<Rightarrow> (Ok (), s1\<lparr>sv_publicKey := trim_space pubData\<rparr>, w2)
               | (_, w2) \<Rightarrow>
                   (case derivePublicKey E (sv_privateKey s1) w2 of
                      (Ok pub, w3) \<Rightarrow>
                        (case os_step (write_file (we_os E) w3 pubPath (pub @ nl)) of
                           (r, w4) \<Rightarrow> (r, s1\<lparr>sv_publicKey := pub\<rparr>, w4))
                    | (Err e, w3) \<Rightarrow> (Err e, s1, w3)
                    | (Panic p, w3) \<Rightarrow> (Panic p, s1, w3)))
          | (_, w1) \<Rightarrow>
              (case generateKeyPair E w1 of
                 (Ok (priv, pub), w2) \<Rightarrow>
                   (case on_ok (os_step (write_file (we_os E) w2 keyPath (priv @ nl)))
                           (\<lambda>_ w3. os_step (write_file (we_os E) w3 pubPath (pub @ nl))) of
                      (r, w4) \<Rightarrow> (r, s\<lparr>sv_privateKey := priv, sv_publicKey := pub\<rparr>, w4))
               | (Err e, w2) \<Rightarrow> (Err e, s, w2)
               | (Panic p, w2) \<Rightarrow> (Panic p, s, w2)))"

section \<open>Addresses\<close>

definition with_last :: "ip \<Rightarrow> byte \<Rightarrow> ip" where
  "with_last a b = a[length a - 1 := b]"

definition getServerIP :: "config \<Rightarrow> string" where
  "getServerIP cfg =
     (case ParseCIDR (c_WGServerSubnet cfg) of
        None \<Rightarrow> ''10.100.0.1''
      | Some n \<Rightarrow> ip_String (with_last (n_IP n) 1))"

definition parsing_subnet :: "config \<Rightarrow> wg_err" where
  "parsing_subnet cfg =
     Wrap ''parsing subnet'' (Msg (''invalid CIDR address: '' @ c_WGServerSubnet cfg))"

definition used_ips :: "config \<Rightarrow> Peer list \<Rightarrow> string list" where
  "used_ips cfg peers = getServerIP cfg # map (\<lambda>p. hd (split_on (CHR ''/'') (p_AllowedIP p))) peers"

definition candidate :: "ipnet \<Rightarrow> nat \<Rightarrow> ip" where
  "candidate n i = with_last (n_IP n) (of_nat i)"

text \<open>The loop \<^verbatim>\<open>for i := 2; i < 254; i++\<close>.\<close>

definition host_octets :: "nat list" where
  "host_octets = [2..<254]"

definition allocateIP :: "wgserver \<Rightarrow> (wg_err, string) res" where
  "allocateIP s =
     (case ParseCIDR (c_WGServerSubnet (sv_cfg s)) of
        None \<Rightarrow> Err (parsing_subnet (sv_cfg s))
      | Some n \<Rightarrow>
          bind_res (ps_List (sv_peers s)) (\<lambda>peers.
            case find (\<lambda>i. Contains n (candidate n i) \<and>
                           ip_String (candidate n i) \<notin> set (used_ips (sv_cfg s) peers)) host_octets of
              Some i \<Rightarrow> Ok (ip_String (candidate n i))
            | None \<Rightarrow> Err (Msg (''no available IPs in subnet '' @ c_WGServerSubnet (sv_cfg s)))))"

fun dev_field :: "string list \<Rightarrow> string option" where
  "dev_field (f # g # r) = (if f = ''dev'' then Some g else dev_field (g # r))"
| "dev_field _ = None"

definition getDefaultInterface :: "wg_env \<Rightarrow> world \<Rightarrow> string \<times> world" where
  "getDefaultInterface E w =
     (case run_cmd E w [''ip'', ''route'', ''show'', ''default''] of
        ((out, Some e), w1) \<Rightarrow> (''eth0'', w1)
      | ((out, None), w1) \<Rightarrow>
          (case dev_field (Go_Strings.fields out) of None \<Rightarrow> (''eth0'', w1) | Some d \<Rightarrow> (d, w1)))"

definition detectPublicIP :: "wg_env \<Rightarrow> world \<Rightarrow> string \<times> world" where
  "detectPublicIP E w =
     (case getDefaultInterface E w of (iface, w1) \<Rightarrow>
        ((case we_addrs E (tick w1) iface of
            None \<Rightarrow> []
          | Some addrs \<Rightarrow>
              (case find (\<lambda>a. \<not> IsLoopback a \<and> to4 a \<noteq> None) (List.map_filter id addrs) of
                 None \<Rightarrow> []
               | Some a \<Rightarrow> ip_String a)), w1))"

section \<open>Interface and packet filter\<close>

definition addPeerToInterface :: "wg_env \<Rightarrow> Peer \<Rightarrow> world \<Rightarrow> (wg_err, unit) res \<times> world" where
  "addPeerToInterface E p w =
     must_cmd E ''wg set peer''
       [''wg'', ''set'', wgInterface, ''peer'', p_PublicKey p, ''allowed-ips'', p_AllowedIP p] w"

definition removePeerFromInterface :: "wg_env \<Rightarrow> string \<Rightarrow> world \<Rightarrow> (wg_err, unit) res \<times> world" where
  "removePeerFromInterface E pubKey w =
     must_cmd E ''wg remove peer'' [''wg'', ''set'', wgInterface, ''peer'', pubKey, ''remove''] w"

definition del_link :: "string list" where
  "del_link = [''ip'', ''link'', ''del'', wgInterface]"

definition file_exists :: string where
  "file_exists = ''RTNETLINK answers: File exists''"

text \<open>What \<open>setupInterface\<close> does once the key is in the temporary file.\<close>

definition configure :: "wg_env \<Rightarrow> config \<Rightarrow> string \<Rightarrow> world \<Rightarrow> (wg_err, unit) res \<times> world" where
  "configure E cfg keyFile w =
     on_ok (must_cmd E ''configuring interface''
              [''wg'', ''set'', wgInterface, ''listen-port'', show_int (c_WGServerPort cfg),
               ''private-key'', keyFile] w) (\<lambda>_ w1.
       case ParseCIDR (c_WGServerSubnet cfg) of
         None \<Rightarrow> (Err (parsing_subnet cfg), w1)
       | Some n \<Rightarrow>
           (let addr = getServerIP cfg @ ''/'' @ show_nat (mask_size (n_Mask n)) in
            case run_cmd E w1 [''ip'', ''addr'', ''add'', addr, ''dev'', wgInterface] of
              ((out, e), w2) \<Rightarrow>
                if e \<noteq> None \<and> \<not> contains out file_exists
                then (Err (Cmd ''assigning address'' out (the e)), w2)
                else must_cmd E ''bringing up interface'' [''ip'', ''link'', ''set'', wgInterface, ''up''] w2))"

definition setupInterface :: "wg_env \<Rightarrow> config \<Rightarrow> string \<Rightarrow> world \<Rightarrow> (wg_err, unit) res \<times> world" where
  "setupInterface E cfg key w =
     on_ok (must_cmd E ''creating interface'' [''ip'', ''link'', ''add'', wgInterface, ''type'', ''wireguard'']
              (snd (run_cmd E w del_link))) (\<lambda>_ w1.
       case create_temp (we_os E) w1 ''wg-server-key-*'' of
         (Err e, w2) \<Rightarrow> (Err (Wrap ''creating temp key file'' (OsFailed e)), w2)
       | (Panic p, w2) \<Rightarrow> (Panic p, w2)
       | (Ok keyFile, w2) \<Rightarrow>
           (let w3 = snd (write_file (we_os E) w2 keyFile key);
                rw = configure E cfg keyFile w3
            in (fst rw, snd (remove_file (we_os E) (snd rw) keyFile))))"

definition teardownInterface :: "wg_env \<Rightarrow> world \<Rightarrow> world" where
  "teardownInterface E w = snd (run_cmd E w del_link)"

text \<open>The three rules, as the arguments that follow \<^verbatim>\<open>-A\<close> and \<^verbatim>\<open>-D\<close>.\<close>

definition masquerade_rule :: "string \<Rightarrow> string \<Rightarrow> string list" where
  "masquerade_rule subnet iface =
     [''POSTROUTING'', ''-s'', subnet, ''-o'', iface, ''-j'', ''MASQUERADE'']"

definition forward_in :: "string list" where
  "forward_in = [''FORWARD'', ''-i'', wgInterface, ''-j'', ''ACCEPT'']"

definition forward_out :: "string list" where
  "forward_out = [''FORWARD'', ''-o'', wgInterface, ''-m'', ''state'', ''--state'',
                  ''RELATED,ESTABLISHED'', ''-j'', ''ACCEPT'']"

definition setupNAT :: "wg_env \<Rightarrow> config \<Rightarrow> world \<Rightarrow> (wg_err, unit) res \<times> world" where
  "setupNAT E cfg w =
     on_ok (map_err (Wrap ''enabling ip_forward'')
              (os_step (write_file (we_os E) w ''/proc/sys/net/ipv4/ip_forward'' ''1''))) (\<lambda>_ w1.
       case getDefaultInterface E w1 of (iface, w2) \<Rightarrow>
       on_ok (must_cmd E ''adding MASQUERADE rule''
                ([''iptables'', ''-t'', ''nat'', ''-A''] @ masquerade_rule (c_WGServerSubnet cfg) iface) w2) (\<lambda>_ w3.
       on_ok (must_cmd E ''adding FORWARD accept in'' ([''iptables'', ''-A''] @ forward_in) w3) (\<lambda>_ w4.
       must_cmd E ''adding FORWARD accept out'' ([''iptables'', ''-A''] @ forward_out) w4)))"

definition teardownNAT :: "wg_env \<Rightarrow> config \<Rightarrow> world \<Rightarrow> world" where
  "teardownNAT E cfg w =
     (case getDefaultInterface E w of (iface, w1) \<Rightarrow>
        let w2 = snd (run_cmd E w1 ([''iptables'', ''-t'', ''nat'', ''-D'']
                        @ masquerade_rule (c_WGServerSubnet cfg) iface));
            w3 = snd (run_cmd E w2 ([''iptables'', ''-D''] @ forward_in))
        in snd (run_cmd E w3 ([''iptables'', ''-D''] @ forward_out)))"

section \<open>Starting and stopping\<close>

definition mkdir_all :: "wg_env \<Rightarrow> string \<Rightarrow> world \<Rightarrow> (wg_err, unit) res \<times> world" where
  "mkdir_all E d w =
     (case we_mkdir E (tick w) d of
        Some e \<Rightarrow> (Err (Wrap ''creating config dir'' (Msg e)), tock w)
      | None \<Rightarrow> (Ok (), tock (w\<lparr>dirs := List.insert (path_clean d) (dirs w)\<rparr>)))"

text \<open>The peers are added one by one; a failure is only logged.\<close>

definition add_each :: "wg_env \<Rightarrow> Peer list \<Rightarrow> world \<Rightarrow> world" where
  "add_each E peers w = foldl (\<lambda>w p. snd (addPeerToInterface E p w)) w peers"

text \<open>The last statement prints the first eight bytes of the public key.\<close>

definition wg_Start :: "wg_env \<Rightarrow> wgserver \<times> world \<Rightarrow> (wg_err, unit) res \<times> wgserver \<times> world" where
  "wg_Start E sw =
     (case sw of (s, w) \<Rightarrow>
      if sv_running s then (Ok (), s, w)
      else (case mkdir_all E (sv_configDir s) w of
          (Err e, w1) \<Rightarrow> (Err e, s, w1)
        | (Panic p, w1) \<Rightarrow> (Panic p, s, w1)
        | (Ok _, w1) \<Rightarrow>
            on_ok (map_err (Wrap ''loading keys'') (loadOrGenerateKeys E (s, w1))) (\<lambda>_ (s1, w2).
            case ps_Load (we_os E) w2 (sv_peers s1) of
              ((_, ps), w3) \<Rightarrow>
                (let s2 = s1\<lparr>sv_peers := ps\<rparr> in
                 case map_err (Wrap ''setting up interface'')
                        (setupInterface E (sv_cfg s2) (sv_privateKey s2) w3) of
                   (Err e, w4) \<Rightarrow> (Err e, s2, w4)
                 | (Panic p, w4) \<Rightarrow> (Panic p, s2, w4)
                 | (Ok _, w4) \<Rightarrow>
                     (case ps_List ps of
                        Panic p \<Rightarrow> (Panic p, s2, w4)
                      | Err e \<Rightarrow> (Err e, s2, w4)
                      | Ok peers \<Rightarrow>
                          (case setupNAT E (sv_cfg s2) (add_each E peers w4) of
                             (Err e, w5) \<Rightarrow> (Err (Wrap ''setting up NAT'' e), s2, teardownInterface E w5)
                           | (Panic p, w5) \<Rightarrow> (Panic p, s2, w5)
                           | (Ok _, w5) \<Rightarrow>
                               (let s3 = s2\<lparr>sv_running := True\<rparr> in
                                if length (sv_publicKey s3) < 8
                                then (Panic ''slice bounds out of range'', s3, w5)
                                else (Ok (), s3, w5))))))))"

definition wg_Stop :: "wg_env \<Rightarrow> wgserver \<times> world \<Rightarrow> wgserver \<times> world" where
  "wg_Stop E sw =
     (case sw of (s, w) \<Rightarrow>
      if \<not> sv_running s then (s, w)
      else (s\<lparr>sv_running := False\<rparr>, teardownInterface E (teardownNAT E (sv_cfg s) w)))"

definition PublicKey :: "wgserver \<Rightarrow> string" where
  "PublicKey s = sv_publicKey s"

definition IsRunning :: "wgserver \<Rightarrow> bool" where
  "IsRunning s = sv_running s"

section \<open>Peers\<close>

text \<open>The configured address, else the detected one.\<close>

definition endpoint_host :: "wg_env \<Rightarrow> config \<Rightarrow> world \<Rightarrow> string \<times> world" where
  "endpoint_host E cfg w =
     (if c_WGServerAddr cfg = [] then detectPublicIP E w else (c_WGServerAddr cfg, w))"

definition client_endpoint :: "wg_env \<Rightarrow> config \<Rightarrow> world \<Rightarrow> string \<times> world" where
  "client_endpoint E cfg w =
     (case endpoint_host E cfg w of (h, w1) \<Rightarrow>
        ((if h = [] then ''YOUR_SERVER_IP'' else h) @ '':'' @ show_int (c_WGServerPort cfg), w1))"

definition client_config :: "wgserver \<Rightarrow> string \<Rightarrow> string \<Rightarrow> string \<Rightarrow> string \<Rightarrow> ClientConfig" where
  "client_config s name priv addr endpoint =
     \<lparr>cc_Name = name, cc_PrivateKey = priv, cc_Address = addr, cc_DNS = c_WGServerDNS (sv_cfg s),
      cc_ServerPubKey = sv_publicKey s, cc_Endpoint = endpoint, cc_AllowedIPs = ''0.0.0.0/0, ::/0''\<rparr>"

definition new_peer :: "string \<Rightarrow> string \<Rightarrow> string \<Rightarrow> string \<Rightarrow> Peer" where
  "new_peer name pub priv addr =
     \<lparr>p_Name = name, p_PublicKey = pub, p_PrivateKey = priv, p_AllowedIP = addr, p_CreatedAt = zero_time\<rparr>"

definition AddPeer ::
    "wg_env \<Rightarrow> string \<Rightarrow> wgserver \<times> world \<Rightarrow> (wg_err, ClientConfig) res \<times> wgserver \<times> world" where
  "AddPeer E name sw =
     (case sw of (s, w) \<Rightarrow>
      if \<not> sv_running s then (Err (Msg ''wg server not running''), s, w)
      else (case ps_Get (sv_peers s) name of
          Err e \<Rightarrow> (Err e, s, w)
        | Panic p \<Rightarrow> (Panic p, s, w)
        | Ok (Some _) \<Rightarrow> (Err (PeerExists name), s, w)
        | Ok None \<Rightarrow>
           (case map_err (Wrap ''generating keypair'') (generateKeyPair E w) of
              (Err e, w1) \<Rightarrow> (Err e, s, w1)
            | (Panic p, w1) \<Rightarrow> (Panic p, s, w1)
            | (Ok (privKey, pubKey), w1) \<Rightarrow>
               (case allocateIP s of
                  Err e \<Rightarrow> (Err (Wrap ''allocating IP'' e), s, w1)
                | Panic p \<Rightarrow> (Panic p, s, w1)
                | Ok addr \<Rightarrow>
                   (let peer = new_peer name pubKey privKey (addr @ ''/32'') in
                    case map_err (Wrap ''adding peer to interface'') (addPeerToInterface E peer w1) of
                      (Err e, w2) \<Rightarrow> (Err e, s, w2)
                    | (Panic p, w2) \<Rightarrow> (Panic p, s, w2)
                    | (Ok _, w2) \<Rightarrow>
                       (case ps_Add (we_os E) (tock w2) (we_time E (tick w2)) (sv_peers s) peer of
                          ((Err e, ps), w3) \<Rightarrow>
                            (Err (Wrap ''saving peer'' (Store e)), s\<lparr>sv_peers := ps\<rparr>,
                             snd (removePeerFromInterface E pubKey w3))
                        | ((Panic p, ps), w3) \<Rightarrow> (Panic p, s\<lparr>sv_peers := ps\<rparr>, w3)
                        | ((Ok _, ps), w3) \<Rightarrow>
                           (case client_endpoint E (sv_cfg s) w3 of (ep, w4) \<Rightarrow>
                              (Ok (client_config s name privKey (addr @ ''/32'') ep),
                               s\<lparr>sv_peers := ps\<rparr>, w4))))))))"

definition RemovePeer ::
    "wg_env \<Rightarrow> string \<Rightarrow> wgserver \<times> world \<Rightarrow> (wg_err, unit) res \<times> wgserver \<times> world" where
  "RemovePeer E name sw =
     (case sw of (s, w) \<Rightarrow>
      if \<not> sv_running s then (Err (Msg ''wg server not running''), s, w)
      else (case ps_Get (sv_peers s) name of
          Err e \<Rightarrow> (Err e, s, w)
        | Panic p \<Rightarrow> (Panic p, s, w)
        | Ok None \<Rightarrow> (Err (NoPeer name), s, w)
        | Ok (Some peer) \<Rightarrow>
           (let w1 = snd (removePeerFromInterface E (p_PublicKey peer) w) in
            case ps_Remove (we_os E) w1 (sv_peers s) name of
              ((Ok _, ps), w2) \<Rightarrow> (Ok (), s\<lparr>sv_peers := ps\<rparr>, w2)
            | ((Err e, ps), w2) \<Rightarrow> (Err (Wrap ''removing peer from store'' (Store e)), s\<lparr>sv_peers := ps\<rparr>, w2)
            | ((Panic p, ps), w2) \<Rightarrow> (Panic p, s\<lparr>sv_peers := ps\<rparr>, w2))))"

definition ListPeers :: "wgserver \<Rightarrow> (wg_err, Peer list) res" where
  "ListPeers s = ps_List (sv_peers s)"

definition GetPeer :: "wgserver \<Rightarrow> string \<Rightarrow> (wg_err, Peer option) res" where
  "GetPeer s name = ps_Get (sv_peers s) name"

definition GetClientConfig ::
    "wg_env \<Rightarrow> wgserver \<Rightarrow> string \<Rightarrow> world \<Rightarrow> (wg_err, ClientConfig) res \<times> world" where
  "GetClientConfig E s name w =
     (case ps_Get (sv_peers s) name of
        Err e \<Rightarrow> (Err e, w)
      | Panic p \<Rightarrow> (Panic p, w)
      | Ok None \<Rightarrow> (Err (NoPeer name), w)
      | Ok (Some peer) \<Rightarrow>
          (case client_endpoint E (sv_cfg s) w of (ep, w1) \<Rightarrow>
             (Ok (client_config s name (p_PrivateKey peer) (p_AllowedIP peer) ep), w1)))"

definition wg_Status :: "wg_env \<Rightarrow> wgserver \<Rightarrow> world \<Rightarrow> (wg_err, ServerStatus) res \<times> world" where
  "wg_Status E s w =
     (case endpoint_host E (sv_cfg s) w of (h, w1) \<Rightarrow>
        (bind_res (ps_List (sv_peers s)) (\<lambda>peers.
           Ok \<lparr>ss_Running = sv_running s, ss_PublicKey = sv_publicKey s, ss_Endpoint = h,
               ss_Port = c_WGServerPort (sv_cfg s), ss_Subnet = c_WGServerSubnet (sv_cfg s),
               ss_PeerCount = int (length peers)\<rparr>), w1))"

definition ToINI :: "ClientConfig \<Rightarrow> string" where
  "ToINI c =
     ''[Interface]'' @ nl @
     ''PrivateKey = '' @ cc_PrivateKey c @ nl @
     ''Address = '' @ cc_Address c @ nl @
     ''DNS = '' @ cc_DNS c @ nl @ nl @
     ''[Peer]'' @ nl @
     ''PublicKey = '' @ cc_ServerPubKey c @ nl @
     ''Endpoint = '' @ cc_Endpoint c @ nl @
     ''AllowedIPs = '' @ cc_AllowedIPs c @ nl @
     ''PersistentKeepalive = 25'' @ nl"

end
