(* ===== verification/WgServer_Props.thy ===== *)
theory WgServer_Props
  imports WgServer
begin

text \<open>
  The VPN server's peers: what an operation does to them, that names and addresses are never shared,
  and that any sequence of operations behaves like a map from names to peers.
\<close>

section \<open>Sequencing\<close>

lemma on_ok_Ok_iff [res_simps]: "on_ok m f = (Ok y, s) \<longleftrightarrow> (\<exists>x s1. m = (Ok x, s1) \<and> f x s1 = (Ok y, s))"
  by (cases "(m, f)" rule: on_ok.cases) auto

lemma on_ok_Err_iff [res_simps]:
  "on_ok m f = (Err e, s) \<longleftrightarrow> m = (Err e, s) \<or> (\<exists>x s1. m = (Ok x, s1) \<and> f x s1 = (Err e, s))"
  by (cases "(m, f)" rule: on_ok.cases) auto

lemma on_ok_Panic_iff [res_simps]:
  "on_ok m f = (Panic p, s) \<longleftrightarrow> m = (Panic p, s) \<or> (\<exists>x s1. m = (Ok x, s1) \<and> f x s1 = (Panic p, s))"
  by (cases "(m, f)" rule: on_ok.cases) auto

lemma map_err_Ok_iff [res_simps]: "map_err h m = (Ok x, s) \<longleftrightarrow> m = (Ok x, s)"
  by (cases "(h, m)" rule: map_err.cases) auto

lemma map_err_Err_iff [res_simps]: "map_err h m = (Err e, s) \<longleftrightarrow> (\<exists>d. m = (Err d, s) \<and> e = h d)"
  by (cases "(h, m)" rule: map_err.cases) auto

lemma map_err_Panic_iff [res_simps]: "map_err h m = (Panic p, s) \<longleftrightarrow> m = (Panic p, s)"
  by (cases "(h, m)" rule: map_err.cases) auto

text \<open>Commands change the trace only.\<close>

lemma files_run_cmd [simp]: "files (snd (run_cmd E w a)) = files w"
  by (simp add: run_cmd_def exec_def)

lemma run_cmd_trace: "run_cmd E w a = (r, w1) \<Longrightarrow> trace w1 = trace w @ [Exec a []] \<and> files w1 = files w"
  by (auto simp: run_cmd_def exec_def)

lemma must_cmd_world:
  "must_cmd E what a w = (r, w1) \<Longrightarrow> trace w1 = trace w @ [Exec a []] \<and> files w1 = files w"
  by (auto simp: must_cmd_def dest: run_cmd_trace split: prod.splits option.splits)

lemma must_cmd_no_panic: "must_cmd E what a w \<noteq> (Panic p, w1)"
  by (auto simp: must_cmd_def split: prod.splits option.splits)

lemma default_iface_files: "getDefaultInterface E w = (i, w1) \<Longrightarrow> files w1 = files w"
  by (auto simp: getDefaultInterface_def dest: run_cmd_trace split: prod.splits option.splits)

lemma endpoint_files: "client_endpoint E cfg w = (ep, w1) \<Longrightarrow> files w1 = files w"
  by (auto simp: client_endpoint_def endpoint_host_def detectPublicIP_def dest: default_iface_files
      split: prod.splits if_splits)

lemma ps_Save_no_panic: "ps_Save E w ps \<noteq> (Panic p, w1)"
  by (auto simp: ps_Save_def split: option.splits prod.splits)

lemma ps_Add_no_panic: "fst (fst (ps_Add E w at ps p)) \<noteq> Panic e"
  using ps_Save_no_panic by (auto simp: ps_Add_def Let_def split: prod.splits)

lemma ps_Remove_no_panic: "no_nil ps \<Longrightarrow> ps_Remove E w ps n \<noteq> ((Panic e, ps1), w1)"
  using ps_Save_no_panic
  by (auto simp: ps_Remove_def Let_def no_nil_items find_peer_Some split: prod.splits option.splits)

section \<open>The effect of an operation\<close>

definition peers_of :: "wgserver \<Rightarrow> Peer list" where
  "peers_of s = ps_items (sv_peers s)"

definition peer_addr :: "Peer \<Rightarrow> string" where
  "peer_addr p = hd (split_on (CHR ''/'') (p_AllowedIP p))"

text \<open>
  What \<open>AddPeer\<close> did when it got as far as the store: the new peer, and whether it was saved.
\<close>

definition added ::
    "wg_env \<Rightarrow> string \<Rightarrow> wgserver \<Rightarrow> wgserver \<Rightarrow> string \<Rightarrow> string \<Rightarrow> string \<Rightarrow> world \<Rightarrow> bool" where
  "added E name s s' priv pub addr w \<longleftrightarrow>
     sv_running s \<and> ps_Get (sv_peers s) name = (Ok None :: (wg_err, Peer option) res) \<and>
     allocateIP s = Ok addr \<and>
     s' = s\<lparr>sv_peers := snd (fst (ps_Add (we_os E) (tock w) (we_time E (tick w)) (sv_peers s)
                                   (new_peer name pub priv (addr @ ''/32''))))\<rparr>"

lemma find_peer_no_Err: "find_peer n qs \<noteq> Err e"
  by (induction n qs rule: find_peer.induct) (auto simp: res_simps)

lemma ps_Get_no_Err: "ps_Get ps n \<noteq> Err (e :: wg_err)"
  by (auto simp: ps_Get_def res_simps find_peer_no_Err)

lemma AddPeer_cases:
  assumes "AddPeer E name (s, w) = (r, s', w')"
  obtains (unchanged) "s' = s" "\<And>cc. r \<noteq> Ok cc" "\<And>e. r \<noteq> Err (Wrap ''saving peer'' e)"
  | (stored) priv pub addr wk w2 w3 ep where
      "generateKeyPair E w = (Ok (priv, pub), wk)"
      "addPeerToInterface E (new_peer name pub priv (addr @ ''/32'')) wk = (Ok (), w2)"
      "added E name s s' priv pub addr w2"
      "ps_Add (we_os E) (tock w2) (we_time E (tick w2)) (sv_peers s) (new_peer name pub priv (addr @ ''/32''))
         = ((Ok (), sv_peers s'), w3)"
      "client_endpoint E (sv_cfg s) w3 = (ep, w')"
      "r = Ok (client_config s name priv (addr @ ''/32'') ep)"
  | (unsaved) priv pub addr w2 e where
      "added E name s s' priv pub addr w2" "r = Err (Wrap ''saving peer'' e)"
proof (cases "sv_running s \<and> ps_Get (sv_peers s) name = (Ok None :: (wg_err, Peer option) res)")
  case False
  then show thesis
    using assms unchanged ps_Get_no_Err [of "sv_peers s" name]
    by (auto simp: AddPeer_def split: if_splits res.splits option.splits)
next
  case True
  show thesis
  proof (cases "generateKeyPair E w")
    case key: (Pair rk wk)
    show thesis
    proof (cases "\<exists>priv pub addr w2. rk = Ok (priv, pub) \<and> allocateIP s = Ok addr \<and>
        addPeerToInterface E (new_peer name pub priv (addr @ ''/32'')) wk = (Ok (), w2)")
      case no: False
      show thesis
        using assms True no key unchanged
        by (cases rk; cases "allocateIP s")
           (auto simp: AddPeer_def Let_def split: prod.splits res.splits elim!: map_err.elims)
    next
      case yes: True
      then obtain priv pub addr w2 where k: "rk = Ok (priv, pub)" and a: "allocateIP s = Ok addr"
        and i: "addPeerToInterface E (new_peer name pub priv (addr @ ''/32'')) wk = (Ok (), w2)"
        by blast
      let ?add = "ps_Add (we_os E) (tock w2) (we_time E (tick w2)) (sv_peers s) (new_peer name pub priv (addr @ ''/32''))"
      obtain ra ps1 w3 where add: "?add = ((ra, ps1), w3)" by (metis prod.collapse)
      have ps1: "snd (fst ?add) = ps1" using add by simp
      have ad: "added E name s (s\<lparr>sv_peers := ps1\<rparr>) priv pub addr w2"
        using True a ps1 by (simp add: added_def)
      have "(\<exists>e. ra = Err e) \<or> ra = Ok ()"
        using ps_Add_no_panic [of "we_os E"] add by (cases ra) (auto, metis fst_conv)
      then show thesis
      proof (elim disjE exE)
        assume ok: "ra = Ok ()"
        obtain ep w4 where ep: "client_endpoint E (sv_cfg s) w3 = (ep, w4)"
          by (cases "client_endpoint E (sv_cfg s) w3")
        have eq: "AddPeer E name (s, w) =
            (Ok (client_config s name priv (addr @ ''/32'') ep), s\<lparr>sv_peers := ps1\<rparr>, w4)"
          using True key k a i ep add ok by (simp add: AddPeer_def Let_def)
        from eq assms have res: "r = Ok (client_config s name priv (addr @ ''/32'') ep)"
          "s' = s\<lparr>sv_peers := ps1\<rparr>" "w4 = w'" by simp_all
        have "added E name s s' priv pub addr w2" using ad res(2) by simp
        moreover have "?add = ((Ok (), sv_peers s'), w3)" using add ok res(2) by simp
        moreover have "generateKeyPair E w = (Ok (priv, pub), wk)" using key k by simp
        moreover have "client_endpoint E (sv_cfg s) w3 = (ep, w')" using ep res(3) by simp
        ultimately show thesis using i res(1) by (intro stored)
      next
        fix e assume er: "ra = Err e"
        have "AddPeer E name (s, w) =
            (Err (Wrap ''saving peer'' (Store e)), s\<lparr>sv_peers := ps1\<rparr>,
             snd (removePeerFromInterface E pub w3))"
          using True key k a i add er by (simp add: AddPeer_def Let_def)
        with assms have "r = Err (Wrap ''saving peer'' (Store e))" "s' = s\<lparr>sv_peers := ps1\<rparr>" by simp_all
        then show thesis using ad by (intro unsaved) simp_all
      qed
    qed
  qed
qed


lemma RemovePeer_cases:
  assumes "RemovePeer E name (s, w) = (r, s', w')" and "no_nil (sv_peers s)"
  obtains (unchanged) e where "s' = s" "w' = w" "r = Err e"
      "\<not> sv_running s \<and> e = Msg ''wg server not running'' \<or>
       sv_running s \<and> by_name p_Name (peers_of s) name = None \<and> e = NoPeer name"
  | (removed) p w1 rr where "sv_running s" "by_name p_Name (peers_of s) name = Some p"
      "w1 = snd (removePeerFromInterface E (p_PublicKey p) w)"
      "ps_Remove (we_os E) w1 (sv_peers s) name = ((rr, sv_peers s'), w')"
      "s' = s\<lparr>sv_peers := snd (fst (ps_Remove (we_os E) w1 (sv_peers s) name))\<rparr>"
      "r = Ok () \<and> rr = Ok () \<or> (\<exists>e. rr = Err e \<and> r = Err (Wrap ''removing peer from store'' (Store e)))"
proof (cases "sv_running s \<and> by_name p_Name (peers_of s) name \<noteq> None")
  case False
  show thesis
  proof (rule unchanged)
    show "s' = s" "w' = w" "r = Err (if sv_running s then NoPeer name else Msg ''wg server not running'')"
      "\<not> sv_running s \<and> (if sv_running s then NoPeer name else Msg ''wg server not running'')
          = Msg ''wg server not running'' \<or>
       sv_running s \<and> by_name p_Name (peers_of s) name = None \<and>
         (if sv_running s then NoPeer name else Msg ''wg server not running'') = NoPeer name"
      using assms False
      by (cases "sv_running s"; auto simp: RemovePeer_def ps_Get_items by_name_find peers_of_def)+
  qed
next
  case True
  then obtain p where p: "by_name p_Name (peers_of s) name = Some p" by blast
  let ?w1 = "snd (removePeerFromInterface E (p_PublicKey p) w)"
  obtain rr ps1 w2 where rm: "ps_Remove (we_os E) ?w1 (sv_peers s) name = ((rr, ps1), w2)"
    by (metis prod.collapse)
  have get: "ps_Get (sv_peers s) name = (Ok (Some p) :: (wg_err, Peer option) res)"
    using p assms(2) by (simp add: ps_Get_items by_name_find peers_of_def)
  have ps1: "snd (fst (ps_Remove (we_os E) ?w1 (sv_peers s) name)) = ps1" using rm by simp
  have np: "rr \<noteq> Panic x" for x
    using ps_Remove_no_panic [OF assms(2), of "we_os E" ?w1 name x ps1 w2] rm by blast
  have eq: "s' = s\<lparr>sv_peers := ps1\<rparr>" "w' = w2"
    "r = Ok () \<and> rr = Ok () \<or> (\<exists>e. rr = Err e \<and> r = Err (Wrap ''removing peer from store'' (Store e)))"
    using assms(1) True get rm np by (cases rr; simp add: RemovePeer_def Let_def)+
  have "ps_Remove (we_os E) ?w1 (sv_peers s) name = ((rr, sv_peers s'), w')" using rm eq by simp
  then show thesis using removed [OF _ p refl _ _ eq(3)] True eq(1) ps1 by simp
qed

section \<open>Names and addresses are never shared\<close>

text \<open>\<open>ip_String\<close> prints no slash.\<close>

lemma show_nat_no_slash: "CHR ''/'' \<notin> set (show_nat n)"
  using show_nat_digits by (fastforce simp: is_digit_def)

lemma hex_char_no_slash: "d < 16 \<Longrightarrow> hex_char d \<noteq> CHR ''/''"
proof
  assume "d < 16" and "hex_char d = CHR ''/''"
  then have "(if d < 10 then 48 + d else 87 + d) = 47" using of_char_hex_char [of d] by simp
  then show False by (simp split: if_splits)
qed

lemma show_hex_no_slash: "CHR ''/'' \<notin> set (show_hex n)"
proof (induction n rule: show_hex.induct)
  case (1 n)
  then show ?case
    using hex_char_no_slash [of n] hex_char_no_slash [of "n mod 16"]
    by (auto simp: show_hex.simps [of n])
qed

lemma print6_no_slash: "CHR ''/'' \<notin> set (print6 gs zs ze i)"
proof (induction gs zs ze i rule: print6.induct)
  case (1 gs zs ze i)
  then show ?case using show_hex_no_slash by (simp add: print6.simps [of gs zs ze i])
qed

lemma join_with_set: "c \<in> set (join_with sep xs) \<Longrightarrow> c \<in> set sep \<or> (\<exists>x\<in>set xs. c \<in> set x)"
  by (induction sep xs rule: join_with.induct) auto

lemma ip_String_no_slash: "CHR ''/'' \<notin> set (ip_String a)"
proof -
  have "CHR ''/'' \<notin> set (join_with ''.'' (map show_octet b))" for b
    using join_with_set [of "CHR ''/''" "''.''"] show_nat_no_slash by (fastforce simp: show_octet_def)
  moreover have "CHR ''/'' \<noteq> hex_char (unat b div 16) \<and> CHR ''/'' \<noteq> hex_char (unat b mod 16)" for b :: byte
  proof -
    have "unat b div 16 < 16" using unat_octet [of b] by linarith
    then show ?thesis using hex_char_no_slash [symmetric] by simp
  qed
  ultimately show ?thesis
    using print6_no_slash by (auto simp: ip_String_def split: option.splits prod.splits)
qed

lemma hd_split_addr: "CHR ''/'' \<notin> set a \<Longrightarrow> hd (split_on (CHR ''/'') (a @ ''/32'')) = a"
  using split_on_append [of "CHR ''/''" a "''32''"] by simp

lemma allocateIP_unused:
  assumes "allocateIP s = Ok a" and "no_nil (sv_peers s)"
  shows "a \<notin> peer_addr ` set (peers_of s) \<and> a \<noteq> getServerIP (sv_cfg s) \<and> CHR ''/'' \<notin> set a"
proof -
  obtain n i where a: "a = ip_String (candidate n i)"
    and u: "ip_String (candidate n i) \<notin> set (used_ips (sv_cfg s) (ps_items (sv_peers s)))"
    using assms by (auto simp: allocateIP_def ps_List_items dest: find_SomeD split: option.splits)
  show ?thesis
    using u ip_String_no_slash by (auto simp: a used_ips_def peers_of_def peer_addr_def)
qed

text \<open>The invariant.\<close>

definition wg_inv :: "wgserver \<Rightarrow> bool" where
  "wg_inv s \<longleftrightarrow>
     no_nil (sv_peers s) \<and> distinct (map p_Name (peers_of s)) \<and> distinct (map peer_addr (peers_of s)) \<and>
     getServerIP (sv_cfg s) \<notin> peer_addr ` set (peers_of s)"

lemma added_peers:
  assumes "added E name s s' priv pub addr w" and "no_nil (sv_peers s)"
  shows "peers_of s' = peers_of s @ [(new_peer name pub priv (addr @ ''/32''))\<lparr>p_CreatedAt := we_time E (tick w)\<rparr>]"
    and "by_name p_Name (peers_of s) name = None" and "no_nil (sv_peers s')"
    and "allocateIP s = Ok addr" and "sv_cfg s' = sv_cfg s" and "sv_running s'" and "sv_running s"
  using assms store.insert_last [of "sv_peers s"] store.insert_ok [of "sv_peers s"]
  by (auto simp: added_def peers_of_def by_name_find ps_Get_items)

lemma added_inv:
  assumes "added E name s s' priv pub addr w" and inv: "wg_inv s"
  shows "wg_inv s'"
proof -
  have nn: "no_nil (sv_peers s)" using inv by (simp add: wg_inv_def)
  note ps = added_peers [OF assms(1) nn]
  have addr: "addr \<notin> peer_addr ` set (peers_of s)" "addr \<noteq> getServerIP (sv_cfg s)" "CHR ''/'' \<notin> set addr"
    using allocateIP_unused [OF ps(4) nn] by blast+
  have "peer_addr ((new_peer name pub priv (addr @ ''/32''))\<lparr>p_CreatedAt := t\<rparr>) = addr" for t
    using hd_split_addr [OF addr(3)] by (simp add: peer_addr_def new_peer_def)
  moreover have "name \<notin> p_Name ` set (peers_of s)" using ps(2) by (simp add: by_name_None_iff)
  ultimately show ?thesis
    using inv ps addr by (auto simp: wg_inv_def new_peer_def)
qed

lemma AddPeer_inv:
  assumes "AddPeer E name (s, w) = (r, s', w')" and "wg_inv s"
  shows "wg_inv s'"
  using assms(1) by (cases rule: AddPeer_cases) (use assms(2) added_inv in blast)+

lemma removed_peers:
  assumes "RemovePeer E name (s, w) = (r, s', w')" and "no_nil (sv_peers s)"
  shows "peers_of s' = (if sv_running s then remove_first (\<lambda>p. p_Name p = name) (peers_of s) else peers_of s)
    \<and> no_nil (sv_peers s') \<and> sv_cfg s' = sv_cfg s \<and> sv_running s' = sv_running s"
proof (cases rule: RemovePeer_cases [OF assms, case_names unchanged removed])
  case (unchanged e)
  have "remove_first (\<lambda>p. p_Name p = name) (peers_of s) = peers_of s"
    if "by_name p_Name (peers_of s) name = None"
    using that by (intro remove_first_id) (auto simp: by_name_None_iff)
  then show ?thesis using unchanged assms(2) by auto
next
  case (removed p w1 rr)
  then show ?thesis
    using store.delete_first [OF assms(2)] store.delete_ok [OF assms(2)] by (simp add: peers_of_def)
qed

lemma RemovePeer_inv:
  assumes "RemovePeer E name (s, w) = (r, s', w')" and "wg_inv s"
  shows "wg_inv s'"
  using removed_peers [OF assms(1)] assms(2) set_remove_first_subset [of "\<lambda>p. p_Name p = name" "peers_of s"]
  by (auto simp: wg_inv_def distinct_map_remove_first)

text \<open>Runs of requests to add and to remove peers.\<close>

datatype wg_op = OpAdd string | OpRemove string

fun wg_step :: "wg_env \<Rightarrow> wg_op \<Rightarrow> wgserver \<times> world \<Rightarrow> wg_err option option \<times> wgserver \<times> world" where
  "wg_step E (OpAdd n) sw =
     (case AddPeer E n sw of
        (Ok _, sw1) \<Rightarrow> (Some None, sw1) | (Err e, sw1) \<Rightarrow> (Some (Some e), sw1) | (Panic _, sw1) \<Rightarrow> (None, sw1))"
| "wg_step E (OpRemove n) sw =
     (case RemovePeer E n sw of
        (Ok _, sw1) \<Rightarrow> (Some None, sw1) | (Err e, sw1) \<Rightarrow> (Some (Some e), sw1) | (Panic _, sw1) \<Rightarrow> (None, sw1))"

fun wg_run :: "wg_env \<Rightarrow> wg_op list \<Rightarrow> wgserver \<times> world \<Rightarrow> wgserver \<times> world" where
  "wg_run E [] sw = sw"
| "wg_run E (op # ops) sw = wg_run E ops (snd (wg_step E op sw))"

lemma wg_step_inv:
  assumes "wg_step E op (s, w) = (r, s', w')" and "wg_inv s"
  shows "wg_inv s'"
  using assms AddPeer_inv RemovePeer_inv by (cases op) (auto split: prod.splits res.splits)

text \<open>
  C9. Whatever the environment does, no sequence of requests to add and remove peers makes two peers
  share a name or an address, or gives a peer the server's address.
\<close>

theorem peer_addresses_never_shared:
  assumes "wg_inv s"
  shows "wg_inv (fst (wg_run E ops (s, w)))"
  using assms
proof (induction ops arbitrary: s w)
  case (Cons op ops)
  obtain r s1 w1 where "wg_step E op (s, w) = (r, s1, w1)" by (metis prod.collapse)
  then show ?case using Cons.IH [of s1 w1] wg_step_inv [of E op s w] Cons.prems by simp
qed simp


section \<open>Example data\<close>

definition demo_cfg :: "string \<Rightarrow> config" where
  "demo_cfg subnet =
     \<lparr>c_ConfigDir = ''/c'', c_ProxyAddr = '':1080'', c_AdminAddr = '':8080'', c_BasePort = 10001,
      c_HealthInterval = 0, c_HealthTimeout = 0, c_HealthURL = [], c_ProxyUser = [], c_ProxyPass = [],
      c_CountryPortBase = 1081, c_WGServerEnabled = True, c_WGServerPort = 51820,
      c_WGServerAddr = ''192.0.2.1'', c_WGServerSubnet = subnet, c_WGServerDNS = ''1.1.1.1''\<rparr>"

text \<open>A machine on which nothing fails, \<^verbatim>\<open>wg\<close> prints a key and nothing else prints anything.\<close>

definition demo_env :: wg_env where
  "demo_env =
     \<lparr>we_os = \<lparr>read_fault = (\<lambda>_ _. None), dir_fault = (\<lambda>_ _. None), write_fault = (\<lambda>_ _. None),
         remove_fault = (\<lambda>_ _. None), temp_fault = (\<lambda>_ _. None), temp_rand = (\<lambda>_. ''7''),
         temp_dir = ''/tmp'',
         exec_result = (\<lambda>_ argv _. (if argv = [''wg'', ''pubkey''] then ''clientkey'' else [], None)),
         spawn_result = (\<lambda>n _. Inr n), clock = int, entropy = (\<lambda>_. Inr (replicate 32 255)),
         exits_in_time = (\<lambda>_ _. True), uni_upper = (\<lambda>s. s), uni_print = (\<lambda>_. True)\<rparr>,
      we_mkdir = (\<lambda>_ _. None), we_time = (\<lambda>_. zero_time), we_addrs = (\<lambda>_ _. None)\<rparr>"

definition demo_server :: "string \<Rightarrow> Peer list \<Rightarrow> wgserver" where
  "demo_server subnet peers =
     (NewWgServer (demo_cfg subnet))\<lparr>sv_running := True, sv_publicKey := ''serverkey'',
        sv_peers := (NewPeerStore ''/p'')\<lparr>ps_peers := map Some peers\<rparr>\<rparr>"

definition demo_world :: world where
  "demo_world = \<lparr>files = [], dirs = [], tick = 0, trace = []\<rparr>"

definition demo_peer :: "string \<Rightarrow> string \<Rightarrow> Peer" where
  "demo_peer name addr = new_peer name ''k'' ''s'' addr"

abbreviation demo :: wgserver where
  "demo \<equiv> demo_server ''10.100.0.0/24'' [demo_peer ''a'' ''10.100.0.2/32'']"

lemma demo_inv: "wg_inv demo"
  by code_simp

theorem peer_addresses_never_shared_witness:
  "peers_of demo \<noteq> [] \<and>
   wg_inv (fst (wg_run demo_env [OpAdd ''b'', OpRemove ''a'', OpAdd ''c''] (demo, demo_world)))"
proof -
  have "peers_of demo \<noteq> []" by code_simp
  then show ?thesis using peer_addresses_never_shared [OF demo_inv] by blast
qed

section \<open>A successful request\<close>

lemma ps_Add_Ok_file:
  assumes "ps_Add E w at ps p = ((Ok (), ps'), w')"
  shows "\<exists>v. encode_peers ps' = Some v \<and> file_at w' (ps_filePath ps') = Some (MarshalIndent v)
    \<and> ps_filePath ps' = ps_filePath ps"
proof -
  let ?ps = "ps\<lparr>ps_peers := ps_peers ps @ [Some (p\<lparr>p_CreatedAt := at\<rparr>)], ps_nil := False\<rparr>"
  have sv: "ps_Save E w ?ps = (Ok (), w')" and ps': "ps' = ?ps"
    using assms by (auto simp: ps_Add_def Let_def split: prod.splits)
  then show ?thesis
    by (auto simp: ps_Save_def split: option.splits prod.splits dest: write_file_ok)
qed

lemma ps_Add_trace: "ps_Add E w at ps p = (r, w') \<Longrightarrow> trace w' = trace w"
  by (auto simp: ps_Add_def Let_def ps_Save_def write_file_def split: option.splits prod.splits)

lemma default_iface_trace: "getDefaultInterface E w = (i, w1) \<Longrightarrow>
    trace w1 = trace w @ [Exec [''ip'', ''route'', ''show'', ''default''] []]"
  by (auto simp: getDefaultInterface_def dest: run_cmd_trace split: prod.splits option.splits)

lemma endpoint_trace: "client_endpoint E cfg w = (ep, w1) \<Longrightarrow> \<exists>t. trace w1 = trace w @ t"
  by (auto simp: client_endpoint_def endpoint_host_def detectPublicIP_def dest: default_iface_trace
      split: prod.splits if_splits)

lemma endpoint_configured:
  "c_WGServerAddr cfg \<noteq> [] \<Longrightarrow>
     client_endpoint E cfg w = (c_WGServerAddr cfg @ '':'' @ show_int (c_WGServerPort cfg), w)"
  by (simp add: client_endpoint_def endpoint_host_def)

text \<open>What the store answers for a new peer, and the client configuration made from it.\<close>

lemma AddPeer_config:
  assumes "AddPeer E name (s, w) = (Ok cc, s', w')" and "no_nil (sv_peers s)"
  shows "fst (GetClientConfig E s' name w1) = Ok (cc\<lparr>cc_Endpoint := fst (client_endpoint E (sv_cfg s') w1)\<rparr>)"
    and "sv_cfg s' = sv_cfg s"
    and "c_WGServerAddr (sv_cfg s) \<noteq> [] \<Longrightarrow> fst (GetClientConfig E s' name w1) = Ok cc"
proof -
  have cfg: "fst (GetClientConfig E s' name w2) = Ok (cc\<lparr>cc_Endpoint := fst (client_endpoint E (sv_cfg s') w2)\<rparr>) \<and>
      sv_cfg s' = sv_cfg s \<and> (\<exists>w0. cc_Endpoint cc = fst (client_endpoint E (sv_cfg s) w0))" for w2
    using assms(1)
  proof (cases rule: AddPeer_cases)
    case (stored priv pub addr wk w3 w4 ep)
    note ps = added_peers [OF stored(3) assms(2)]
    let ?p = "(new_peer name pub priv (addr @ ''/32''))\<lparr>p_CreatedAt := we_time E (tick w3)\<rparr>"
    have cc: "cc = client_config s name priv (addr @ ''/32'') ep" using stored by simp
    have s': "s' = s\<lparr>sv_peers := sv_peers s'\<rparr>" using stored(3) by (simp add: added_def)
    have "by_name p_Name (peers_of s') = (by_name p_Name (peers_of s))(name \<mapsto> ?p)"
      using by_name_snoc [of p_Name "peers_of s" ?p] ps(1,2) by (simp add: new_peer_def)
    then have get: "ps_Get (sv_peers s') name = (Ok (Some ?p) :: (wg_err, Peer option) res)"
      using ps_Get_items [OF ps(3), of name] by (simp add: by_name_find [symmetric] peers_of_def fun_upd_def)
    have pk: "sv_publicKey s' = sv_publicKey s" by (subst s') simp
    have "fst (GetClientConfig E s' name w2) = Ok (cc\<lparr>cc_Endpoint := fst (client_endpoint E (sv_cfg s') w2)\<rparr>)"
      using get pk ps(5) by (simp add: GetClientConfig_def cc client_config_def new_peer_def split: prod.split)
    moreover have "cc_Endpoint cc = fst (client_endpoint E (sv_cfg s) w4)"
      using stored(5) by (simp add: cc client_config_def)
    ultimately show ?thesis using ps(5) by blast
  next
    case unchanged
    then show ?thesis by blast
  qed simp
  show "fst (GetClientConfig E s' name w1) = Ok (cc\<lparr>cc_Endpoint := fst (client_endpoint E (sv_cfg s') w1)\<rparr>)"
    and "sv_cfg s' = sv_cfg s" using cfg by blast+
  show "fst (GetClientConfig E s' name w1) = Ok cc" if "c_WGServerAddr (sv_cfg s) \<noteq> []"
  proof -
    have "fst (client_endpoint E (sv_cfg s') w1) = cc_Endpoint cc"
      using cfg [of w1] endpoint_configured [OF that, of E] by auto
    then show ?thesis using cfg [of w1] by simp
  qed
qed

text \<open>
  C23. A successful \<^verbatim>\<open>AddPeer\<close> gave the WireGuard interface the new key and address, stored the peer
  under its name next to the peers that were there, wrote the whole list to the file, and returned
  what \<^verbatim>\<open>GetClientConfig\<close> returns for that name from then on, up to the endpoint when that is
  detected anew.
\<close>

theorem AddPeer_success:
  assumes "AddPeer E name (s, w) = (Ok cc, s', w')" and "wg_inv s"
  shows "\<exists>p v. by_name p_Name (peers_of s) name = None \<and>
      by_name p_Name (peers_of s') = (by_name p_Name (peers_of s))(name \<mapsto> p) \<and>
      p_PrivateKey p = cc_PrivateKey cc \<and> p_AllowedIP p = cc_Address cc \<and>
      Exec [''wg'', ''set'', ''wg-server'', ''peer'', p_PublicKey p, ''allowed-ips'', p_AllowedIP p] []
        \<in> set (trace w') \<and>
      encode_peers (sv_peers s') = Some v \<and>
      file_at w' (ps_filePath (sv_peers s')) = Some (MarshalIndent v) \<and>
      cc_Name cc = name \<and> cc_ServerPubKey cc = sv_publicKey s' \<and>
      (\<forall>w1. fst (GetClientConfig E s' name w1) =
              Ok (cc\<lparr>cc_Endpoint := fst (client_endpoint E (sv_cfg s') w1)\<rparr>)) \<and>
      (c_WGServerAddr (sv_cfg s') \<noteq> [] \<longrightarrow> fst (GetClientConfig E s' name w') = Ok cc)"
  using assms(1)
proof (cases rule: AddPeer_cases)
  case (stored priv pub addr wk w2 w3 ep)
  have nn: "no_nil (sv_peers s)" using assms(2) by (simp add: wg_inv_def)
  note ps = added_peers [OF stored(3) nn]
  let ?p = "(new_peer name pub priv (addr @ ''/32''))\<lparr>p_CreatedAt := we_time E (tick w2)\<rparr>"
  have cc: "cc = client_config s name priv (addr @ ''/32'') ep" using stored by simp
  have s': "s' = s\<lparr>sv_peers := sv_peers s'\<rparr>" using stored(3) by (simp add: added_def)
  have map': "by_name p_Name (peers_of s') = (by_name p_Name (peers_of s))(name \<mapsto> ?p)"
    using by_name_snoc [of p_Name "peers_of s" ?p] ps(1,2) by (simp add: new_peer_def)
  have fw: "files w' = files w3" using endpoint_files [OF stored(5)] .
  obtain v where v: "encode_peers (sv_peers s') = Some v"
    "file_at w3 (ps_filePath (sv_peers s')) = Some (MarshalIndent v)"
    using ps_Add_Ok_file [OF stored(4)] by blast
  have pk: "sv_publicKey s' = sv_publicKey s" by (subst s') simp
  have tr2: "Exec [''wg'', ''set'', ''wg-server'', ''peer'', pub, ''allowed-ips'', addr @ ''/32''] [] \<in> set (trace w2)"
    using must_cmd_world [OF stored(2) [unfolded addPeerToInterface_def]] by (simp add: new_peer_def wgInterface_def)
  have "Exec [''wg'', ''set'', ''wg-server'', ''peer'', pub, ''allowed-ips'', addr @ ''/32''] [] \<in> set (trace w')"
    using tr2 ps_Add_trace [OF stored(4)] endpoint_trace [OF stored(5)] by auto
  then show ?thesis
    using map' ps(2) v fw AddPeer_config [OF assms(1) nn] pk
    by (intro exI [of _ ?p] exI [of _ v]) (simp add: cc client_config_def new_peer_def file_at_def)
next
  case unchanged
  then show ?thesis by blast
qed simp

lemma demo_AddPeer:
  "\<exists>cc s' w'. AddPeer demo_env ''b'' (demo, demo_world) = (Ok cc, s', w')"
proof -
  have run: "sv_running demo" by (simp add: demo_server_def)
  have get: "ps_Get (sv_peers demo) ''b'' = (Ok None :: (wg_err, Peer option) res)" by code_simp
  have al: "allocateIP demo = Ok ''10.100.0.3''" by code_simp
  have key: "\<exists>k w1. generateKeyPair demo_env w = (Ok k, w1)" for w
    by (simp add: generateKeyPair_def rand_key_def derivePublicKey_def demo_env_def exec_def Let_def)
  have cmd: "\<exists>w1. must_cmd demo_env what argv w = (Ok (), w1)" for what argv w
    by (simp add: must_cmd_def run_cmd_def exec_def demo_env_def)
  have add: "\<exists>ps w1. ps_Add (we_os demo_env) w (we_time demo_env k) (sv_peers demo) p = ((Ok (), ps), w1)" for w k p
    by (simp add: ps_Add_def ps_Save_def demo_env_def demo_server_def demo_peer_def NewPeerStore_def
        encode_peers_def encode_peer_def new_peer_def marshal_time_def zero_time_def write_file_def Let_def)
  obtain priv pub w1 where "generateKeyPair demo_env demo_world = (Ok (priv, pub), w1)"
    using key by (metis prod.collapse)
  moreover obtain w2 where "addPeerToInterface demo_env (new_peer ''b'' pub priv (''10.100.0.3'' @ ''/32'')) w1
      = (Ok (), w2)"
    using cmd unfolding addPeerToInterface_def by blast
  moreover obtain ps w3 where "ps_Add (we_os demo_env) (tock w2) (we_time demo_env (tick w2)) (sv_peers demo)
      (new_peer ''b'' pub priv (''10.100.0.3'' @ ''/32'')) = ((Ok (), ps), w3)"
    using add by blast
  moreover obtain ep w4 where "client_endpoint demo_env (sv_cfg demo) w3 = (ep, w4)" by (metis prod.collapse)
  ultimately show ?thesis
    using run get al by (simp add: AddPeer_def Let_def)
qed

theorem AddPeer_success_witness:
  "\<exists>cc s' w'. AddPeer demo_env ''b'' (demo, demo_world) = (Ok cc, s', w') \<and>
     ''b'' \<in> dom (by_name p_Name (peers_of s')) \<and> cc_Name cc = ''b''"
proof -
  obtain cc s' w' where a: "AddPeer demo_env ''b'' (demo, demo_world) = (Ok cc, s', w')"
    using demo_AddPeer by blast
  then show ?thesis using AddPeer_success [OF a demo_inv] by auto
qed

section \<open>Refinement of a map\<close>

text \<open>
  The specification: a partial map from names to peers, the answer to a request and the map after
  it. A request answered with \<open>Unsaved\<close> was carried out, but the file was not written.
\<close>

datatype answer = Done | Rejected | Unsaved

inductive spec_step :: "(string \<Rightarrow> Peer option) \<Rightarrow> wg_op \<Rightarrow> answer \<Rightarrow> (string \<Rightarrow> Peer option) \<Rightarrow> bool" where
  add_done: "m n = None \<Longrightarrow> p_Name p = n \<Longrightarrow> spec_step m (OpAdd n) Done (m(n \<mapsto> p))"
| add_unsaved: "m n = None \<Longrightarrow> p_Name p = n \<Longrightarrow> spec_step m (OpAdd n) Unsaved (m(n \<mapsto> p))"
| add_rejected: "spec_step m (OpAdd n) Rejected m"
| remove_done: "m n = Some p \<Longrightarrow> spec_step m (OpRemove n) Done (m(n := None))"
| remove_unsaved: "m n = Some p \<Longrightarrow> spec_step m (OpRemove n) Unsaved (m(n := None))"
| remove_rejected: "spec_step m (OpRemove n) Rejected m"

inductive_simps spec_add: "spec_step m (OpAdd n) a m'"
inductive_simps spec_remove: "spec_step m (OpRemove n) a m'"

inductive spec_run ::
    "(string \<Rightarrow> Peer option) \<Rightarrow> wg_op list \<Rightarrow> answer list \<Rightarrow> (string \<Rightarrow> Peer option) \<Rightarrow> bool" where
  run_nil: "spec_run m [] [] m"
| run_cons: "spec_step m op a m1 \<Longrightarrow> spec_run m1 ops as m2 \<Longrightarrow> spec_run m (op # ops) (a # as) m2"

text \<open>What a caller of the program can tell from its answer; none for a panic.\<close>

fun answer_of :: "wg_op \<Rightarrow> wg_err option option \<Rightarrow> answer option" where
  "answer_of op None = None"
| "answer_of op (Some None) = Some Done"
| "answer_of op (Some (Some (Wrap s e))) =
     Some (if s = (case op of OpAdd _ \<Rightarrow> ''saving peer'' | OpRemove _ \<Rightarrow> ''removing peer from store'')
           then Unsaved else Rejected)"
| "answer_of op (Some (Some e)) = Some Rejected"

fun wg_answers :: "wg_env \<Rightarrow> wg_op list \<Rightarrow> wgserver \<times> world \<Rightarrow> answer option list" where
  "wg_answers E [] sw = []"
| "wg_answers E (op # ops) sw =
     (case wg_step E op sw of (r, sw1) \<Rightarrow> answer_of op r # wg_answers E ops sw1)"

lemma generateKeyPair_no_panic: "generateKeyPair E w \<noteq> (Panic p, w')"
  by (auto simp: generateKeyPair_def rand_key_def derivePublicKey_def Let_def
      split: sum.splits prod.splits option.splits elim!: on_ok.elims)

lemma allocateIP_no_panic: "no_nil (sv_peers s) \<Longrightarrow> allocateIP s \<noteq> Panic p"
  by (auto simp: allocateIP_def ps_List_items split: option.splits)

lemma AddPeer_no_panic:
  assumes "AddPeer E name (s, w) = (r, s', w')" and "wg_inv s"
  shows "r \<noteq> Panic x"
proof
  assume r: "r = Panic x"
  have nn: "no_nil (sv_peers s)" using assms(2) by (simp add: wg_inv_def)
  then have g: "ps_Get (sv_peers s) name \<noteq> (Panic y :: (wg_err, Peer option) res)" for y
    by (simp add: ps_Get_items)
  show False
    using assms(1) r g generateKeyPair_no_panic allocateIP_no_panic [OF nn] must_cmd_no_panic
      ps_Add_no_panic [of "we_os E"]
    by (auto simp: AddPeer_def Let_def addPeerToInterface_def res_simps
        split: if_splits res.splits option.splits prod.splits)
      (metis fst_conv)+
qed

lemma answer_rejected: "(\<And>d. e \<noteq> Wrap (case op of OpAdd _ \<Rightarrow> ''saving peer'' | OpRemove _ \<Rightarrow> ''removing peer from store'') d)
    \<Longrightarrow> answer_of op (Some (Some e)) = Some Rejected"
  by (cases e) auto

lemma step_refines:
  assumes "wg_step E op (s, w) = (r, s', w')" and inv: "wg_inv s"
  shows "\<exists>a. answer_of op r = Some a \<and> spec_step (by_name p_Name (peers_of s)) op a (by_name p_Name (peers_of s'))"
proof (cases op)
  case (OpAdd n)
  obtain q where q: "AddPeer E n (s, w) = (q, s', w')"
    "r = (case q of Ok _ \<Rightarrow> Some None | Err e \<Rightarrow> Some (Some e) | Panic _ \<Rightarrow> None)"
    using assms(1) OpAdd by (auto split: prod.splits res.splits)
  have nn: "no_nil (sv_peers s)" using inv by (simp add: wg_inv_def)
  have refine: "spec_step (by_name p_Name (peers_of s)) op Done (by_name p_Name (peers_of s')) \<and>
      spec_step (by_name p_Name (peers_of s)) op Unsaved (by_name p_Name (peers_of s'))"
    if "added E n s s' priv pub addr w2" for priv pub addr w2
  proof -
    let ?p = "(new_peer n pub priv (addr @ ''/32''))\<lparr>p_CreatedAt := we_time E (tick w2)\<rparr>"
    have "by_name p_Name (peers_of s') = (by_name p_Name (peers_of s))(n \<mapsto> ?p)"
      using by_name_snoc [of p_Name "peers_of s" ?p] added_peers(1,2) [OF that nn] by (simp add: new_peer_def)
    moreover have "p_Name ?p = n" by (simp add: new_peer_def)
    ultimately show ?thesis using added_peers(2) [OF that nn] OpAdd by (metis add_done add_unsaved)
  qed
  show ?thesis using q(1)
  proof (cases rule: AddPeer_cases)
    case unchanged
    then obtain e where e: "q = Err e" using AddPeer_no_panic [OF q(1) inv] by (cases q) auto
    then have "answer_of op r = Some Rejected"
      using unchanged(3) q(2) OpAdd answer_rejected [of e op] by simp
    then show ?thesis using unchanged(1) OpAdd add_rejected by blast
  next
    case (stored priv pub addr wk w2 w3 ep)
    then show ?thesis using refine [OF stored(3)] q(2) by auto
  next
    case (unsaved priv pub addr w2 e)
    then show ?thesis using refine [OF unsaved(1)] q(2) OpAdd by auto
  qed
next
  case (OpRemove n)
  obtain q where q: "RemovePeer E n (s, w) = (q, s', w')"
    "r = (case q of Ok _ \<Rightarrow> Some None | Err e \<Rightarrow> Some (Some e) | Panic _ \<Rightarrow> None)"
    using assms(1) OpRemove by (auto split: prod.splits res.splits)
  have nn: "no_nil (sv_peers s)" and di: "distinct (map p_Name (peers_of s))"
    using inv by (simp_all add: wg_inv_def)
  show ?thesis
  proof (cases rule: RemovePeer_cases [OF q(1) nn, case_names unchanged removed])
    case (unchanged e)
    then have "answer_of op r = Some Rejected" using q(2) OpRemove by auto
    then show ?thesis using unchanged(1) OpRemove remove_rejected by blast
  next
    case (removed p w1 rr)
    have "by_name p_Name (peers_of s') = (by_name p_Name (peers_of s))(n := None)"
      using removed_peers [OF q(1) nn] by_name_remove [OF di] removed(1) by simp
    then show ?thesis
      using removed(2,6) q(2) OpRemove remove_done [of "by_name p_Name (peers_of s)" n p]
        remove_unsaved [of "by_name p_Name (peers_of s)" n p] by auto
  qed
qed

text \<open>
  C8. For the callers the VPN server's peers are a map: every sequence of requests is answered, none
  panics, and the answers and the final peers are those of a run of the specification, in which a
  request is done, rejected without effect, or done without being written to the file.
\<close>

theorem server_refines_peer_map:
  assumes "wg_inv s"
  shows "\<exists>as. wg_answers E ops (s, w) = map Some as \<and>
    spec_run (by_name p_Name (peers_of s)) ops as (by_name p_Name (peers_of (fst (wg_run E ops (s, w)))))"
  using assms
proof (induction ops arbitrary: s w)
  case Nil
  then show ?case by (simp add: run_nil)
next
  case (Cons op ops)
  obtain r s1 w1 where st: "wg_step E op (s, w) = (r, s1, w1)" by (metis prod.collapse)
  obtain a where a: "answer_of op r = Some a"
    "spec_step (by_name p_Name (peers_of s)) op a (by_name p_Name (peers_of s1))"
    using step_refines [OF st Cons.prems] by blast
  obtain as where "wg_answers E ops (s1, w1) = map Some as"
    "spec_run (by_name p_Name (peers_of s1)) ops as (by_name p_Name (peers_of (fst (wg_run E ops (s1, w1)))))"
    using Cons.IH [OF wg_step_inv [OF st Cons.prems]] by blast
  then show ?case using st a by (intro exI [of _ "a # as"]) (simp add: run_cons)
qed

lemma length_wg_answers: "length (wg_answers E ops sw) = length ops"
  by (induction ops arbitrary: sw) (simp_all split: prod.split)

theorem server_refines_peer_map_witness:
  "\<exists>as. wg_answers demo_env [OpAdd ''a'', OpRemove ''a''] (demo, demo_world) = map Some as \<and> length as = 2"
proof -
  obtain as where "wg_answers demo_env [OpAdd ''a'', OpRemove ''a''] (demo, demo_world) = map Some as"
    using server_refines_peer_map [OF demo_inv] by blast
  moreover from this have "length as = 2"
    using length_wg_answers [of demo_env "[OpAdd ''a'', OpRemove ''a'']" "(demo, demo_world)"] by simp
  ultimately show ?thesis by blast
qed

end
