(* ===== verification/WgServer_Net.thy ===== *)
theory WgServer_Net
  imports WgServer_Props
begin

text \<open>
  The addresses the VPN server hands out, for IPv4 subnets of every prefix length: which one comes
  next, when there is none, and where the server's own address lies.
\<close>

unbundle bit_operations_syntax

section \<open>IPv4 networks\<close>

lemma length_cidr_mask [simp]: "length (cidr_mask n l) = l"
  by (induction n l rule: cidr_mask.induct) auto

lemma map2_and_idem: "length a = length m \<Longrightarrow> map2 (AND) (map2 (AND) a m) m = map2 (AND) a (m :: byte list)"
  by (induction a m rule: list_induct2) (simp_all add: and.assoc)

lemma ParseCIDR_masked:
  assumes "ParseCIDR s = Some n"
  shows "length (n_Mask n) = length (n_IP n) \<and> map2 (AND) (n_IP n) (n_Mask n) = n_IP n"
  using assms
  by (auto simp: ParseCIDR_def Let_def map2_and_idem split: if_splits option.splits)

text \<open>An IPv4 network with its last octet and the last octet of its mask.\<close>

lemma ParseCIDR_four:
  assumes "ParseCIDR s = Some n" and "length (n_IP n) = 4"
  obtains p q r t m0 m1 m2 m3 where "n_IP n = [p, q, r, t]" "n_Mask n = [m0, m1, m2, m3]"
    "p AND m0 = p" "q AND m1 = q" "r AND m2 = r" "t AND m3 = t"
proof -
  have four: "\<exists>w x y z. a = [w, x, y, z]" if "length a = 4" for a :: "byte list"
    using that by (auto simp: numeral_eq_Suc length_Suc_conv)
  obtain p q r t where ip: "n_IP n = [p, q, r, t]" using four [OF assms(2)] by blast
  obtain m0 m1 m2 m3 where m: "n_Mask n = [m0, m1, m2, m3]"
    using four [of "n_Mask n"] ParseCIDR_masked [OF assms(1)] assms(2) by auto
  show thesis using that [OF ip m] ParseCIDR_masked [OF assms(1)] ip m by simp
qed

lemma Contains_last:
  assumes "ParseCIDR s = Some n" and "length (n_IP n) = 4"
  shows "Contains n (with_last (n_IP n) b) \<longleftrightarrow> b AND n_Mask n ! 3 = n_IP n ! 3"
proof (rule ParseCIDR_four [OF assms])
  fix p q r t m0 m1 m2 m3
  assume "n_IP n = [p, q, r, t]" "n_Mask n = [m0, m1, m2, m3]"
    "p AND m0 = p" "q AND m1 = q" "r AND m2 = r" "t AND m3 = t"
  then show ?thesis by (auto simp: Contains_def with_last_def to4_def)
qed

lemma candidate_four:
  "length (n_IP n) = 4 \<Longrightarrow> length (candidate n i) = 4 \<and> candidate n i = take 3 (n_IP n) @ [of_nat i]"
  by (auto simp: candidate_def with_last_def numeral_eq_Suc length_Suc_conv)

lemma candidate_inj:
  assumes "length (n_IP n) = 4" and "i < 256" and "j < 256"
  shows "ip_String (candidate n i) = ip_String (candidate n j) \<longleftrightarrow> i = j"
proof -
  have "unat (of_nat i :: byte) = i" "unat (of_nat j :: byte) = j"
    using assms by (simp_all add: unat_of_nat)
  then have "(of_nat i :: byte) = of_nat j \<longleftrightarrow> i = j" by metis
  then show ?thesis
    using candidate_four [OF assms(1)] ip_String_inj4 [of "candidate n i" "candidate n j"] assms(1) by simp
qed

lemma server_candidate:
  "ParseCIDR (c_WGServerSubnet cfg) = Some n \<Longrightarrow> getServerIP cfg = ip_String (candidate n 1)"
  by (simp add: getServerIP_def candidate_def)

lemma used_iff:
  "a \<in> set (used_ips cfg peers) \<longleftrightarrow> a = getServerIP cfg \<or> a \<in> peer_addr ` set peers"
  by (auto simp: used_ips_def peer_addr_def)

lemma find_upt_Some:
  "find P [a..<b] = Some i \<longleftrightarrow> a \<le> i \<and> i < b \<and> P i \<and> (\<forall>j\<in>{a..<i}. \<not> P j)"
proof
  assume "find P [a..<b] = Some i"
  then obtain k where k: "k < b - a" "P (a + k)" "i = a + k" "\<And>j. j < k \<Longrightarrow> \<not> P (a + j)"
    by (auto simp: find_Some_iff)
  have "\<not> P j" if "j \<in> {a..<i}" for j
  proof -
    have "j - a < k" "a + (j - a) = j" using that k(3) by auto
    then show ?thesis using k(4) by metis
  qed
  then show "a \<le> i \<and> i < b \<and> P i \<and> (\<forall>j\<in>{a..<i}. \<not> P j)" using k by auto
next
  assume "a \<le> i \<and> i < b \<and> P i \<and> (\<forall>j\<in>{a..<i}. \<not> P j)"
  then show "find P [a..<b] = Some i"
    by (auto simp: find_Some_iff intro!: exI [of _ "i - a"])
qed

lemma find_upt_None: "find P [a..<b] = None \<longleftrightarrow> (\<forall>i. a \<le> i \<longrightarrow> i < b \<longrightarrow> \<not> P i)"
  by (auto simp: find_None_iff)

lemma allocateIP_find:
  assumes "ParseCIDR (c_WGServerSubnet (sv_cfg s)) = Some n" and "length (n_IP n) = 4"
    and "no_nil (sv_peers s)"
  shows "allocateIP s =
     (case find (\<lambda>i. of_nat i AND n_Mask n ! 3 = n_IP n ! 3 \<and>
                     ip_String (candidate n i) \<notin> peer_addr ` set (peers_of s)) host_octets of
        Some i \<Rightarrow> Ok (ip_String (candidate n i))
      | None \<Rightarrow> Err (Msg (''no available IPs in subnet '' @ c_WGServerSubnet (sv_cfg s))))"
proof -
  have "find (\<lambda>i. Contains n (candidate n i) \<and>
                  ip_String (candidate n i) \<notin> set (used_ips (sv_cfg s) (peers_of s))) host_octets
      = find (\<lambda>i. of_nat i AND n_Mask n ! 3 = n_IP n ! 3 \<and>
                  ip_String (candidate n i) \<notin> peer_addr ` set (peers_of s)) host_octets"
  proof (rule find_cong [OF refl])
    fix i assume "i \<in> set host_octets"
    then have i: "2 \<le> i" "i < 256" by (auto simp: host_octets_def)
    have "Contains n (candidate n i) \<longleftrightarrow> of_nat i AND n_Mask n ! 3 = n_IP n ! 3"
      using Contains_last [OF assms(1,2)] by (simp add: candidate_def)
    moreover have "ip_String (candidate n i) \<noteq> getServerIP (sv_cfg s)"
      using candidate_inj [OF assms(2) i(2), of 1] i server_candidate [OF assms(1)] by simp
    ultimately show "(Contains n (candidate n i) \<and>
        ip_String (candidate n i) \<notin> set (used_ips (sv_cfg s) (peers_of s))) =
      (of_nat i AND n_Mask n ! 3 = n_IP n ! 3 \<and> ip_String (candidate n i) \<notin> peer_addr ` set (peers_of s))"
      by (simp add: used_iff)
  qed
  then show ?thesis
    using assms by (simp add: allocateIP_def ps_List_items peers_of_def [symmetric])
qed

text \<open>
  C28. In an IPv4 subnet of prefix length 24 or less the new address is the first three octets of the
  subnet with the lowest last octet from 2 to 253 that no peer has; there is none exactly when all
  these 252 addresses are taken, so fewer than 252 peers never exhaust the subnet.
\<close>

theorem allocateIP_lowest_free:
  assumes "ParseCIDR (c_WGServerSubnet (sv_cfg s)) = Some n" and "length (n_IP n) = 4"
    and "n_Mask n ! 3 = 0" and "no_nil (sv_peers s)"
  shows "(allocateIP s = Ok a \<longleftrightarrow>
            (\<exists>i\<in>{2..253}. a = ip_String (take 3 (n_IP n) @ [of_nat i]) \<and>
               a \<notin> peer_addr ` set (peers_of s) \<and>
               (\<forall>j\<in>{2..<i}. ip_String (take 3 (n_IP n) @ [of_nat j]) \<in> peer_addr ` set (peers_of s)))) \<and>
         ((\<exists>e. allocateIP s = Err e) \<longleftrightarrow>
            (\<forall>i\<in>{2..253}. ip_String (take 3 (n_IP n) @ [of_nat i]) \<in> peer_addr ` set (peers_of s))) \<and>
         (length (peers_of s) < 252 \<longrightarrow> (\<exists>b. allocateIP s = Ok b))"
proof -
  let ?A = "\<lambda>i. ip_String (take 3 (n_IP n) @ [of_nat i])"
  let ?used = "peer_addr ` set (peers_of s)"
  have z: "n_IP n ! 3 = 0"
    by (rule ParseCIDR_four [OF assms(1,2)]) (use assms(3) in auto)
  have al: "allocateIP s = (case find (\<lambda>i. ?A i \<notin> ?used) [2..<254] of Some i \<Rightarrow> Ok (?A i)
      | None \<Rightarrow> Err (Msg (''no available IPs in subnet '' @ c_WGServerSubnet (sv_cfg s))))"
    using allocateIP_find [OF assms(1,2,4)] assms(3) z candidate_four [OF assms(2)]
    by (simp add: host_octets_def del: upt_rec_numeral cong: option.case_cong)
  have ok: "allocateIP s = Ok a \<longleftrightarrow>
      (\<exists>i\<in>{2..253}. a = ?A i \<and> a \<notin> ?used \<and> (\<forall>j\<in>{2..<i}. ?A j \<in> ?used))" for a
  proof -
    have "allocateIP s = Ok a \<longleftrightarrow> (\<exists>i. find (\<lambda>i. ?A i \<notin> ?used) [2..<254] = Some i \<and> a = ?A i)"
      unfolding al by (auto simp del: upt_rec_numeral split: option.split)
    then show ?thesis unfolding find_upt_Some by (auto simp: Bex_def)
  qed
  have er: "(\<exists>e. allocateIP s = Err e) \<longleftrightarrow> (\<forall>i\<in>{2..253}. ?A i \<in> ?used)"
  proof -
    have "(\<exists>e. allocateIP s = Err e) \<longleftrightarrow> find (\<lambda>i. ?A i \<notin> ?used) [2..<254] = None"
      unfolding al by (auto simp del: upt_rec_numeral split: option.split)
    then show ?thesis unfolding find_upt_None by (auto simp: Ball_def)
  qed
  have few: "\<exists>b. allocateIP s = Ok b" if "length (peers_of s) < 252"
  proof (rule ccontr)
    assume "\<not> (\<exists>b. allocateIP s = Ok b)"
    then have "\<exists>e. allocateIP s = Err e" using allocateIP_no_panic [OF assms(4)] by (cases "allocateIP s") auto
    then have "?A ` {2..253} \<subseteq> ?used" using er by blast
    then have "card (?A ` {2..253}) \<le> card ?used" by (simp add: card_mono)
    moreover have "inj_on ?A {2..253}"
      using candidate_inj [OF assms(2)] candidate_four [OF assms(2)] by (intro inj_onI) auto
    ultimately have "252 \<le> card ?used" by (simp add: card_image)
    also have "\<dots> \<le> length (peers_of s)" using card_image_le card_length by (metis List.finite_set le_trans)
    finally show False using that by simp
  qed
  show ?thesis using ok er few by blast
qed


theorem allocateIP_lowest_free_witness:
  "\<exists>a. allocateIP (demo_server ''10.100.0.0/24'' [demo_peer ''a'' ''10.100.0.2/32'']) = Ok a"
proof -
  let ?s = "demo_server ''10.100.0.0/24'' [demo_peer ''a'' ''10.100.0.2/32'']"
  let ?n = "\<lparr>n_IP = [10, 100, 0, 0], n_Mask = [255, 255, 255, 0]\<rparr>"
  have "ParseCIDR (c_WGServerSubnet (sv_cfg ?s)) = Some ?n" by code_simp
  moreover have "length (n_IP ?n) = 4" "n_Mask ?n ! 3 = 0" by simp_all
  moreover have "no_nil (sv_peers ?s)" "length (peers_of ?s) < 252" by code_simp+
  ultimately show ?thesis using allocateIP_lowest_free [of ?s ?n] by blast
qed

text \<open>
  In an IPv4 subnet whose own last octet is from 2 to 253, which needs a prefix longer than 24,
  the first peer is given the address of the network itself.
\<close>

theorem first_peer_gets_network_address:
  assumes "ParseCIDR (c_WGServerSubnet (sv_cfg s)) = Some n" and "length (n_IP n) = 4"
    and "2 \<le> unat (n_IP n ! 3)" and "unat (n_IP n ! 3) \<le> 253" and "ps_peers (sv_peers s) = []"
  shows "allocateIP s = Ok (ip_String (n_IP n))"
proof -
  let ?t = "n_IP n ! 3"
  have nn: "no_nil (sv_peers s)" and pe: "peers_of s = []"
    using assms(5) by (simp_all add: no_nil_def peers_of_def ps_items_def)
  have m: "?t AND n_Mask n ! 3 = ?t" by (rule ParseCIDR_four [OF assms(1,2)]) simp
  have low: "\<not> of_nat j AND n_Mask n ! 3 = ?t" if "j \<in> {2..<unat ?t}" for j
  proof
    assume "of_nat j AND n_Mask n ! 3 = ?t"
    then have "?t \<le> of_nat j" using word_and_le2 [of "of_nat j" "n_Mask n ! 3"] by metis
    then have "unat ?t \<le> unat (of_nat j :: byte)" by (simp add: word_le_nat_alt)
    moreover have "unat (of_nat j :: byte) \<le> j" by (simp add: unat_of_nat)
    ultimately show False using that by simp
  qed
  have "find (\<lambda>i. of_nat i AND n_Mask n ! 3 = ?t) host_octets = Some (unat ?t)"
    unfolding host_octets_def find_upt_Some using m low assms(3,4) by simp
  moreover have "candidate n (unat ?t) = n_IP n"
    using assms(2) by (simp add: candidate_def with_last_def)
  ultimately show ?thesis using allocateIP_find [OF assms(1,2) nn] pe by simp
qed

theorem first_peer_gets_network_address_witness:
  "allocateIP (demo_server ''10.0.0.4/30'' []) = Ok ''10.0.0.4''"
proof -
  let ?s = "demo_server ''10.0.0.4/30'' []"
  let ?n = "\<lparr>n_IP = [10, 0, 0, 4], n_Mask = [255, 255, 255, 252]\<rparr>"
  have "ParseCIDR (c_WGServerSubnet (sv_cfg ?s)) = Some ?n" by code_simp
  moreover have "length (n_IP ?n) = 4" "2 \<le> unat (n_IP ?n ! 3)" "unat (n_IP ?n ! 3) \<le> 253" by simp_all
  moreover have "ps_peers (sv_peers ?s) = []" by code_simp
  moreover have "ip_String (n_IP ?n) = ''10.0.0.4''" by code_simp
  ultimately show ?thesis using first_peer_gets_network_address [of ?s ?n] by simp
qed

text \<open>
  The address the VPN server gives itself is its IPv4 subnet with 1 as the last octet; it lies in
  the subnet exactly when the subnet's last octet is what the mask leaves of 1, so always up to
  prefix length 24 and not, for example, in the upper half of a network split in two.
\<close>

theorem server_address_in_subnet_iff:
  assumes "ParseCIDR (c_WGServerSubnet cfg) = Some n" and "length (n_IP n) = 4"
  shows "parse_ipv4 (getServerIP cfg) = Some (take 3 (n_IP n) @ [1]) \<and>
    (Contains n (take 3 (n_IP n) @ [1]) \<longleftrightarrow> n_IP n ! 3 = 1 AND n_Mask n ! 3) \<and>
    (n_Mask n ! 3 = 0 \<longrightarrow> Contains n (take 3 (n_IP n) @ [1]))"
proof -
  have c: "with_last (n_IP n) 1 = take 3 (n_IP n) @ [1]"
    using candidate_four [OF assms(2), of 1] by (simp add: candidate_def)
  have p: "parse_ipv4 (getServerIP cfg) = Some (take 3 (n_IP n) @ [1])"
  proof (rule ParseCIDR_four [OF assms])
    fix p q r t m0 m1 m2 m3 assume "n_IP n = [p, q, r, t]"
    then show ?thesis
      using parse_ipv4_String [of p q r 1] assms(1) by (simp add: getServerIP_def with_last_def)
  qed
  have i: "Contains n (take 3 (n_IP n) @ [1]) \<longleftrightarrow> n_IP n ! 3 = 1 AND n_Mask n ! 3"
    using Contains_last [OF assms, of 1] c by auto
  have "n_Mask n ! 3 = 0 \<Longrightarrow> n_IP n ! 3 = 0"
    by (rule ParseCIDR_four [OF assms]) auto
  then show ?thesis using p i by auto
qed

theorem server_address_in_subnet_iff_witness:
  "getServerIP (demo_cfg ''10.0.0.128/25'') = ''10.0.0.1'' \<and>
   \<not> Contains \<lparr>n_IP = [10, 0, 0, 128], n_Mask = [255, 255, 255, 128]\<rparr> [10, 0, 0, 1]"
proof -
  let ?n = "\<lparr>n_IP = [10, 0, 0, 128], n_Mask = [255, 255, 255, 128]\<rparr>"
  have n: "ParseCIDR (c_WGServerSubnet (demo_cfg ''10.0.0.128/25'')) = Some ?n" by code_simp
  have "n_IP ?n ! 3 \<noteq> 1 AND n_Mask ?n ! 3" by simp
  then have "\<not> Contains ?n [10, 0, 0, 1]" using server_address_in_subnet_iff [OF n] by simp
  moreover have "getServerIP (demo_cfg ''10.0.0.128/25'') = ''10.0.0.1''" by code_simp
  ultimately show ?thesis by blast
qed

end
