(* ===== verification/WgServer_Keys.thy ===== *)
theory WgServer_Keys
  imports WgServer_Props
begin

text \<open>
  The VPN server's keys: what \<^verbatim>\<open>generateKeyPair\<close> makes, and that the keys in the configuration
  directory are the ones a later start uses.
\<close>

unbundle bit_operations_syntax

section \<open>Base 64\<close>

lemma b64_alphabet_length [simp]: "length b64_alphabet = 64"
  by (simp add: b64_alphabet_def)

lemma b64_alphabet_distinct: "distinct b64_alphabet"
  by (simp add: b64_alphabet_def)

lemma b64_char_inj: "i < 64 \<Longrightarrow> j < 64 \<Longrightarrow> b64_char i = b64_char j \<longleftrightarrow> i = j"
  using b64_alphabet_distinct by (simp add: b64_char_def nth_eq_iff_index_eq)

lemma b64_char_alphabet: "i < 64 \<Longrightarrow> b64_char i \<in> set b64_alphabet"
  by (simp add: b64_char_def)

lemma b64_pad: "CHR ''='' \<notin> set b64_alphabet"
  by (simp add: b64_alphabet_def)

lemma octet_bounds:
  fixes a b c :: byte
  shows "unat a div 4 < 64" "unat a mod 4 * 16 < 64" "unat b mod 16 * 4 < 64"
    "unat a mod 4 * 16 + unat b div 16 < 64" "unat b mod 16 * 4 + unat c div 64 < 64" "unat c mod 64 < 64"
proof -
  have "unat a \<le> 255" "unat b \<le> 255" "unat c \<le> 255" by (rule unat_octet)+
  moreover have "unat a mod 4 \<le> 3" "unat b mod 16 \<le> 15" by simp_all
  ultimately show "unat a div 4 < 64" "unat a mod 4 * 16 < 64" "unat b mod 16 * 4 < 64"
    "unat a mod 4 * 16 + unat b div 16 < 64" "unat b mod 16 * 4 + unat c div 64 < 64" "unat c mod 64 < 64"
    by linarith+
qed

lemma b64_encode_chars: "c \<in> set (b64_encode bs) \<Longrightarrow> c \<in> set b64_alphabet \<or> c = CHR ''=''"
  by (induction bs rule: b64_encode.induct) (auto intro: b64_char_alphabet simp: octet_bounds)

lemma b64_encode_length: "length (b64_encode bs) = (length bs + 2) div 3 * 4"
proof (induction bs rule: b64_encode.induct)
  case (4 a b c r)
  have e: "length (a # b # c # r) + 2 = 3 + (length r + 2)" by simp
  have "(3 + (length r + 2)) div 3 = Suc ((length r + 2) div 3)" by linarith
  then have "(length (a # b # c # r) + 2) div 3 = Suc ((length r + 2) div 3)" unfolding e .
  moreover have "length (b64_encode (a # b # c # r)) = 4 + length (b64_encode r)" by simp
  ultimately show ?case using 4 by (simp only: mult_Suc)
qed simp_all

lemma radix_eq:
  "x * k + y = x' * k + y' \<Longrightarrow> y < k \<Longrightarrow> y' < k \<Longrightarrow> x = x' \<and> y = (y' :: nat)"
proof -
  assume eq: "x * k + y = x' * k + y'" and y: "y < k" "y' < k"
  have "x = (x * k + y) div k" "x' = (x' * k + y') div k" using y by simp_all
  then have "x = x'" using eq by simp
  then show ?thesis using eq by simp
qed

lemma octets_eq:
  fixes a b c a' b' c' :: nat
  assumes "a div 4 = a' div 4" "a mod 4 * 16 + b div 16 = a' mod 4 * 16 + b' div 16"
    "b mod 16 * 4 + c div 64 = b' mod 16 * 4 + c' div 64" "c mod 64 = c' mod 64"
    "b \<le> 255" "b' \<le> 255" "c \<le> 255" "c' \<le> 255"
  shows "a = a' \<and> b = b' \<and> c = c'"
proof -
  have q: "b div 16 < 16" "b' div 16 < 16" "c div 64 < 4" "c' div 64 < 4" using assms(5-8) by linarith+
  have "a mod 4 = a' mod 4" "b div 16 = b' div 16" using radix_eq [OF assms(2) q(1,2)] by simp_all
  moreover have "b mod 16 = b' mod 16" "c div 64 = c' div 64" using radix_eq [OF assms(3) q(3,4)] by simp_all
  ultimately show ?thesis using assms(1,4) by (metis div_mod_decomp)
qed

text \<open>Different keys have different texts.\<close>

lemma b64_encode_inj:
  "length as = length bs \<Longrightarrow> b64_encode as = b64_encode bs \<Longrightarrow> as = bs"
proof (induction as arbitrary: bs rule: b64_encode.induct)
  case 1
  then show ?case by simp
next
  case (2 a)
  then obtain a' where bs: "bs = [a']" by (auto simp: Suc_length_conv)
  have "unat a div 4 = unat a' div 4" "unat a mod 4 * 16 = unat a' mod 4 * 16"
    using 2 bs by (simp_all add: b64_char_inj octet_bounds)
  then have "unat a = unat a'" by (metis div_mod_decomp mult_cancel2 zero_neq_numeral)
  then show ?case using bs by (simp add: word_unat_eq_iff)
next
  case (3 a b)
  obtain a' b' where bs: "bs = [a', b']" using "3.prems"(1) by (auto simp: Suc_length_conv length_Suc_conv)
  have "unat a div 4 = unat a' div 4"
    "unat a mod 4 * 16 + unat b div 16 = unat a' mod 4 * 16 + unat b' div 16"
    "unat b mod 16 * 4 = unat b' mod 16 * 4"
    using 3 bs by (simp_all add: b64_char_inj octet_bounds)
  then have "unat a = unat a' \<and> unat b = unat b'"
    using octets_eq [of "unat a" "unat a'" "unat b" "unat b'" 0 0] unat_octet by simp
  then show ?case using bs by (simp add: word_unat_eq_iff)
next
  case (4 a b c r)
  obtain a' b' c' r' where bs: "bs = a' # b' # c' # r'" "length r = length r'"
    using "4.prems"(1) by (auto simp: Suc_length_conv length_Suc_conv)
  have "unat a div 4 = unat a' div 4"
    "unat a mod 4 * 16 + unat b div 16 = unat a' mod 4 * 16 + unat b' div 16"
    "unat b mod 16 * 4 + unat c div 64 = unat b' mod 16 * 4 + unat c' div 64"
    "unat c mod 64 = unat c' mod 64" and r: "b64_encode r = b64_encode r'"
    using "4.prems" bs by (simp_all add: b64_char_inj octet_bounds)
  then have "unat a = unat a' \<and> unat b = unat b' \<and> unat c = unat c'"
    using octets_eq unat_octet by blast
  then show ?case using bs "4.IH" [OF bs(2) r] by (simp add: word_unat_eq_iff)
qed

section \<open>Generated keys\<close>

lemma clamp_bytes:
  assumes "length raw = 32"
  shows "length (clamp raw) = 32" and "clamp raw ! 0 = raw ! 0 AND 248"
    and "clamp raw ! 31 = (raw ! 31 AND 127) OR 64" and "\<forall>i\<in>{1..30}. clamp raw ! i = raw ! i"
  using assms by (simp_all add: clamp_def Let_def)

lemma octet_bits:
  fixes a :: byte
  shows "a AND 248 AND 7 = 0" "(a AND 127 OR 64) AND 128 = 0" "(a AND 127 OR 64) AND 64 = 64"
    "a AND 248 AND 248 = a AND 248" "(a AND 127 OR 64) AND 63 = a AND 63"
  by (simp_all add: and.assoc word_ao_dist)

text \<open>
  C27. A generated private key is the base-64 text, 44 characters long, of 32 bytes that are a
  Curve25519 scalar: the three low bits and the top bit are clear, bit 254 is set and all other bits
  are the random ones; the public key is what \<^verbatim>\<open>wg pubkey\<close> printed for exactly this text, without
  surrounding white space, and no other 32 bytes have this text.
\<close>

theorem generated_keys_are_clamped:
  assumes "generateKeyPair E w = (Ok (priv, pub), w')"
  shows "\<exists>rnd key out. entropy (we_os E) (tick w) = Inr rnd \<and> length key = 32 \<and> priv = b64_encode key \<and>
      length priv = 44 \<and> set priv \<subseteq> insert (CHR ''='') (set b64_alphabet) \<and>
      (\<forall>k. length k = 32 \<longrightarrow> b64_encode k = priv \<longrightarrow> k = key) \<and>
      key ! 0 AND 7 = 0 \<and> key ! 31 AND 128 = 0 \<and> key ! 31 AND 64 = 64 \<and>
      key ! 0 AND 248 = (rnd @ replicate 32 0) ! 0 AND 248 \<and>
      (\<forall>i\<in>{1..30}. key ! i = (rnd @ replicate 32 0) ! i) \<and>
      key ! 31 AND 63 = (rnd @ replicate 32 0) ! 31 AND 63 \<and>
      exec_result (we_os E) (Suc (tick w)) [''wg'', ''pubkey''] priv = (out, None) \<and> pub = trim_space out"
proof -
  obtain rnd where rnd: "entropy (we_os E) (tick w) = Inr rnd"
    using assms by (auto simp: generateKeyPair_def rand_key_def res_simps split: sum.splits)
  define z where "z = rnd @ replicate 32 (0 :: byte)"
  define raw where "raw = take 32 z"
  have raw: "length raw = 32" "\<And>i. i < 32 \<Longrightarrow> raw ! i = z ! i"
    by (simp_all add: raw_def) (simp add: z_def)
  obtain out where out: "exec_result (we_os E) (Suc (tick w)) [''wg'', ''pubkey''] priv = (out, None)"
    "pub = trim_space out" and priv: "priv = b64_encode (clamp raw)"
  proof -
    have "rand_key E w = (Ok raw, tock w)" by (simp add: rand_key_def rnd raw_def z_def del: take_append)
    then have "derivePublicKey E (b64_encode (clamp raw)) (tock w) = (Ok pub, w')" "priv = b64_encode (clamp raw)"
      using assms by (auto simp: generateKeyPair_def res_simps Let_def)
    then show thesis using that
      by (auto simp: derivePublicKey_def exec_def tock_def split: prod.splits option.splits)
  qed
  note key = clamp_bytes [OF raw(1)]
  have "set priv \<subseteq> insert (CHR ''='') (set b64_alphabet)" using b64_encode_chars priv by blast
  moreover have "\<forall>k. length k = 32 \<longrightarrow> b64_encode k = priv \<longrightarrow> k = clamp raw"
    using b64_encode_inj key(1) priv by auto
  moreover have "length priv = 44" by (simp add: priv b64_encode_length key(1))
  moreover have "\<forall>i\<in>{1..30}. clamp raw ! i = z ! i" using key(4) raw(2) by simp
  moreover have "clamp raw ! 0 AND 7 = 0" "clamp raw ! 0 AND 248 = z ! 0 AND 248"
    using key(2) raw(2) [of 0] by (simp_all add: and.assoc)
  moreover have "clamp raw ! 31 AND 128 = 0" "clamp raw ! 31 AND 64 = 64"
    "clamp raw ! 31 AND 63 = z ! 31 AND 63"
    using octet_bits(2,3,5) [of "raw ! 31"] raw(2) [of 31] by (simp_all add: key(3))
  ultimately show ?thesis using rnd out priv key(1) unfolding z_def by blast
qed

theorem generated_keys_are_clamped_witness:
  "\<exists>key priv pub w'. generateKeyPair demo_env demo_world = (Ok (priv, pub), w') \<and> priv = b64_encode key \<and>
     length key = 32 \<and> length priv = 44"
proof -
  obtain priv pub w' where g: "generateKeyPair demo_env demo_world = (Ok (priv, pub), w')"
    by (simp add: generateKeyPair_def rand_key_def derivePublicKey_def demo_env_def exec_def Let_def)
  show ?thesis using generated_keys_are_clamped [OF g] g by blast
qed

section \<open>Keys on disk\<close>

text \<open>Trimming a text that ends in a line feed.\<close>

lemma of_char_LF: "of_char (CHR 0x0A) = (10 :: nat)"
  by simp

lemma ws_len_two: "ws_len [a] \<noteq> 0 \<Longrightarrow> ws_len (a # s) \<noteq> 0" "ws_len [a, b] \<noteq> 0 \<Longrightarrow> ws_len (a # b # s) \<noteq> 0"
  "ws_len (a # b # c # s) = ws_len [a, b, c]"
  by (cases s; simp add: ws_len_def split: if_splits list.split)+

lemma ws_len_prefix: "ws_len (take k s) \<noteq> 0 \<Longrightarrow> ws_len s \<noteq> 0"
proof -
  assume z: "ws_len (take k s) \<noteq> 0"
  then consider a where "take k s = [a]" | a b where "take k s = [a, b]"
    | a b c r where "take k s = a # b # c # r"
    by (metis list.exhaust ws_len_Nil)
  then show ?thesis
    using z append_take_drop_id [of k s]
    by cases (metis append_Cons append_Nil ws_len_two)+
qed

lemma ws_len_LF: "y \<noteq> [] \<Longrightarrow> ws_len y = 0 \<Longrightarrow> ws_len (y @ nl) = 0"
proof -
  assume y: "y \<noteq> []" and z: "ws_len y = 0"
  consider a where "y = [a]" | a b where "y = [a, b]" | a b c r where "y = a # b # c # r"
    using y by (metis list.exhaust)
  then show ?thesis
    using z by cases (auto simp: ws_len_def nl_def split: if_splits)
qed

lemma trim_space_ends: "ws_suffix_len (trim_right s) = 0 \<and> (ws_len s = 0 \<longrightarrow> ws_len (trim_right s) = 0)"
proof (induction s rule: trim_right.induct)
  case (1 s)
  show ?case
  proof (cases "ws_suffix_len s = 0")
    case True
    then show ?thesis by (simp add: trim_right.simps [of s])
  next
    case False
    then show ?thesis
      using 1 ws_len_prefix [of "length s - ws_suffix_len s" s] by (auto simp: trim_right.simps [of s])
  qed
qed

lemma ws_len_trim_left: "ws_len (trim_left s) = 0"
proof (induction s rule: trim_left.induct)
  case (1 s)
  then show ?case by (cases "ws_len s = 0") (simp_all add: trim_left.simps [of s])
qed

lemma trim_LF:
  assumes "ws_len y = 0" and "ws_suffix_len y = 0"
  shows "trim_space (y @ nl) = y"
proof (cases "y = []")
  case True
  have "trim_space nl = []" by code_simp
  then show ?thesis using True by simp
next
  case False
  have "trim_left (y @ nl) = y @ nl" using ws_len_LF [OF False assms(1)] by (simp add: trim_left.simps)
  moreover have "ws_suffix_len (y @ nl) = 1" by (simp add: ws_suffix_len_def ws_len_def nl_def)
  then have "trim_right (y @ nl) = trim_right y" by (subst trim_right.simps) (simp add: nl_def)
  moreover have "trim_right y = y" using assms(2) by (subst trim_right.simps) simp
  ultimately show ?thesis by (simp add: trim_space_def)
qed

lemma trim_space_LF: "trim_space (trim_space s @ nl) = trim_space s"
  using trim_LF [of "trim_space s"] trim_space_ends [of "trim_left s"] ws_len_trim_left [of s]
  by (simp add: trim_space_def)

lemma b64_plain:
  assumes "c \<in> set b64_alphabet \<or> c = CHR ''=''"
  shows "ws_len (c # s) = 0"
proof -
  have "\<forall>c\<in>set (CHR ''='' # b64_alphabet). 32 < (of_char c :: nat) \<and> of_char c < (128 :: nat)"
    by (simp add: b64_alphabet_def)
  then have "32 < (of_char c :: nat)" "of_char c < (128 :: nat)" using assms by auto
  then show ?thesis by (auto simp: ws_len_def split: list.splits)
qed

lemma trim_b64: "trim_space (b64_encode bs @ nl) = b64_encode bs"
proof (rule trim_LF)
  let ?y = "b64_encode bs"
  have d: "ws_len (drop k ?y) = 0" for k
  proof (cases "drop k ?y")
    case (Cons c s)
    then have "c \<in> set ?y" by (metis in_set_dropD list.set_intros(1))
    then show ?thesis using b64_plain b64_encode_chars Cons by metis
  qed simp
  show "ws_len ?y = 0" using d [of 0] by simp
  show "ws_suffix_len ?y = 0" using d by (simp add: ws_suffix_len_def Let_def)
qed

lemma derive_files: "derivePublicKey E k w = (r, w1) \<Longrightarrow> files w1 = files w"
  by (auto simp: derivePublicKey_def exec_def split: prod.splits option.splits)

lemma derive_trimmed: "derivePublicKey E k w = (Ok pub, w1) \<Longrightarrow> trim_space (pub @ nl) = pub"
  using trim_space_LF by (auto simp: derivePublicKey_def split: prod.splits option.splits)

lemma derive_no_panic: "derivePublicKey E k w \<noteq> (Panic p, w1)"
  by (auto simp: derivePublicKey_def split: prod.splits option.splits)

lemma generate_shape:
  assumes "generateKeyPair E w = (Ok (priv, pub), w1)"
  shows "\<exists>key. length key = 32 \<and> priv = b64_encode key \<and> trim_space (pub @ nl) = pub"
proof -
  obtain key w0 where "rand_key E w = (Ok key, w0)" "derivePublicKey E (b64_encode (clamp key)) w0 = (Ok pub, w1)"
    "priv = b64_encode (clamp key)"
    using assms by (auto simp: generateKeyPair_def res_simps Let_def)
  moreover from this have "length (clamp key) = 32"
    by (auto simp: rand_key_def clamp_def Let_def simp del: take_append split: sum.splits)
  ultimately show ?thesis using derive_trimmed by blast
qed

lemma os_step_write:
  "os_step (write_file E w p s) = (Ok (), w1) \<Longrightarrow> file_at w1 p = Some s \<and>
     (\<forall>q. path_clean q \<noteq> path_clean p \<longrightarrow> file_at w1 q = file_at w q)"
  using write_file_ok [of E w p s w1] write_file_frame [of _ p E w s]
  by (auto simp: os_step_def split: prod.splits option.splits)

definition key_path :: "wgserver \<Rightarrow> string" where
  "key_path s = path_join (sv_configDir s) ''server.key''"

definition pub_path :: "wgserver \<Rightarrow> string" where
  "pub_path s = path_join (sv_configDir s) ''server.pub''"

lemma key_paths_differ: "clean_dir (sv_configDir s) \<Longrightarrow> path_clean (key_path s) \<noteq> path_clean (pub_path s)"
  using path_clean_child [of "sv_configDir s" "''server.key''"] path_clean_child [of "sv_configDir s" "''server.pub''"]
  by (simp add: key_path_def pub_path_def path_join_child plain_elem_def)

text \<open>What a successful load leaves in the server and in the two files.\<close>

lemma load_keys_files:
  assumes "loadOrGenerateKeys E (s, w) = (Ok (), s1, w1)" and "clean_dir (sv_configDir s)"
  shows "\<exists>k p. file_at w1 (key_path s) = Some k \<and> file_at w1 (pub_path s) = Some p \<and>
    s1 = s\<lparr>sv_privateKey := trim_space k, sv_publicKey := trim_space p\<rparr>"
proof -
  let ?k = "path_join (sv_configDir s) ''server.key''" and ?p = "path_join (sv_configDir s) ''server.pub''"
  have ne: "path_clean ?k \<noteq> path_clean ?p"
    using key_paths_differ [OF assms(2)] by (simp add: key_path_def pub_path_def)
  obtain rk wk where rk: "read_file (we_os E) w ?k = (rk, wk)" by (cases "read_file (we_os E) w ?k")
  then have wk: "wk = tock w" by (metis snd_conv snd_read_file)
  show ?thesis
  proof (cases "\<exists>d. rk = Ok d")
    case True
    then obtain d where d: "rk = Ok d" by blast
    then have fk: "file_at w ?k = Some d" using rk by (metis fst_conv read_file_Ok_iff)
    obtain rp wp where rp: "read_file (we_os E) wk ?p = (rp, wp)" by (cases "read_file (we_os E) wk ?p")
    then have wp: "wp = tock wk" by (metis snd_conv snd_read_file)
    show ?thesis
    proof (cases "\<exists>e. rp = Ok e")
      case True
      then obtain e where e: "rp = Ok e" by blast
      then have "file_at wk ?p = Some e" using rp by (metis fst_conv read_file_Ok_iff)
      then show ?thesis
        using assms(1) rk d rp e fk wk wp
        by (simp add: loadOrGenerateKeys_def key_path_def pub_path_def) (metis file_at_tock)
    next
      case False
      then have no: "\<And>x. rp \<noteq> Ok x" by blast
      obtain pub w3 w4 where pub: "derivePublicKey E (trim_space d) wp = (Ok pub, w3)"
        "os_step (write_file (we_os E) w3 ?p (pub @ nl)) = (Ok (), w4)"
        and s1: "s1 = s\<lparr>sv_privateKey := trim_space d, sv_publicKey := pub\<rparr>" "w1 = w4"
        using assms(1) rk d rp no
        by (cases rp) (auto simp: loadOrGenerateKeys_def Let_def split: res.splits prod.splits)
      have "file_at w3 ?k = Some d" using derive_files [OF pub(1)] fk wk wp by (simp add: file_at_def)
      then have "file_at w4 ?k = Some d" "file_at w4 ?p = Some (pub @ nl)"
        using os_step_write [OF pub(2)] ne by auto
      then show ?thesis using s1 derive_trimmed [OF pub(1)] by (simp add: key_path_def pub_path_def)
    qed
  next
    case False
    then have no: "\<And>x. rk \<noteq> Ok x" by blast
    obtain priv pub w2 w3 w4 where g: "generateKeyPair E wk = (Ok (priv, pub), w2)"
      "os_step (write_file (we_os E) w2 ?k (priv @ nl)) = (Ok (), w3)"
      "os_step (write_file (we_os E) w3 ?p (pub @ nl)) = (Ok (), w4)"
      and s1: "s1 = s\<lparr>sv_privateKey := priv, sv_publicKey := pub\<rparr>" "w1 = w4"
      using assms(1) rk no
      by (cases rk) (auto simp: loadOrGenerateKeys_def Let_def res_simps split: res.splits prod.splits)
    have "file_at w4 ?k = Some (priv @ nl)" "file_at w4 ?p = Some (pub @ nl)"
      using os_step_write [OF g(2)] os_step_write [OF g(3)] ne by auto
    moreover have "trim_space (priv @ nl) = priv" "trim_space (pub @ nl) = pub"
      using generate_shape [OF g(1)] trim_b64 by auto
    ultimately show ?thesis using s1 by (simp add: key_path_def pub_path_def)
  qed
qed

text \<open>
  C26. The server keeps its identity: after a start that loaded or made keys, a server on the same
  directory that can read the files finds exactly the same private and public key, whether they were
  both there, the public one was derived anew, or both were generated.
\<close>

theorem keys_survive_restart:
  assumes "loadOrGenerateKeys E (s, w) = (Ok (), s1, w1)" and "clean_dir (sv_configDir s)"
    and "sv_configDir s2 = sv_configDir s" and "\<forall>n p. read_fault (we_os E2) n p = None"
  shows "loadOrGenerateKeys E2 (s2, w1) =
    (Ok (), s2\<lparr>sv_privateKey := sv_privateKey s1, sv_publicKey := sv_publicKey s1\<rparr>, tock (tock w1))"
proof -
  obtain k p where kp: "file_at w1 (key_path s) = Some k" "file_at w1 (pub_path s) = Some p"
    "s1 = s\<lparr>sv_privateKey := trim_space k, sv_publicKey := trim_space p\<rparr>"
    using load_keys_files [OF assms(1,2)] by blast
  then show ?thesis
    using assms(3,4) by (simp add: loadOrGenerateKeys_def read_file_def key_path_def pub_path_def Let_def)
qed

theorem keys_survive_restart_witness:
  "\<exists>s1 w1. loadOrGenerateKeys demo_env (NewWgServer (demo_cfg ''10.100.0.0/24''), demo_world) = (Ok (), s1, w1) \<and>
     fst (snd (loadOrGenerateKeys demo_env (NewWgServer (demo_cfg ''10.100.0.0/24''), w1))) = s1"
proof -
  let ?s = "NewWgServer (demo_cfg ''10.100.0.0/24'')"
  have k: "path_join ''/etc/wg-proxy'' ''server.key'' = ''/etc/wg-proxy/server.key''"
    "path_join ''/etc/wg-proxy'' ''server.pub'' = ''/etc/wg-proxy/server.pub''" by code_simp+
  have d: "clean_dir (sv_configDir ?s)" by (simp add: NewWgServer_def) code_simp
  obtain s1 w1 where l: "loadOrGenerateKeys demo_env (?s, demo_world) = (Ok (), s1, w1)"
    by (simp add: loadOrGenerateKeys_def NewWgServer_def k read_file_def file_at_def demo_world_def demo_env_def
        generateKeyPair_def rand_key_def derivePublicKey_def exec_def os_step_def write_file_def Let_def)
  have "\<exists>a b. s1 = ?s\<lparr>sv_privateKey := a, sv_publicKey := b\<rparr>"
    using load_keys_files [OF l d] by blast
  then have "s1 = ?s\<lparr>sv_privateKey := sv_privateKey s1, sv_publicKey := sv_publicKey s1\<rparr>" by auto
  moreover have "\<forall>n p. read_fault (we_os demo_env) n p = None" by (simp add: demo_env_def)
  ultimately show ?thesis using keys_survive_restart [OF l d refl] l by (metis fst_conv snd_conv)
qed

text \<open>
  A key file that cannot be read, for whatever reason, is overwritten with a new key: the server
  changes its identity and every client configuration handed out before stops working.
\<close>

theorem unreadable_key_is_replaced:
  assumes "loadOrGenerateKeys E (s, w) = (Ok (), s1, w1)" and "clean_dir (sv_configDir s)"
    and "read_fault (we_os E) (tick w) (key_path s) = Some e"
  shows "\<exists>key. length key = 32 \<and> file_at w1 (key_path s) = Some (b64_encode key @ nl) \<and>
    sv_privateKey s1 = b64_encode key"
proof -
  let ?k = "path_join (sv_configDir s) ''server.key''" and ?p = "path_join (sv_configDir s) ''server.pub''"
  have rk: "read_file (we_os E) w ?k = (Err (OsErr e), tock w)"
    using assms(3) by (simp add: read_file_def key_path_def)
  obtain priv pub w2 w3 where g: "generateKeyPair E (tock w) = (Ok (priv, pub), w2)"
    "os_step (write_file (we_os E) w2 ?k (priv @ nl)) = (Ok (), w3)"
    "os_step (write_file (we_os E) w3 ?p (pub @ nl)) = (Ok (), w1)"
    and s1: "s1 = s\<lparr>sv_privateKey := priv, sv_publicKey := pub\<rparr>"
    using assms(1) rk by (auto simp: loadOrGenerateKeys_def Let_def res_simps split: res.splits prod.splits)
  have "file_at w1 ?k = Some (priv @ nl)"
    using os_step_write [OF g(2)] os_step_write [OF g(3)] key_paths_differ [OF assms(2)]
    by (auto simp: key_path_def pub_path_def)
  then show ?thesis using generate_shape [OF g(1)] s1 by (auto simp: key_path_def)
qed

end
