(* ===== verification/WgServer_Start.thy ===== *)
theory WgServer_Start
  imports WgServer_Keys
begin

text \<open>
  Starting and stopping the VPN server: which outcomes a start has, what it leaves behind, that a
  stop takes back every packet filter rule of a start, and that the peers survive a restart.
\<close>

section \<open>The outcomes of a start\<close>

text \<open>The pieces of a start that got past the keys.\<close>

lemma os_step_no_panic: "os_step r \<noteq> (Panic p, w)"
  by (auto simp: os_step_def split: prod.splits option.splits)

lemma configure_no_panic: "configure E cfg kf w \<noteq> (Panic p, w1)"
  by (auto simp: configure_def Let_def res_simps must_cmd_no_panic split: option.splits prod.splits)

lemma create_temp_no_panic: "create_temp E w pat \<noteq> (Panic p, w1)"
  by (auto simp: create_temp_def Let_def split: if_splits option.splits)

lemma setupInterface_no_panic: "setupInterface E cfg key w \<noteq> (Panic p, w1)"
proof -
  have "fst (configure E cfg kf w2) \<noteq> Panic p" for kf w2
    using configure_no_panic [of E cfg kf w2 p "snd (configure E cfg kf w2)"] by (metis prod.collapse)
  then show ?thesis
    by (auto simp: setupInterface_def Let_def res_simps must_cmd_no_panic create_temp_no_panic
        split: res.splits prod.splits)
qed

lemma setupNAT_no_panic: "setupNAT E cfg w \<noteq> (Panic p, w1)"
  by (auto simp: setupNAT_def res_simps must_cmd_no_panic os_step_no_panic split: prod.splits)

lemma loadKeys_no_panic: "loadOrGenerateKeys E (s, w) \<noteq> (Panic p, sw1)"
  by (auto simp: loadOrGenerateKeys_def Let_def res_simps derive_no_panic generateKeyPair_no_panic
      os_step_no_panic split: prod.splits res.splits)

lemma loadKeys_running: "loadOrGenerateKeys E (s, w) = (r, s1, w1) \<Longrightarrow>
    sv_running s1 = sv_running s \<and> sv_cfg s1 = sv_cfg s \<and> sv_peers s1 = sv_peers s \<and> sv_configDir s1 = sv_configDir s"
  by (auto simp: loadOrGenerateKeys_def Let_def split: prod.splits res.splits)

lemma those_None: "those xs = None \<longleftrightarrow> None \<in> set xs"
  by (induction xs) (auto split: option.splits)

text \<open>The ways through a start that had the server stopped.\<close>

lemma Start_cases:
  assumes "wg_Start E (s, w) = (r, s', w')" and "\<not> sv_running s"
  obtains (early) e where "r = Err e" "\<not> sv_running s'" "sv_cfg s' = sv_cfg s" "\<And>d. e \<noteq> Wrap ''setting up NAT'' d"
  | (nil) p where "r = Panic nil_deref" "\<not> sv_running s'" "sv_cfg s' = sv_cfg s" "\<not> no_nil (sv_peers s')"
  | (nat) e w4 w5 where "r = Err (Wrap ''setting up NAT'' e)" "\<not> sv_running s'" "sv_cfg s' = sv_cfg s"
      "no_nil (sv_peers s')" "setupNAT E (sv_cfg s) (add_each E (peers_of s') w4) = (Err e, w5)"
      "w' = teardownInterface E w5"
  | (started) s1 w1 w2 w3 lr w4 where
      "loadOrGenerateKeys E (s, w1) = (Ok (), s1, w2)"
      "ps_Load (we_os E) w2 (sv_peers s) = ((lr, sv_peers s'), w3)"
      "setupInterface E (sv_cfg s) (sv_privateKey s1) w3 = (Ok (), w4)"
      "setupNAT E (sv_cfg s) (add_each E (peers_of s') w4) = (Ok (), w')"
      "s' = s1\<lparr>sv_peers := sv_peers s', sv_running := True\<rparr>" "sv_cfg s' = sv_cfg s" "no_nil (sv_peers s')"
      "r = (if length (sv_publicKey s') < 8 then Panic ''slice bounds out of range'' else Ok ())"
      "mkdir_all E (sv_configDir s) w = (Ok (), w1)"
proof -
  obtain r1 w1 where m: "mkdir_all E (sv_configDir s) w = (r1, w1)" by (metis prod.collapse)
  have mk: "r1 \<noteq> Panic p" for p using m by (auto simp: mkdir_all_def split: option.splits)
  have wr: "e \<noteq> Wrap ''setting up NAT'' d" if "r1 = Err e" for e d
    using m that by (auto simp: mkdir_all_def split: option.splits)
  obtain r2 s2 w2 where k: "loadOrGenerateKeys E (s, w1) = (r2, s2, w2)" by (metis prod.collapse)
  have inv: "\<not> sv_running s2" "sv_cfg s2 = sv_cfg s" "sv_peers s2 = sv_peers s"
    using loadKeys_running [OF k] assms(2) by simp_all
  obtain lr ps w3 where l: "ps_Load (we_os E) w2 (sv_peers s) = ((lr, ps), w3)" by (metis prod.collapse)
  obtain r4 w4 where i: "setupInterface E (sv_cfg s) (sv_privateKey s2) w3 = (r4, w4)" by (metis prod.collapse)
  show thesis
  proof (cases r1)
    case (Err e)
    then have "r = Err e" "s' = s" using assms m by (simp_all add: wg_Start_def)
    then show thesis using assms(2) wr [OF Err] by (intro early) simp_all
  next
    case (Panic p)
    then show thesis using mk by simp
  next
    case r1: (Ok u1)
    show thesis
    proof (cases r2)
      case (Err e)
      then have "r = Err (Wrap ''loading keys'' e)" "s' = s2" using assms m k r1 by (simp_all add: wg_Start_def)
      then show thesis using inv by (intro early) auto
    next
      case (Panic p)
      then show thesis using loadKeys_no_panic k by blast
    next
      case r2: (Ok u2)
      show thesis
      proof (cases r4)
        case (Err e)
        then have "r = Err (Wrap ''setting up interface'' e)" "s' = s2\<lparr>sv_peers := ps\<rparr>"
          using assms m k r1 r2 inv l i by (simp_all add: wg_Start_def Let_def)
        then show thesis using inv by (intro early) auto
      next
        case (Panic p)
        then show thesis using setupInterface_no_panic i by blast
      next
        case r4: (Ok u4)
        show thesis
        proof (cases "no_nil ps")
          case False
          then have "ps_List ps = (Panic nil_deref :: (wg_err, Peer list) res)"
            using those_None [of "ps_peers ps"] by (simp add: ps_List_def no_nil_def)
          then have "r = Panic nil_deref" "s' = s2\<lparr>sv_peers := ps\<rparr>"
            using assms m k r1 r2 r4 inv l i by (simp_all add: wg_Start_def Let_def)
          then show thesis using inv False by (intro nil) simp_all
        next
          case nn: True
          then have ls: "ps_List ps = (Ok (ps_items ps) :: (wg_err, Peer list) res)" by (rule ps_List_items)
          obtain r5 w5 where n: "setupNAT E (sv_cfg s) (add_each E (ps_items ps) w4) = (r5, w5)"
            by (metis prod.collapse)
          show thesis
          proof (cases r5)
            case (Err e)
            then have "r = Err (Wrap ''setting up NAT'' e)" "s' = s2\<lparr>sv_peers := ps\<rparr>" "w' = teardownInterface E w5"
              using assms m k r1 r2 r4 inv l i ls n by (simp_all add: wg_Start_def Let_def)
            then show thesis using inv nn n Err by (intro nat) (simp_all add: peers_of_def)
          next
            case (Panic p)
            then show thesis using setupNAT_no_panic n by blast
          next
            case (Ok u5)
            then have "s' = s2\<lparr>sv_peers := ps, sv_running := True\<rparr>" "w' = w5"
              "r = (if length (sv_publicKey s2) < 8 then Panic ''slice bounds out of range'' else Ok ())"
              using assms m k r1 r2 r4 inv l i ls n by (auto simp: wg_Start_def Let_def split: if_splits)
            then show thesis using inv nn n Ok m k l i r1 r2 r4 by (intro started) (simp_all add: peers_of_def)
          qed
        qed
      qed
    qed
  qed
qed

text \<open>
  C24. A start succeeds only with a running server whose public key has at least eight characters; an
  error leaves the server stopped; and it panics in exactly two situations: the peers file has a
  null entry (the server is stopped and its interface is up), or the public key is shorter than
  eight characters (the server is running).
\<close>

theorem Start_outcome:
  assumes "wg_Start E (s, w) = (r, s', w')" and "\<not> sv_running s"
  shows "(case r of
      Ok _ \<Rightarrow> sv_running s' \<and> 8 \<le> length (sv_publicKey s') \<and> no_nil (sv_peers s')
    | Err _ \<Rightarrow> \<not> sv_running s'
    | Panic p \<Rightarrow> \<not> sv_running s' \<and> \<not> no_nil (sv_peers s') \<and> p = nil_deref \<or>
        sv_running s' \<and> length (sv_publicKey s') < 8 \<and> p = ''slice bounds out of range'') \<and>
    sv_cfg s' = sv_cfg s"
  using assms(1)
proof (cases rule: Start_cases [OF assms, case_names early nil nat started])
  case (started s1 w1 w2 w3 lr w4)
  have "sv_running s'" by (subst started(5)) simp
  then show ?thesis using started(6-8) by (cases "length (sv_publicKey s') < 8") auto
qed auto

section \<open>Packet filter rules\<close>

text \<open>The commands that add (\<^verbatim>\<open>-A\<close>) or delete (\<^verbatim>\<open>-D\<close>) the three rules.\<close>

definition rule_cmds :: "string \<Rightarrow> string \<Rightarrow> string \<Rightarrow> event list" where
  "rule_cmds action subnet iface =
     [Exec ([''iptables'', ''-t'', ''nat'', action] @ masquerade_rule subnet iface) [],
      Exec ([''iptables'', action] @ forward_in) [], Exec ([''iptables'', action] @ forward_out) []]"

definition route_cmd :: event where
  "route_cmd = Exec [''ip'', ''route'', ''show'', ''default''] []"

text \<open>Commands other than those of the packet filter.\<close>

definition quiet :: "event list \<Rightarrow> bool" where
  "quiet t \<longleftrightarrow> (\<forall>a inp. Exec (''iptables'' # a) inp \<notin> set t)"

definition quietly :: "world \<Rightarrow> world \<Rightarrow> bool" where
  "quietly w w1 \<longleftrightarrow> (\<exists>t. trace w1 = trace w @ t \<and> quiet t)"

lemma quietly_refl [simp]: "trace w1 = trace w \<Longrightarrow> quietly w w1"
  by (simp add: quietly_def quiet_def)

lemma quietly_trans: "quietly w w1 \<Longrightarrow> quietly w1 w2 \<Longrightarrow> quietly w w2"
  by (auto simp: quietly_def quiet_def)

lemma quietly_exec: "trace w1 = trace w @ [Exec (c # a) inp] \<Longrightarrow> c \<noteq> ''iptables'' \<Longrightarrow> quietly w w1"
  by (auto simp: quietly_def quiet_def)

lemma os_step_trace: "os_step (write_file E w p s) = (r, w1) \<Longrightarrow> trace w1 = trace w"
  by (auto simp: os_step_def write_file_def split: option.splits prod.splits)

lemma derive_quietly: "derivePublicKey E k w = (r, w1) \<Longrightarrow> quietly w w1"
  by (rule quietly_exec [of w1 w "''wg''" "[''pubkey'']" k])
     (auto simp: derivePublicKey_def exec_def split: prod.splits option.splits)

lemma generate_quietly: "generateKeyPair E w = (r, w1) \<Longrightarrow> quietly w w1"
proof -
  assume g: "generateKeyPair E w = (r, w1)"
  obtain rk w0 where rk: "rand_key E w = (rk, w0)" by (cases "rand_key E w")
  then have t: "trace w0 = trace w" by (auto simp: rand_key_def split: sum.splits)
  show ?thesis
  proof (cases rk)
    case (Ok key)
    obtain rd w2 where d: "derivePublicKey E (b64_encode (clamp key)) w0 = (rd, w2)"
      by (cases "derivePublicKey E (b64_encode (clamp key)) w0")
    have "w2 = w1" using g rk Ok d by (cases rd) (simp_all add: generateKeyPair_def Let_def)
    then show ?thesis using derive_quietly [OF d] t by (simp add: quietly_def)
  qed (use g rk t in \<open>simp_all add: generateKeyPair_def\<close>)
qed

lemma loadKeys_quietly:
  assumes "loadOrGenerateKeys E (s, w) = (Ok (), s1, w1)"
  shows "quietly w w1"
proof -
  let ?k = "path_join (sv_configDir s) ''server.key''" and ?p = "path_join (sv_configDir s) ''server.pub''"
  obtain rk where rk: "read_file (we_os E) w ?k = (rk, tock w)"
    by (metis prod.collapse snd_read_file)
  obtain rp where rp: "read_file (we_os E) (tock w) ?p = (rp, tock (tock w))"
    by (metis prod.collapse snd_read_file)
  consider d e where "rk = Ok d" "rp = Ok e" | d where "rk = Ok d" "\<And>e. rp \<noteq> Ok e" | "\<And>d. rk \<noteq> Ok d"
    by (metis res.exhaust)
  then show ?thesis
  proof cases
    case (1 d e)
    then have "w1 = tock (tock w)" using assms rk rp by (simp add: loadOrGenerateKeys_def Let_def)
    then show ?thesis by simp
  next
    case (2 d)
    obtain pub w3 where "derivePublicKey E (trim_space d) (tock (tock w)) = (Ok pub, w3)"
      "os_step (write_file (we_os E) w3 ?p (pub @ nl)) = (Ok (), w1)"
      using assms rk rp 2 by (cases rp) (auto simp: loadOrGenerateKeys_def Let_def split: res.splits prod.splits)
    then show ?thesis using derive_quietly os_step_trace by (fastforce simp: quietly_def)
  next
    case 3
    obtain priv pub w2 w3 where g: "generateKeyPair E (tock w) = (Ok (priv, pub), w2)"
      "os_step (write_file (we_os E) w2 ?k (priv @ nl)) = (Ok (), w3)"
      "os_step (write_file (we_os E) w3 ?p (pub @ nl)) = (Ok (), w1)"
      using assms rk 3
      by (cases rk) (auto simp: loadOrGenerateKeys_def Let_def res_simps split: res.splits prod.splits)
    then show ?thesis
      using generate_quietly [OF g(1)] os_step_trace [OF g(2)] os_step_trace [OF g(3)] by (simp add: quietly_def)
  qed
qed

lemma must_cmd_quietly: "must_cmd E what (c # a) w = (r, w1) \<Longrightarrow> c \<noteq> ''iptables'' \<Longrightarrow> quietly w w1"
  using quietly_exec must_cmd_world by blast

lemma run_cmd_quietly: "c \<noteq> ''iptables'' \<Longrightarrow> quietly w (snd (run_cmd E w (c # a)))"
  by (rule quietly_exec [of _ w c a "[]"]) (simp_all add: run_cmd_def exec_def)

lemma file_ops_trace:
  "trace (snd (write_file E w p s)) = trace w" "trace (snd (remove_file E w p)) = trace w"
  "create_temp E w pat = (r, w1) \<Longrightarrow> trace w1 = trace w"
  by (auto simp: write_file_def remove_file_def create_temp_def Let_def split: option.splits if_splits)

lemma configure_quietly: "configure E cfg kf w = (Ok (), w1) \<Longrightarrow> quietly w w1"
proof -
  assume c: "configure E cfg kf w = (Ok (), w1)"
  then obtain wa n where a: "must_cmd E ''configuring interface''
      [''wg'', ''set'', wgInterface, ''listen-port'', show_int (c_WGServerPort cfg), ''private-key'', kf] w = (Ok (), wa)"
    and n: "ParseCIDR (c_WGServerSubnet cfg) = Some n"
    by (auto simp: configure_def res_simps split: option.splits)
  let ?argv = "[''ip'', ''addr'', ''add'', getServerIP cfg @ ''/'' @ show_nat (mask_size (n_Mask n)), ''dev'', wgInterface]"
  obtain out e wb where b: "run_cmd E wa ?argv = ((out, e), wb)" by (metis prod.collapse)
  have "must_cmd E ''bringing up interface'' [''ip'', ''link'', ''set'', wgInterface, ''up''] wb = (Ok (), w1)"
    using c a n b by (simp add: configure_def Let_def split: if_splits)
  then have "quietly wb w1" by (rule must_cmd_quietly) simp
  moreover have "quietly wa wb" by (rule quietly_exec [OF conjunct1 [OF run_cmd_trace [OF b]]]) simp
  moreover have "quietly w wa" using a by (rule must_cmd_quietly) simp
  ultimately show ?thesis using quietly_trans by blast
qed

lemma setupInterface_quietly: "setupInterface E cfg key w = (Ok (), w1) \<Longrightarrow> quietly w w1"
proof -
  assume s: "setupInterface E cfg key w = (Ok (), w1)"
  let ?w0 = "snd (run_cmd E w del_link)"
  obtain wa where a: "must_cmd E ''creating interface'' [''ip'', ''link'', ''add'', wgInterface, ''type'', ''wireguard''] ?w0
      = (Ok (), wa)"
    using s by (auto simp: setupInterface_def res_simps)
  obtain kf wb where b: "create_temp (we_os E) wa ''wg-server-key-*'' = (Ok kf, wb)"
    using s a by (auto simp: setupInterface_def split: res.splits prod.splits)
  let ?wc = "snd (write_file (we_os E) wb kf key)"
  obtain rd wd where d: "configure E cfg kf ?wc = (rd, wd)" by (metis prod.collapse)
  have rd: "rd = Ok ()" "w1 = snd (remove_file (we_os E) wd kf)"
    using s a b d by (simp_all add: setupInterface_def Let_def)
  have "quietly w ?w0" unfolding del_link_def by (rule run_cmd_quietly) simp
  moreover have "quietly ?w0 wa" using a by (rule must_cmd_quietly) simp
  moreover have "quietly wa ?wc" using file_ops_trace(3) [OF b] file_ops_trace(1) [of "we_os E" wb] by simp
  moreover have "quietly ?wc wd" using configure_quietly d rd(1) by blast
  moreover have "quietly wd w1" using rd(2) file_ops_trace(2) by simp
  ultimately show ?thesis using quietly_trans by blast
qed

lemma add_each_trace:
  "trace (add_each E ps w) = trace w @
     map (\<lambda>p. Exec [''wg'', ''set'', wgInterface, ''peer'', p_PublicKey p, ''allowed-ips'', p_AllowedIP p] []) ps"
proof (induction ps arbitrary: w)
  case (Cons p ps)
  have "trace (snd (addPeerToInterface E p w)) = trace w @
      [Exec [''wg'', ''set'', wgInterface, ''peer'', p_PublicKey p, ''allowed-ips'', p_AllowedIP p] []]"
    using must_cmd_world [OF prod.collapse [symmetric]] by (simp add: addPeerToInterface_def)
  then show ?case using Cons by (simp add: add_each_def)
qed (simp add: add_each_def)

lemma add_each_quietly: "quietly w (add_each E ps w)"
  by (auto simp: quietly_def quiet_def add_each_trace)

lemma setupNAT_trace:
  assumes "setupNAT E cfg w = (Ok (), w1)"
  shows "\<exists>iface. trace w1 = trace w @ route_cmd # rule_cmds ''-A'' (c_WGServerSubnet cfg) iface"
proof -
  obtain wa where a: "os_step (write_file (we_os E) w ''/proc/sys/net/ipv4/ip_forward'' ''1'') = (Ok (), wa)"
    using assms by (auto simp: setupNAT_def res_simps)
  obtain iface wb where b: "getDefaultInterface E wa = (iface, wb)" by (metis prod.collapse)
  obtain wc wd where c: "must_cmd E ''adding MASQUERADE rule''
        ([''iptables'', ''-t'', ''nat'', ''-A''] @ masquerade_rule (c_WGServerSubnet cfg) iface) wb = (Ok (), wc)"
      "must_cmd E ''adding FORWARD accept in'' ([''iptables'', ''-A''] @ forward_in) wc = (Ok (), wd)"
      "must_cmd E ''adding FORWARD accept out'' ([''iptables'', ''-A''] @ forward_out) wd = (Ok (), w1)"
    using assms a b by (auto simp: setupNAT_def res_simps)
  show ?thesis
    using os_step_trace [OF a] default_iface_trace [OF b] must_cmd_world [OF c(1)] must_cmd_world [OF c(2)]
      must_cmd_world [OF c(3)]
    by (intro exI [of _ iface]) (simp add: rule_cmds_def route_cmd_def)
qed

lemma teardownNAT_trace:
  "trace (teardownNAT E cfg w) = trace w @ route_cmd # rule_cmds ''-D'' (c_WGServerSubnet cfg) (fst (getDefaultInterface E w))"
proof -
  obtain iface wa where i: "getDefaultInterface E w = (iface, wa)" by (metis prod.collapse)
  then show ?thesis
    using default_iface_trace [OF i]
    by (simp add: teardownNAT_def run_cmd_def exec_def rule_cmds_def route_cmd_def Let_def)
qed

text \<open>
  C25. A successful start adds exactly the three packet filter rules, once each and as its last
  commands; a stop then deletes the same three rules in the same order, as long as the default route
  still goes through the same interface, and removes the WireGuard interface.
\<close>

theorem Stop_takes_back_rules:
  assumes "wg_Start E (s, w) = (Ok (), s1, w1)" and "\<not> sv_running s"
  shows "\<exists>iface t. quiet t \<and> trace w1 = trace w @ t @ rule_cmds ''-A'' (c_WGServerSubnet (sv_cfg s)) iface \<and>
    (\<forall>E2 w2. fst (getDefaultInterface E2 w2) = iface \<longrightarrow>
       \<not> sv_running (fst (wg_Stop E2 (s1, w2))) \<and>
       trace (snd (wg_Stop E2 (s1, w2))) =
         trace w2 @ route_cmd # rule_cmds ''-D'' (c_WGServerSubnet (sv_cfg s)) iface @ [Exec del_link []])"
  using assms
proof (cases rule: Start_cases [OF assms, case_names early nil nat started])
  case (started sk wa wb wc lr wd)
  have run: "sv_running s1" by (subst started(5)) simp
  have "quietly w wa"
    using started(9) by (auto simp: mkdir_all_def quietly_def quiet_def split: option.splits)
  moreover have "quietly wa wb" using loadKeys_quietly started(1) by blast
  moreover have "quietly wb wc"
    using started(2) by (auto simp: ps_Load_def read_file_def quietly_def quiet_def split: option.splits os_err.splits)
  moreover have "quietly wc wd" using setupInterface_quietly started(3) by blast
  moreover have "quietly wd (add_each E (peers_of s1) wd)" by (rule add_each_quietly)
  ultimately have q: "quietly w (add_each E (peers_of s1) wd)" using quietly_trans by blast
  obtain iface where i: "trace w1 = trace (add_each E (peers_of s1) wd) @ route_cmd # rule_cmds ''-A'' (c_WGServerSubnet (sv_cfg s)) iface"
    using setupNAT_trace [OF started(4)] by blast
  obtain t where t: "trace (add_each E (peers_of s1) wd) = trace w @ t" "quiet t" using q by (auto simp: quietly_def)
  have "quiet (t @ [route_cmd])" using t(2) by (auto simp: quiet_def route_cmd_def)
  moreover have "trace w1 = trace w @ (t @ [route_cmd]) @ rule_cmds ''-A'' (c_WGServerSubnet (sv_cfg s)) iface"
    using i t(1) by simp
  moreover have "\<not> sv_running (fst (wg_Stop E2 (s1, w2))) \<and> trace (snd (wg_Stop E2 (s1, w2))) =
         trace w2 @ route_cmd # rule_cmds ''-D'' (c_WGServerSubnet (sv_cfg s)) iface @ [Exec del_link []]"
    if "fst (getDefaultInterface E2 w2) = iface" for E2 w2
    using run that started(6) teardownNAT_trace [of E2 "sv_cfg s" w2]
    by (simp add: wg_Stop_def teardownInterface_def run_cmd_def exec_def)
  ultimately show ?thesis by blast
qed simp_all

lemma must_cmd_Err: "must_cmd E what a w = (Err (Cmd what' out e), w1) \<Longrightarrow> what' = what"
  by (auto simp: must_cmd_def split: prod.splits option.splits)

text \<open>
  A start that fails at the second packet filter rule leaves the first one behind: its last
  commands are the addition of the MASQUERADE rule, the failed addition and the removal of the
  interface, and since the server counts as stopped a later stop does nothing.
\<close>

theorem failed_start_leaves_nat_rule:
  assumes "wg_Start E (s, w) = (Err (Wrap ''setting up NAT'' (Cmd ''adding FORWARD accept in'' out e)), s', w')"
    and "\<not> sv_running s"
  shows "\<exists>iface t. trace w' = t @ [hd (rule_cmds ''-A'' (c_WGServerSubnet (sv_cfg s)) iface),
      Exec ([''iptables'', ''-A''] @ forward_in) [], Exec del_link []] \<and>
    wg_Stop E (s', w') = (s', w')"
proof (cases rule: Start_cases [OF assms, case_names early nil nat started])
  case (early d)
  then show ?thesis by auto
next
  case (nat d w4 w5)
  then have n: "setupNAT E (sv_cfg s) (add_each E (peers_of s') w4) = (Err (Cmd ''adding FORWARD accept in'' out e), w5)"
    by simp
  obtain wa where a: "os_step (write_file (we_os E) (add_each E (peers_of s') w4) ''/proc/sys/net/ipv4/ip_forward'' ''1'') = (Ok (), wa)"
    using n by (auto simp: setupNAT_def res_simps)
  obtain iface wb where b: "getDefaultInterface E wa = (iface, wb)" by (metis prod.collapse)
  let ?masq = "[''iptables'', ''-t'', ''nat'', ''-A''] @ masquerade_rule (c_WGServerSubnet (sv_cfg s)) iface"
  obtain wc where c: "must_cmd E ''adding MASQUERADE rule'' ?masq wb = (Ok (), wc)"
    and d: "must_cmd E ''adding FORWARD accept in'' ([''iptables'', ''-A''] @ forward_in) wc
        = (Err (Cmd ''adding FORWARD accept in'' out e), w5)"
    using n a b by (auto simp: setupNAT_def res_simps dest: must_cmd_Err)
  have "trace w' = trace wb @ [Exec ?masq [], Exec ([''iptables'', ''-A''] @ forward_in) [], Exec del_link []]"
    using must_cmd_world [OF c] must_cmd_world [OF d] nat(6)
    by (simp add: teardownInterface_def run_cmd_def exec_def)
  moreover have "wg_Stop E (s', w') = (s', w')" using nat(2) by (simp add: wg_Stop_def)
  ultimately show ?thesis
    by (intro exI [of _ iface] exI [of _ "trace wb"]) (simp add: rule_cmds_def)
next
  case (started s1 w1 w2 w3 lr w4)
  then show ?thesis by (simp split: if_splits)
qed simp

section \<open>Peers survive a restart\<close>

lemma load_keys_frame:
  assumes "loadOrGenerateKeys E (s, w) = (Ok (), s1, w1)"
    and "path_clean q \<noteq> path_clean (key_path s)" and "path_clean q \<noteq> path_clean (pub_path s)"
  shows "file_at w1 q = file_at w q"
proof -
  let ?k = "path_join (sv_configDir s) ''server.key''" and ?p = "path_join (sv_configDir s) ''server.pub''"
  have ne: "path_clean q \<noteq> path_clean ?k" "path_clean q \<noteq> path_clean ?p"
    using assms(2,3) by (simp_all add: key_path_def pub_path_def)
  obtain rk where rk: "read_file (we_os E) w ?k = (rk, tock w)"
    by (metis prod.collapse snd_read_file)
  obtain rp where rp: "read_file (we_os E) (tock w) ?p = (rp, tock (tock w))"
    by (metis prod.collapse snd_read_file)
  consider d e where "rk = Ok d" "rp = Ok e" | d where "rk = Ok d" "\<And>e. rp \<noteq> Ok e" | "\<And>d. rk \<noteq> Ok d"
    by (metis res.exhaust)
  then show ?thesis
  proof cases
    case (1 d e)
    then have "w1 = tock (tock w)" using assms(1) rk rp by (simp add: loadOrGenerateKeys_def Let_def)
    then show ?thesis by simp
  next
    case (2 d)
    obtain pub w3 where p: "derivePublicKey E (trim_space d) (tock (tock w)) = (Ok pub, w3)"
      "os_step (write_file (we_os E) w3 ?p (pub @ nl)) = (Ok (), w1)"
      using assms(1) rk rp 2 by (cases rp) (auto simp: loadOrGenerateKeys_def Let_def split: res.splits prod.splits)
    have "file_at w3 q = file_at w q" using derive_files [OF p(1)] by (simp add: file_at_def)
    then show ?thesis using os_step_write [OF p(2)] ne by metis
  next
    case 3
    obtain priv pub w2 w3 where g: "generateKeyPair E (tock w) = (Ok (priv, pub), w2)"
      "os_step (write_file (we_os E) w2 ?k (priv @ nl)) = (Ok (), w3)"
      "os_step (write_file (we_os E) w3 ?p (pub @ nl)) = (Ok (), w1)"
      using assms(1) rk 3
      by (cases rk) (auto simp: loadOrGenerateKeys_def Let_def res_simps split: res.splits prod.splits)
    have "files w2 = files w"
    proof -
      obtain key w0 where k: "rand_key E (tock w) = (Ok key, w0)" "derivePublicKey E (b64_encode (clamp key)) w0 = (Ok pub, w2)"
        using g(1) by (auto simp: generateKeyPair_def res_simps Let_def)
      then show ?thesis using derive_files [OF k(2)] by (auto simp: rand_key_def split: sum.splits)
    qed
    then have "file_at w2 q = file_at w q" by (simp add: file_at_def)
    then show ?thesis using os_step_write [OF g(2)] os_step_write [OF g(3)] ne by metis
  qed
qed

lemma Done_saved:
  assumes "wg_step E op (s, w) = (Some None, s', w')" and "wg_inv s"
  shows "\<exists>v. encode_peers (sv_peers s') = Some v \<and> sv_configDir s' = sv_configDir s \<and>
    ps_filePath (sv_peers s') = ps_filePath (sv_peers s) \<and>
    file_at w' (ps_filePath (sv_peers s')) = Some (MarshalIndent v)"
proof (cases op)
  case (OpAdd n)
  then obtain cc where a: "AddPeer E n (s, w) = (Ok cc, s', w')"
    using assms(1) by (auto split: prod.splits res.splits)
  show ?thesis using a
  proof (cases rule: AddPeer_cases)
    case (stored priv pub addr wk w2 w3 ep)
    have "sv_configDir s' = sv_configDir s" using stored(3) by (simp add: added_def)
    then show ?thesis
      using ps_Add_Ok_file [OF stored(4)] endpoint_files [OF stored(5)] by (auto simp: file_at_def)
  next
    case unchanged
    then show ?thesis by blast
  qed simp
next
  case (OpRemove n)
  then have a: "RemovePeer E n (s, w) = (Ok (), s', w')"
    using assms(1) by (auto split: prod.splits res.splits)
  have nn: "no_nil (sv_peers s)" using assms(2) by (simp add: wg_inv_def)
  show ?thesis
  proof (cases rule: RemovePeer_cases [OF a nn, case_names unchanged removed])
    case (removed p w1 rr)
    have rm: "ps_Remove (we_os E) w1 (sv_peers s) n = ((Ok (), sv_peers s'), w')" using removed(4,6) by simp
    have "ps_Save (we_os E) w1 (sv_peers s') = (Ok (), w')"
      using rm by (auto simp: ps_Remove_def Let_def split: prod.splits option.splits res.splits)
    moreover have "ps_filePath (snd (fst (ps_Remove (we_os E) w1 (sv_peers s) n))) = ps_filePath (sv_peers s)"
      by (simp add: ps_Remove_def Let_def split: prod.splits option.splits res.splits)
    ultimately have "\<exists>v. encode_peers (sv_peers s') = Some v \<and> ps_filePath (sv_peers s') = ps_filePath (sv_peers s) \<and>
        file_at w' (ps_filePath (sv_peers s')) = Some (MarshalIndent v)"
      using rm by (auto simp: ps_Save_def split: option.splits prod.splits dest: write_file_ok)
    moreover have "sv_configDir s' = sv_configDir s" by (subst removed(5)) simp
    ultimately show ?thesis by blast
  qed simp
qed

text \<open>
  C10. After a successful request to add or remove a peer, a server that starts on the same directory
  and can read the peers file runs with exactly these peers, in the same order, and has set each of
  them on the WireGuard interface; the strings only have to be valid UTF-8.
\<close>

theorem peers_survive_restart:
  assumes "wg_step E op (s, w) = (Some None, s', w')" and "wg_inv s" and "peers_ok (sv_peers s')"
    and "sv_peers s2 = NewPeerStore (ps_filePath (sv_peers s'))" and "\<not> sv_running s2"
    and "path_clean (ps_filePath (sv_peers s')) \<notin> {path_clean (key_path s2), path_clean (pub_path s2)}"
    and "\<forall>n p. read_fault (we_os E2) n p = None"
    and "wg_Start E2 (s2, w') = (Ok (), s3, w3)"
  shows "peers_of s3 = peers_of s' \<and>
    (\<forall>p\<in>set (peers_of s'). Exec [''wg'', ''set'', ''wg-server'', ''peer'', p_PublicKey p, ''allowed-ips'', p_AllowedIP p] []
        \<in> set (trace w3))"
proof -
  let ?f = "ps_filePath (sv_peers s')"
  obtain v where v: "encode_peers (sv_peers s') = Some v" "file_at w' ?f = Some (MarshalIndent v)"
    using Done_saved [OF assms(1,2)] by blast
  show ?thesis using assms(8)
  proof (cases rule: Start_cases [OF assms(8,5), case_names early nil nat started])
    case (started sk wa wb wc lr wd)
    have "file_at wa ?f = Some (MarshalIndent v)"
      using started(9) v(2) by (auto simp: mkdir_all_def file_at_def split: option.splits)
    then have f: "file_at wb ?f = Some (MarshalIndent v)"
      using load_keys_frame [OF started(1)] assms(6) by auto
    obtain v2 where v2: "encode_peers (sv_peers s') = Some v2"
      "decode_peers v2 = Some (ps_peers (sv_peers s'), ps_nil (sv_peers s'))"
      "json_parse (MarshalIndent v2) = Some v2"
      using decode_encode_store [OF assms(3)] by blast
    have vv: "v2 = v" using v(1) v2(1) by simp
    have "read_file (we_os E2) wb ?f = (Ok (MarshalIndent v), tock wb)"
      using f assms(7) by (simp add: read_file_def)
    then have "ps_Load (we_os E2) wb (sv_peers s2) = ((Ok (), sv_peers s'), tock wb)"
      using v2 vv assms(4) by (simp add: ps_Load_def NewPeerStore_def)
    then have same: "sv_peers s3 = sv_peers s'" using started(2) by simp
    obtain iface where i: "trace w3 = trace (add_each E2 (peers_of s3) wd) @ route_cmd # rule_cmds ''-A'' (c_WGServerSubnet (sv_cfg s2)) iface"
      using setupNAT_trace [OF started(4)] by blast
    have "set (trace (add_each E2 (peers_of s3) wd)) \<subseteq> set (trace w3)" unfolding i by auto
    then show ?thesis
      using same by (auto simp: peers_of_def add_each_trace wgInterface_def)
  qed simp_all
qed

section \<open>Examples\<close>

text \<open>The second packet filter rule is refused.\<close>

definition fail_env :: wg_env where
  "fail_env = demo_env\<lparr>we_os := (we_os demo_env)\<lparr>exec_result := (\<lambda>_ argv _.
     if argv = [''iptables'', ''-A''] @ forward_in then (''no such chain'', Some ''exit status 1'')
     else (if argv = [''wg'', ''pubkey''] then ''clientkey'' else [], None))\<rparr>\<rparr>"

definition obliging :: "wg_env \<Rightarrow> bool" where
  "obliging E \<longleftrightarrow>
     (\<forall>n p. read_fault (we_os E) n p = None \<and> write_fault (we_os E) n p = None \<and>
            temp_fault (we_os E) n p = None \<and> we_mkdir E n p = None) \<and>
     temp_dir (we_os E) = ''/tmp'' \<and> temp_rand (we_os E) = (\<lambda>_. ''7'') \<and>
     (\<forall>n c a i. c \<noteq> ''iptables'' \<longrightarrow> (\<exists>out. exec_result (we_os E) n (c # a) i = (out, None))) \<and>
     (\<forall>n i. exec_result (we_os E) n [''wg'', ''pubkey''] i = (''clientkey'', None)) \<and>
     (\<forall>n. entropy (we_os E) n = Inr (replicate 32 255))"

lemma obliging_envs: "obliging demo_env" "obliging fail_env"
  by (simp_all add: obliging_def demo_env_def fail_env_def)

abbreviation fresh :: wgserver where
  "fresh \<equiv> NewWgServer (demo_cfg ''10.100.0.0/24'')"

lemma demo_paths:
  "path_join ''/etc/wg-proxy'' ''server.key'' = ''/etc/wg-proxy/server.key''"
  "path_join ''/etc/wg-proxy'' ''server.pub'' = ''/etc/wg-proxy/server.pub''"
  "path_join ''/etc/wg-proxy'' ''peers.json'' = ''/etc/wg-proxy/peers.json''"
  "path_clean ''/etc/wg-proxy/server.key'' = ''/etc/wg-proxy/server.key''"
  "path_clean ''/etc/wg-proxy/server.pub'' = ''/etc/wg-proxy/server.pub''"
  "path_clean ''/etc/wg-proxy/peers.json'' = ''/etc/wg-proxy/peers.json''"
  "path_clean ''/tmp/wg-server-key-7'' = ''/tmp/wg-server-key-7''"
  "path_clean ''/p'' = ''/p''"
  "temp_path E n ''wg-server-key-*'' = temp_dir E @ ''/wg-server-key-'' @ temp_rand E n"
  by (code_simp+, simp add: temp_path_def)

lemma obliging_must:
  "obliging E \<Longrightarrow> c \<noteq> ''iptables'' \<Longrightarrow> \<exists>w1. must_cmd E what (c # a) w = (Ok (), w1)"
  unfolding obliging_def must_cmd_def run_cmd_def exec_def by (smt (verit) old.prod.case option.case(1))

lemma obliging_setupInterface:
  assumes E: "obliging E" and f: "map_of (files w) ''/tmp/wg-server-key-7'' = None"
  shows "\<exists>w1. setupInterface E (demo_cfg ''10.100.0.0/24'') key w = (Ok (), w1)"
proof -
  have n: "ParseCIDR (c_WGServerSubnet (demo_cfg ''10.100.0.0/24''))
      = Some \<lparr>n_IP = [10, 100, 0, 0], n_Mask = [255, 255, 255, 0]\<rparr>" by code_simp
  have c: "\<exists>w1. configure E (demo_cfg ''10.100.0.0/24'') kf w = (Ok (), w1)" for kf w
  proof -
    obtain wa where a: "must_cmd E ''configuring interface''
        [''wg'', ''set'', wgInterface, ''listen-port'', show_int (c_WGServerPort (demo_cfg ''10.100.0.0/24'')),
         ''private-key'', kf] w = (Ok (), wa)"
      using obliging_must [OF E] by fastforce
    have r: "\<exists>out w2. run_cmd E wa (''ip'' # x) = ((out, None), w2)" for x
      using E by (auto simp: obliging_def run_cmd_def exec_def)
    have u: "\<exists>w3. must_cmd E ''bringing up interface'' [''ip'', ''link'', ''set'', wgInterface, ''up''] w2 = (Ok (), w3)" for w2
      using obliging_must [OF E] by fastforce
    obtain out w2 where "run_cmd E wa [''ip'', ''addr'', ''add'',
        getServerIP (demo_cfg ''10.100.0.0/24'') @ ''/'' @ show_nat (mask_size [255, 255, 255, 0]), ''dev'', wgInterface]
        = ((out, None), w2)" using r by blast
    then show ?thesis using a n u [of w2] by (auto simp: configure_def Let_def)
  qed
  obtain wa where a: "must_cmd E ''creating interface'' [''ip'', ''link'', ''add'', wgInterface, ''type'', ''wireguard'']
      (snd (run_cmd E w del_link)) = (Ok (), wa)"
    using obliging_must [OF E] by fastforce
  have fa: "file_at wa ''/tmp/wg-server-key-7'' = None"
    using must_cmd_world [OF a] f by (simp add: file_at_def demo_paths)
  obtain wb where b: "create_temp (we_os E) wa ''wg-server-key-*'' = (Ok ''/tmp/wg-server-key-7'', wb)"
    using E fa by (simp add: create_temp_def obliging_def demo_paths Let_def)
  obtain wc where "configure E (demo_cfg ''10.100.0.0/24'') ''/tmp/wg-server-key-7''
      (snd (write_file (we_os E) wb ''/tmp/wg-server-key-7'' key)) = (Ok (), wc)"
    using c by blast
  then show ?thesis using a b by (simp add: setupInterface_def Let_def)
qed

lemma obliging_Start:
  assumes E: "obliging E" and s: "\<not> sv_running s" "sv_cfg s = demo_cfg ''10.100.0.0/24''"
    and k: "loadOrGenerateKeys E (s, snd (mkdir_all E (sv_configDir s) w)) = (Ok (), s1, w2)"
    and l: "ps_Load (we_os E) w2 (sv_peers s) = ((lr, ps), w3)" and nn: "no_nil ps"
    and f: "map_of (files w3) ''/tmp/wg-server-key-7'' = None"
  shows "\<exists>w4. wg_Start E (s, w) =
    (case setupNAT E (sv_cfg s) (add_each E (ps_items ps) w4) of
       (Ok _, w5) \<Rightarrow>
         (if length (sv_publicKey s1) < 8 then Panic ''slice bounds out of range'' else Ok (),
          s1\<lparr>sv_peers := ps, sv_running := True\<rparr>, w5)
     | (Err e, w5) \<Rightarrow> (Err (Wrap ''setting up NAT'' e), s1\<lparr>sv_peers := ps\<rparr>, teardownInterface E w5)
     | (Panic p, w5) \<Rightarrow> (Panic p, s1\<lparr>sv_peers := ps\<rparr>, w5))"
proof -
  obtain w1 where m: "mkdir_all E (sv_configDir s) w = (Ok (), w1)"
    using E by (simp add: mkdir_all_def obliging_def)
  have k: "loadOrGenerateKeys E (s, w1) = (Ok (), s1, w2)" using k m by simp
  note inv = loadKeys_running [OF k]
  obtain w4 where i: "setupInterface E (demo_cfg ''10.100.0.0/24'') (sv_privateKey s1) w3 = (Ok (), w4)"
    using obliging_setupInterface [OF E f] by blast
  obtain r5 w5 where n: "setupNAT E (sv_cfg s) (add_each E (ps_items ps) w4) = (r5, w5)" by (metis prod.collapse)
  have "wg_Start E (s, w) = (case (r5, w5) of
       (Ok _, w5) \<Rightarrow>
         (if length (sv_publicKey s1) < 8 then Panic ''slice bounds out of range'' else Ok (),
          s1\<lparr>sv_peers := ps, sv_running := True\<rparr>, w5)
     | (Err e, w5) \<Rightarrow> (Err (Wrap ''setting up NAT'' e), s1\<lparr>sv_peers := ps\<rparr>, teardownInterface E w5)
     | (Panic p, w5) \<Rightarrow> (Panic p, s1\<lparr>sv_peers := ps\<rparr>, w5))"
    using s m k l inv i n ps_List_items [OF nn, where 'a = wg_err]
    by (cases r5) (simp_all add: wg_Start_def Let_def)
  then show ?thesis using n by (intro exI [of _ w4]) simp
qed

lemma NAT_forwarding: "os_step (write_file (we_os demo_env) w p s) = (Ok (), snd (write_file (we_os demo_env) w p s))"
    "os_step (write_file (we_os fail_env) w p s) = (Ok (), snd (write_file (we_os fail_env) w p s))"
  by (simp_all add: os_step_def write_file_def demo_env_def fail_env_def)

lemma demo_must: "\<exists>w1. must_cmd demo_env what a w = (Ok (), w1)"
  by (simp add: must_cmd_def run_cmd_def exec_def demo_env_def)

lemma fail_must:
  "a \<noteq> [''iptables'', ''-A''] @ forward_in \<Longrightarrow> \<exists>w1. must_cmd fail_env what a w = (Ok (), w1)"
  "\<exists>w1. must_cmd fail_env what ([''iptables'', ''-A''] @ forward_in) w = (Err (Cmd what ''no such chain'' ''exit status 1''), w1)"
  by (simp_all add: must_cmd_def run_cmd_def exec_def fail_env_def)

lemma demo_setupNAT: "\<exists>w5. setupNAT demo_env cfg w = (Ok (), w5)"
proof -
  let ?w1 = "snd (write_file (we_os demo_env) w ''/proc/sys/net/ipv4/ip_forward'' ''1'')"
  obtain iface w2 where i: "getDefaultInterface demo_env ?w1 = (iface, w2)" by (metis prod.collapse)
  obtain w3 where c: "must_cmd demo_env ''adding MASQUERADE rule''
      ([''iptables'', ''-t'', ''nat'', ''-A''] @ masquerade_rule (c_WGServerSubnet cfg) iface) w2 = (Ok (), w3)"
    using demo_must by blast
  obtain w4 where d: "must_cmd demo_env ''adding FORWARD accept in'' ([''iptables'', ''-A''] @ forward_in) w3 = (Ok (), w4)"
    using demo_must by blast
  obtain w5 where "must_cmd demo_env ''adding FORWARD accept out'' ([''iptables'', ''-A''] @ forward_out) w4 = (Ok (), w5)"
    using demo_must by blast
  then show ?thesis using i c d by (simp add: setupNAT_def NAT_forwarding)
qed

lemma fail_setupNAT:
  "\<exists>w5. setupNAT fail_env cfg w = (Err (Cmd ''adding FORWARD accept in'' ''no such chain'' ''exit status 1''), w5)"
proof -
  let ?w1 = "snd (write_file (we_os fail_env) w ''/proc/sys/net/ipv4/ip_forward'' ''1'')"
  obtain iface w2 where i: "getDefaultInterface fail_env ?w1 = (iface, w2)" by (metis prod.collapse)
  have "\<exists>w3. must_cmd fail_env ''adding MASQUERADE rule''
      ([''iptables'', ''-t'', ''nat'', ''-A''] @ masquerade_rule (c_WGServerSubnet cfg) iface) w2 = (Ok (), w3)"
    by (rule fail_must(1)) simp
  then obtain w3 where c: "must_cmd fail_env ''adding MASQUERADE rule''
      ([''iptables'', ''-t'', ''nat'', ''-A''] @ masquerade_rule (c_WGServerSubnet cfg) iface) w2 = (Ok (), w3)"
    by blast
  obtain w4 where "must_cmd fail_env ''adding FORWARD accept in'' ([''iptables'', ''-A''] @ forward_in) w3
      = (Err (Cmd ''adding FORWARD accept in'' ''no such chain'' ''exit status 1''), w4)"
    using fail_must(2) by blast
  then show ?thesis using i c by (simp add: setupNAT_def NAT_forwarding)
qed

text \<open>A start without a key file: the keys are generated.\<close>

lemma obliging_keys:
  assumes E: "obliging E" and d: "sv_configDir s = ''/etc/wg-proxy''" and w: "file_at w ''/etc/wg-proxy/server.key'' = None"
  shows "\<exists>priv w2. loadOrGenerateKeys E (s, w) =
      (Ok (), s\<lparr>sv_privateKey := priv, sv_publicKey := ''clientkey''\<rparr>, w2) \<and>
    (\<forall>q. path_clean q \<noteq> ''/etc/wg-proxy/server.key'' \<longrightarrow> path_clean q \<noteq> ''/etc/wg-proxy/server.pub'' \<longrightarrow>
      file_at w2 q = file_at w q)"
proof -
  have t: "trim_space ''clientkey'' = ''clientkey''" by code_simp
  have r: "read_file (we_os E) w ''/etc/wg-proxy/server.key''
      = (Err (NotExist (''open '' @ ''/etc/wg-proxy/server.key'' @ '': no such file or directory'')), tock w)"
    using E w by (simp add: read_file_def obliging_def)
  obtain priv w1 where g: "generateKeyPair E (tock w) = (Ok (priv, ''clientkey''), w1)" "files w1 = files w"
    using E t by (simp add: generateKeyPair_def rand_key_def derivePublicKey_def exec_def obliging_def Let_def)
  let ?wa = "snd (write_file (we_os E) w1 ''/etc/wg-proxy/server.key'' (priv @ nl))"
  let ?wb = "snd (write_file (we_os E) ?wa ''/etc/wg-proxy/server.pub'' (''clientkey'' @ nl))"
  have wr: "os_step (write_file (we_os E) v p x) = (Ok (), snd (write_file (we_os E) v p x))" for v p x
    using E by (simp add: os_step_def write_file_def obliging_def)
  have "loadOrGenerateKeys E (s, w) = (Ok (), s\<lparr>sv_privateKey := priv, sv_publicKey := ''clientkey''\<rparr>, ?wb)"
    using r g wr d by (simp add: loadOrGenerateKeys_def demo_paths Let_def)
  moreover have "file_at ?wb q = file_at w q"
    if "path_clean q \<noteq> ''/etc/wg-proxy/server.key''" "path_clean q \<noteq> ''/etc/wg-proxy/server.pub''" for q
    using that g(2) write_file_frame [of q "''/etc/wg-proxy/server.pub''" "we_os E" ?wa]
      write_file_frame [of q "''/etc/wg-proxy/server.key''" "we_os E" w1]
    by (simp add: demo_paths file_at_def [of w1] file_at_def [of w])
  ultimately show ?thesis by blast
qed

lemma obliging_restart:
  assumes E: "obliging E" and s: "\<not> sv_running s" "sv_cfg s = demo_cfg ''10.100.0.0/24''" "sv_configDir s = ''/etc/wg-proxy''"
    and f: "file_at w ''/etc/wg-proxy/server.key'' = None" "file_at w ''/tmp/wg-server-key-7'' = None"
    and l: "\<And>w2. file_at w2 ''/etc/wg-proxy/peers.json'' = file_at w ''/etc/wg-proxy/peers.json'' \<Longrightarrow>
      ps_Load (we_os E) w2 (sv_peers s) = ((Ok (), ps), tock w2)" and nn: "no_nil ps"
  shows "\<exists>w4. wg_Start E (s, w) =
    (case setupNAT E (sv_cfg s) (add_each E (ps_items ps) w4) of
       (Ok _, w5) \<Rightarrow> (Ok (), fst (snd (wg_Start E (s, w))), w5)
     | (Err e, w5) \<Rightarrow> (Err (Wrap ''setting up NAT'' e), fst (snd (wg_Start E (s, w))), teardownInterface E w5)
     | (Panic p, w5) \<Rightarrow> (Panic p, fst (snd (wg_Start E (s, w))), w5))"
proof -
  let ?w1 = "snd (mkdir_all E (sv_configDir s) w)"
  have fw: "file_at ?w1 q = file_at w q" for q by (simp add: mkdir_all_def file_at_def split: option.split)
  obtain priv w2 where k: "loadOrGenerateKeys E (s, ?w1) =
      (Ok (), s\<lparr>sv_privateKey := priv, sv_publicKey := ''clientkey''\<rparr>, w2)"
    and fr: "\<And>q. path_clean q \<noteq> ''/etc/wg-proxy/server.key'' \<Longrightarrow> path_clean q \<noteq> ''/etc/wg-proxy/server.pub'' \<Longrightarrow>
      file_at w2 q = file_at ?w1 q"
    using obliging_keys [OF E s(3), of ?w1] f(1) fw by auto
  have ld: "ps_Load (we_os E) w2 (sv_peers s) = ((Ok (), ps), tock w2)"
    using fr [of "''/etc/wg-proxy/peers.json''"] fw by (intro l) (simp add: demo_paths)
  have t: "map_of (files (tock w2)) ''/tmp/wg-server-key-7'' = None"
    using fr [of "''/tmp/wg-server-key-7''"] f(2) by (simp add: demo_paths fw) (simp add: file_at_def demo_paths)
  obtain w4 where w4: "wg_Start E (s, w) = (case setupNAT E (sv_cfg s) (add_each E (ps_items ps) w4) of
       (Ok _, w5) \<Rightarrow>
         (if length (sv_publicKey (s\<lparr>sv_privateKey := priv, sv_publicKey := ''clientkey''\<rparr>)) < 8
          then Panic ''slice bounds out of range'' else Ok (),
          s\<lparr>sv_privateKey := priv, sv_publicKey := ''clientkey''\<rparr>\<lparr>sv_peers := ps, sv_running := True\<rparr>, w5)
     | (Err e, w5) \<Rightarrow> (Err (Wrap ''setting up NAT'' e), s\<lparr>sv_privateKey := priv, sv_publicKey := ''clientkey''\<rparr>\<lparr>sv_peers := ps\<rparr>, teardownInterface E w5)
     | (Panic p, w5) \<Rightarrow> (Panic p, s\<lparr>sv_privateKey := priv, sv_publicKey := ''clientkey''\<rparr>\<lparr>sv_peers := ps\<rparr>, w5))"
    using obliging_Start [OF E s(1,2) k ld nn t] by blast
  obtain r5 w5 where "setupNAT E (sv_cfg s) (add_each E (ps_items ps) w4) = (r5, w5)" by (metis prod.collapse)
  then show ?thesis using w4 by (intro exI [of _ w4]) (cases r5; simp)
qed

lemma demo_restart:
  assumes "\<not> sv_running s" "sv_cfg s = demo_cfg ''10.100.0.0/24''" "sv_configDir s = ''/etc/wg-proxy''"
    and "file_at w ''/etc/wg-proxy/server.key'' = None" "file_at w ''/tmp/wg-server-key-7'' = None"
    and "\<And>w2. file_at w2 ''/etc/wg-proxy/peers.json'' = file_at w ''/etc/wg-proxy/peers.json'' \<Longrightarrow>
      ps_Load (we_os demo_env) w2 (sv_peers s) = ((Ok (), ps), tock w2)" and "no_nil ps"
  shows "\<exists>s1 w1. wg_Start demo_env (s, w) = (Ok (), s1, w1)"
proof -
  obtain w4 where w4: "wg_Start demo_env (s, w) =
    (case setupNAT demo_env (sv_cfg s) (add_each demo_env (ps_items ps) w4) of
       (Ok _, w5) \<Rightarrow> (Ok (), fst (snd (wg_Start demo_env (s, w))), w5)
     | (Err e, w5) \<Rightarrow> (Err (Wrap ''setting up NAT'' e), fst (snd (wg_Start demo_env (s, w))), teardownInterface demo_env w5)
     | (Panic p, w5) \<Rightarrow> (Panic p, fst (snd (wg_Start demo_env (s, w))), w5))"
    using obliging_restart [OF obliging_envs(1) assms] by blast
  obtain w5 where "setupNAT demo_env (sv_cfg s) (add_each demo_env (ps_items ps) w4) = (Ok (), w5)"
    using demo_setupNAT by blast
  then have "wg_Start demo_env (s, w) = (Ok (), fst (snd (wg_Start demo_env (s, w))), w5)"
    by (subst w4) simp
  then show ?thesis by blast
qed

text \<open>A new server on an empty machine.\<close>

lemma fresh_server:
  "\<not> sv_running fresh" "sv_cfg fresh = demo_cfg ''10.100.0.0/24''" "sv_configDir fresh = ''/etc/wg-proxy''"
  "sv_peers fresh = NewPeerStore ''/etc/wg-proxy/peers.json''" "no_nil (sv_peers fresh)" "file_at demo_world q = None"
  by (simp_all add: NewWgServer_def no_nil_def NewPeerStore_def file_at_def demo_world_def demo_paths)

lemma fresh_load:
  assumes "obliging E" and "file_at w ''/etc/wg-proxy/peers.json'' = file_at demo_world ''/etc/wg-proxy/peers.json''"
  shows "ps_Load (we_os E) w (sv_peers fresh) = ((Ok (), sv_peers fresh), tock w)"
  using assms by (simp add: ps_Load_def read_file_def obliging_def fresh_server) (simp add: NewPeerStore_def)

lemma demo_Start: "\<exists>s1 w1. wg_Start demo_env (fresh, demo_world) = (Ok (), s1, w1)"
  by (rule demo_restart [OF fresh_server(1-3) fresh_server(6,6) fresh_load [OF obliging_envs(1)] fresh_server(5)])

lemma fail_Start: "\<exists>s1 w1. wg_Start fail_env (fresh, demo_world) =
    (Err (Wrap ''setting up NAT'' (Cmd ''adding FORWARD accept in'' ''no such chain'' ''exit status 1'')), s1, w1)"
proof -
  obtain w4 where w4: "wg_Start fail_env (fresh, demo_world) =
    (case setupNAT fail_env (sv_cfg fresh) (add_each fail_env (ps_items (sv_peers fresh)) w4) of
       (Ok _, w5) \<Rightarrow> (Ok (), fst (snd (wg_Start fail_env (fresh, demo_world))), w5)
     | (Err e, w5) \<Rightarrow> (Err (Wrap ''setting up NAT'' e), fst (snd (wg_Start fail_env (fresh, demo_world))), teardownInterface fail_env w5)
     | (Panic p, w5) \<Rightarrow> (Panic p, fst (snd (wg_Start fail_env (fresh, demo_world))), w5))"
    using obliging_restart [OF obliging_envs(2) fresh_server(1-3) fresh_server(6,6) fresh_load [OF obliging_envs(2)] fresh_server(5)]
    by blast
  obtain w5 where "setupNAT fail_env (sv_cfg fresh) (add_each fail_env (ps_items (sv_peers fresh)) w4) =
      (Err (Cmd ''adding FORWARD accept in'' ''no such chain'' ''exit status 1''), w5)"
    using fail_setupNAT by blast
  then have "wg_Start fail_env (fresh, demo_world) =
      (Err (Wrap ''setting up NAT'' (Cmd ''adding FORWARD accept in'' ''no such chain'' ''exit status 1'')),
       fst (snd (wg_Start fail_env (fresh, demo_world))), teardownInterface fail_env w5)"
    by (subst w4) simp
  then show ?thesis by blast
qed

theorem Start_outcome_witness:
  "\<exists>s1 w1. wg_Start demo_env (fresh, demo_world) = (Ok (), s1, w1) \<and> sv_running s1 \<and> 8 \<le> length (sv_publicKey s1)"
proof -
  obtain s1 w1 where st: "wg_Start demo_env (fresh, demo_world) = (Ok (), s1, w1)" using demo_Start by blast
  then show ?thesis using Start_outcome [OF st fresh_server(1)] by auto
qed

theorem Stop_takes_back_rules_witness:
  "\<exists>s1 w1 iface t. wg_Start demo_env (fresh, demo_world) = (Ok (), s1, w1) \<and>
     trace w1 = t @ rule_cmds ''-A'' ''10.100.0.0/24'' iface"
proof -
  obtain s1 w1 where st: "wg_Start demo_env (fresh, demo_world) = (Ok (), s1, w1)" using demo_Start by blast
  have "c_WGServerSubnet (sv_cfg fresh) = ''10.100.0.0/24''" by (subst fresh_server(2)) (simp add: demo_cfg_def)
  then show ?thesis using st Stop_takes_back_rules [OF st fresh_server(1)] by (metis append_assoc)
qed

theorem failed_start_leaves_nat_rule_witness:
  "\<exists>r s1 w1 iface t. wg_Start fail_env (fresh, demo_world) = (r, s1, w1) \<and> r \<noteq> Ok () \<and>
     trace w1 = t @ [hd (rule_cmds ''-A'' ''10.100.0.0/24'' iface),
       Exec ([''iptables'', ''-A''] @ forward_in) [], Exec del_link []]"
proof -
  obtain s1 w1 where st: "wg_Start fail_env (fresh, demo_world) =
    (Err (Wrap ''setting up NAT'' (Cmd ''adding FORWARD accept in'' ''no such chain'' ''exit status 1'')), s1, w1)"
    using fail_Start by blast
  have "c_WGServerSubnet (sv_cfg fresh) = ''10.100.0.0/24''" by (subst fresh_server(2)) (simp add: demo_cfg_def)
  then show ?thesis using st failed_start_leaves_nat_rule [OF st fresh_server(1)] by (metis res.distinct(1))
qed

text \<open>Two peers, one of which is removed before the restart.\<close>

abbreviation keeper :: wgserver where
  "keeper \<equiv> fresh\<lparr>sv_running := True, sv_publicKey := ''serverkey'',
     sv_peers := (NewPeerStore ''/etc/wg-proxy/peers.json'')\<lparr>ps_peers :=
       [Some (demo_peer ''a'' ''10.100.0.2/32''), Some (demo_peer ''b'' ''10.100.0.3/32'')]\<rparr>\<rparr>"

abbreviation kept :: PeerStore where
  "kept \<equiv> (NewPeerStore ''/etc/wg-proxy/peers.json'')\<lparr>ps_peers := [Some (demo_peer ''b'' ''10.100.0.3/32'')]\<rparr>"

lemma keeper_inv: "wg_inv keeper" "peers_ok kept" "no_nil kept"
proof -
  have "valid_utf8 ''b''" "valid_utf8 ''k''" "valid_utf8 ''s''" "valid_utf8 ''10.100.0.3/32''" by code_simp+
  then have "peer_ok (demo_peer ''b'' ''10.100.0.3/32'')"
    by (simp add: peer_ok_def demo_peer_def new_peer_def time_ok_def zero_time_def days_in_def)
  then show "peers_ok kept" by (simp add: peers_ok_def NewPeerStore_def)
  show "no_nil kept" by (simp add: no_nil_def)
  have ip: "getServerIP (demo_cfg ''10.100.0.0/24'') = ''10.100.0.1''"
    "peer_addr (demo_peer ''a'' ''10.100.0.2/32'') = ''10.100.0.2''"
    "peer_addr (demo_peer ''b'' ''10.100.0.3/32'') = ''10.100.0.3''" by code_simp+
  then show "wg_inv keeper"
    by (simp add: wg_inv_def no_nil_def peers_of_def ps_items_def NewWgServer_def NewPeerStore_def)
       (simp add: demo_peer_def new_peer_def)
qed

lemma keeper_remove:
  "\<exists>s' w' v. wg_step demo_env (OpRemove ''a'') (keeper, demo_world) = (Some None, s', w') \<and> sv_peers s' = kept \<and>
     encode_peers kept = Some v \<and> (\<forall>q. path_clean q \<noteq> ''/etc/wg-proxy/peers.json'' \<longrightarrow> file_at w' q = None) \<and>
     file_at w' ''/etc/wg-proxy/peers.json'' = Some (MarshalIndent v)"
proof -
  have get: "ps_Get (sv_peers keeper) ''a'' = (Ok (Some (demo_peer ''a'' ''10.100.0.2/32'')) :: (wg_err, Peer option) res)"
    by code_simp
  obtain v where v: "encode_peers kept = Some v"
    using decode_encode_store [OF keeper_inv(2)] by blast
  define w1 where "w1 = snd (removePeerFromInterface demo_env (p_PublicKey (demo_peer ''a'' ''10.100.0.2/32'')) demo_world)"
  have f: "file_at w1 q = None" for q
    by (simp add: w1_def removePeerFromInterface_def must_cmd_def run_cmd_def exec_def demo_env_def file_at_def demo_world_def)
  define w2 where "w2 = snd (write_file (we_os demo_env) w1 ''/etc/wg-proxy/peers.json'' (MarshalIndent v))"
  have wr: "write_file (we_os demo_env) w1 ''/etc/wg-proxy/peers.json'' (MarshalIndent v) = (None, w2)"
    by (simp add: w2_def write_file_def demo_env_def)
  have "ps_Remove (we_os demo_env) w1 (sv_peers keeper) ''a'' = ((Ok (), kept), w2)"
    using v wr by (simp add: ps_Remove_def ps_Save_def demo_peer_def new_peer_def NewPeerStore_def)
  then have "RemovePeer demo_env ''a'' (keeper, demo_world) = (Ok (), keeper\<lparr>sv_peers := kept\<rparr>, w2)"
    using get by (simp add: RemovePeer_def w1_def [symmetric] Let_def)
  moreover have "file_at w2 q = None" if "path_clean q \<noteq> ''/etc/wg-proxy/peers.json''" for q
    using f that write_file_frame [of q "''/etc/wg-proxy/peers.json''" "we_os demo_env" w1]
    by (simp add: w2_def demo_paths)
  ultimately show ?thesis using v write_file_ok [OF wr] by simp
qed

theorem peers_survive_restart_witness:
  "\<exists>s' w' s3 w3. wg_step demo_env (OpRemove ''a'') (keeper, demo_world) = (Some None, s', w') \<and>
     wg_Start demo_env (fresh, w') = (Ok (), s3, w3) \<and> peers_of s3 = [demo_peer ''b'' ''10.100.0.3/32'']"
proof -
  obtain s' w' v where st: "wg_step demo_env (OpRemove ''a'') (keeper, demo_world) = (Some None, s', w')"
    and ps: "sv_peers s' = kept" and v: "encode_peers kept = Some v"
    and fr: "\<And>q. path_clean q \<noteq> ''/etc/wg-proxy/peers.json'' \<Longrightarrow> file_at w' q = None"
    and f: "file_at w' ''/etc/wg-proxy/peers.json'' = Some (MarshalIndent v)"
    using keeper_remove by blast
  have "json_parse (MarshalIndent v) = Some v" "decode_peers v = Some (ps_peers kept, ps_nil kept)"
    using decode_encode_store [OF keeper_inv(2)] v by auto
  then have l: "ps_Load (we_os demo_env) w2 (sv_peers fresh) = ((Ok (), kept), tock w2)"
    if "file_at w2 ''/etc/wg-proxy/peers.json'' = file_at w' ''/etc/wg-proxy/peers.json''" for w2
    using that f by (simp add: ps_Load_def read_file_def fresh_server) (simp add: NewPeerStore_def demo_env_def)
  obtain s3 w3 where go: "wg_Start demo_env (fresh, w') = (Ok (), s3, w3)"
    using demo_restart [OF fresh_server(1-3) fr fr l keeper_inv(3)] by (auto simp: demo_paths)
  have "peers_of s3 = peers_of s'"
    by (rule conjunct1 [OF peers_survive_restart [OF st keeper_inv(1) _ _ fresh_server(1) _ _ go]])
       (simp_all add: ps keeper_inv(2) [simplified] fresh_server(4) key_path_def pub_path_def fresh_server(3)
         demo_paths demo_env_def, simp_all add: NewPeerStore_def demo_paths)
  moreover have "peers_of s' = [demo_peer ''b'' ''10.100.0.3/32'']"
    by (simp add: peers_of_def ps ps_items_def NewPeerStore_def)
  ultimately have "peers_of s3 = [demo_peer ''b'' ''10.100.0.3/32'']" by simp
  then show ?thesis using st go by (intro exI conjI)
qed

end
