(* ===== verification/Http.thy ===== *)
theory Http
  imports Peers
begin

text \<open>
  HTTP as the admin interface sees it: a request with its path, body and uploaded file, a response
  with status, headers and body, the routing of \<^verbatim>\<open>http.ServeMux\<close>, and the decoding of a JSON body into
  the fields of a struct. Parsing a multipart form belongs to Go's \<^verbatim>\<open>net/http\<close>; its outcome is part
  of the request.
\<close>

section \<open>Requests and responses\<close>

datatype upload = BadForm | NoFile | UnreadableFile | Uploaded string string

record request =
  rq_method :: string
  rq_path :: string      \<comment> \<open>\<^verbatim>\<open>r.URL.Path\<close>\<close>
  rq_body :: string
  rq_upload :: upload

record response =
  rs_status :: int
  rs_headers :: "(string \<times> string) list"
  rs_body :: string

definition newline :: string where
  "newline = [CHR 0x0A]"

definition http_error :: "string \<Rightarrow> int \<Rightarrow> response" where
  "http_error msg code =
     \<lparr>rs_status = code,
      rs_headers = [(''Content-Type'', ''text/plain; charset=utf-8''), (''X-Content-Type-Options'', ''nosniff'')],
      rs_body = msg @ newline\<rparr>"

definition not_found :: response where
  "not_found = http_error ''404 page not found'' 404"

definition redirect :: "string \<Rightarrow> response" where
  "redirect path = \<lparr>rs_status = 301, rs_headers = [(''Location'', path)], rs_body = []\<rparr>"

text \<open>A value that cannot be encoded leaves the body empty; the status has been sent by then.\<close>

definition writeJSON :: "int \<Rightarrow> json option \<Rightarrow> response" where
  "writeJSON status v =
     \<lparr>rs_status = status, rs_headers = [(''Content-Type'', ''application/json'')],
      rs_body = (case v of None \<Rightarrow> [] | Some j \<Rightarrow> Marshal j @ newline)\<rparr>"

section \<open>Values\<close>

definition JInt :: "int \<Rightarrow> json" where
  "JInt i = JNum (show_int i)"

text \<open>A map with string keys is printed in the order of its keys.\<close>

definition json_map :: "(string \<times> json) list \<Rightarrow> json" where
  "json_map kvs = JObj (map (\<lambda>(k, v). (esc_string k, v)) (sort_key fst kvs))"

definition error_json :: "string \<Rightarrow> json" where
  "error_json txt = JObj [(''error'', JStr txt)]"

definition done_json :: "string \<Rightarrow> string \<Rightarrow> json" where
  "done_json status name = JObj [(''name'', JStr name), (''status'', JStr status)]"

section \<open>Decoding a body\<close>

text \<open>\<^verbatim>\<open>json.NewDecoder(r).Decode\<close> reads one value and ignores what follows it.\<close>

definition first_value :: "string \<Rightarrow> json option" where
  "first_value s = map_option fst (parse_value (2 * length s + 2) 0 s)"

definition parse_int64 :: "string \<Rightarrow> int option" where
  "parse_int64 t =
     (let neg = (t \<noteq> [] \<and> hd t = CHR ''-'');
          ds = (if neg then tl t else t);
          n = (if neg then - int (read_nat ds) else int (read_nat ds))
      in if ds \<noteq> [] \<and> list_all is_digit ds \<and> in_s64 n then Some n else None)"

definition set_int :: "json \<Rightarrow> (int \<Rightarrow> 'a \<Rightarrow> 'a) \<Rightarrow> 'a \<Rightarrow> 'a option" where
  "set_int v f p =
     (case v of JNull \<Rightarrow> Some p | JNum t \<Rightarrow> map_option (\<lambda>i. f i p) (parse_int64 t) | _ \<Rightarrow> None)"

text \<open>The fields of a struct, by their case-folded names.\<close>

type_synonym 'a setters = "(string \<times> (json \<Rightarrow> 'a \<Rightarrow> 'a option)) list"

fun decode_members :: "'a setters \<Rightarrow> 'a \<Rightarrow> (string \<times> json) list \<Rightarrow> 'a option" where
  "decode_members fs p [] = Some p"
| "decode_members fs p ((k, v) # kvs) =
     Option.bind (unquote k) (\<lambda>key.
     Option.bind (case map_of fs (fold_name key) of None \<Rightarrow> Some p | Some f \<Rightarrow> f v p) (\<lambda>q.
       decode_members fs q kvs))"

definition decode_struct :: "'a setters \<Rightarrow> 'a \<Rightarrow> json \<Rightarrow> 'a option" where
  "decode_struct fs zero v =
     (case v of JNull \<Rightarrow> Some zero | JObj kvs \<Rightarrow> decode_members fs zero kvs | _ \<Rightarrow> None)"

definition decode_body :: "'a setters \<Rightarrow> 'a \<Rightarrow> string \<Rightarrow> 'a option" where
  "decode_body fs zero body = Option.bind (first_value body) (decode_struct fs zero)"

section \<open>Routing\<close>

text \<open>\<^verbatim>\<open>cleanPath\<close>: a request for another path than the clean one is redirected there.\<close>

definition clean_path :: "string \<Rightarrow> string" where
  "clean_path p =
     (if p = [] then ''/''
      else (let p1 = (if hd p = CHR ''/'' then p else CHR ''/'' # p);
                np = path_clean p1
            in if last p1 = CHR ''/'' \<and> np \<noteq> ''/'' then np @ ''/'' else np))"

text \<open>The pattern that equals the path, else the longest pattern with a final slash that begins it.\<close>

definition best_pattern :: "string list \<Rightarrow> string \<Rightarrow> string option" where
  "best_pattern pats path =
     (if path \<in> set pats then Some path
      else (case filter (\<lambda>p. has_suffix p ''/'' \<and> has_prefix path p) pats of
          [] \<Rightarrow> None
        | p # ps \<Rightarrow> Some (foldl (\<lambda>a b. if length a < length b then b else a) p ps)))"

end
