(* ===== verification/Durations.thy ===== *)
theory Durations
  imports Timestamp
begin

text \<open>
  The methods of \<^verbatim>\<open>time.Duration\<close> with which the admin interface shows latencies and uptimes:
  rounding half away from zero, whole milliseconds, and printing as in \<^verbatim>\<open>1h2m3.5s\<close>. A duration is a
  number of nanoseconds.
\<close>

definition millisecond :: int where
  "millisecond = 1000000"

definition second :: int where
  "second = 1000000000"

definition Milliseconds :: "int \<Rightarrow> int" where
  "Milliseconds d = go_div d millisecond"

text \<open>\<^verbatim>\<open>Round\<close>, with its two overflow results.\<close>

definition Round :: "int \<Rightarrow> int \<Rightarrow> int" where
  "Round d m =
     (if m \<le> 0 then d
      else if d < 0 then
        (let r = - go_mod d m in
         if 2 * r < m then d + r
         else (let d1 = s64 (d - m + r) in if d1 < d then d1 else - (2 ^ 63)))
      else
        (let r = go_mod d m in
         if 2 * r < m then d - r
         else (let d1 = s64 (d + m - r) in if d < d1 then d1 else 2 ^ 63 - 1)))"

text \<open>The fraction of \<open>v\<close> below \<open>10 ^ prec\<close>, without trailing zeros.\<close>

definition fmt_frac :: "nat \<Rightarrow> nat \<Rightarrow> string" where
  "fmt_frac prec v =
     (if v mod 10 ^ prec = 0 then [] else CHR ''.'' # strip_zeros (pad prec (v mod 10 ^ prec)))"

definition Duration_String :: "int \<Rightarrow> string" where
  "Duration_String d =
     (let u = nat \<bar>d\<bar>;
          s = u div 1000000000;
          body =
            (if u = 0 then ''0s''
             else if u < 1000 then show_nat u @ ''ns''
             else if u < 1000000 then show_nat (u div 1000) @ fmt_frac 3 u @ [CHR 0xC2, CHR 0xB5, CHR ''s'']
             else if u < 1000000000 then show_nat (u div 1000000) @ fmt_frac 6 u @ ''ms''
             else (if 3600 \<le> s then show_nat (s div 3600) @ ''h'' else []) @
                  (if 60 \<le> s then show_nat (s div 60 mod 60) @ ''m'' else []) @
                  show_nat (s mod 60) @ fmt_frac 9 u @ ''s'')
      in if d < 0 then CHR ''-'' # body else body)"

text \<open>Rounding gives a multiple of the unit at most half a unit away.\<close>

lemma Round_nearest:
  assumes "0 \<le> d" and "d + m < 2 ^ 63" and "0 < m"
  shows "\<bar>2 * (Round d m - d)\<bar> \<le> m" and "m dvd Round d m"
proof -
  have r: "go_mod d m = d mod m" using assms by (simp add: go_mod_nonneg)
  have b: "0 \<le> d mod m" "d mod m < m" using assms by simp_all
  have s: "s64 (d + m - d mod m) = d + m - d mod m"
    using assms b by (intro s64_id) (simp add: in_s64_def)
  have R: "Round d m = (if 2 * (d mod m) < m then d - d mod m else d + m - d mod m)"
    using assms b by (simp add: Round_def r s Let_def)
  show "\<bar>2 * (Round d m - d)\<bar> \<le> m" using b by (auto simp: R)
  have "m dvd m + (d - d mod m)" by (simp add: dvd_minus_mod)
  moreover have "m + (d - d mod m) = d + m - d mod m" by simp
  ultimately have "m dvd d + m - d mod m" by (simp only:)
  then show "m dvd Round d m" by (simp add: R dvd_minus_mod)
qed

end
