(* ===== verification/Dashboard.thy ===== *)
theory Dashboard
  imports Health Http Durations
begin

text \<open>
  The dashboard, \<^verbatim>\<open>internal/web/dashboard.go\<close>: the state it shows, the page, and the event streams. Each
  client of the event stream has a channel of eight messages; a broadcast that finds the channel
  full is dropped for that client.
\<close>

section \<open>The state shown\<close>

text \<open>A tunnel, with the time of the look at its clock.\<close>

definition uptime :: "env \<Rightarrow> world \<Rightarrow> int \<Rightarrow> string \<times> world" where
  "uptime E w started =
     (case now E w of (t, w1) \<Rightarrow> (Duration_String (Round (s64 (t - started)) second), w1))"

definition error_field :: "tunnel \<Rightarrow> (string \<times> json) list" where
  "error_field t = (if t_Error t = [] then [] else [(''error'', JStr (t_Error t))])"

definition tunnel_state :: "env \<Rightarrow> world \<Rightarrow> tunnel \<Rightarrow> json \<times> world" where
  "tunnel_state E w t =
     (case (case t_StartedAt t of None \<Rightarrow> ([], w) | Some s \<Rightarrow> uptime E w s) of (up, w1) \<Rightarrow>
        (JObj ([(''name'', JStr (t_Name t)), (''status'', JStr (status_String (t_Status t))),
                (''port'', JInt (t_ProxyPort t)), (''latency_ms'', JInt (Milliseconds (t_Latency t)))]
               @ error_field t @
               [(''bytes_in'', JInt (t_BytesIn t)), (''bytes_out'', JInt (t_BytesOut t)),
                (''conn_count'', JInt (t_ConnCount t)), (''uptime'', JStr up)]), w1))"

fun tunnel_states :: "env \<Rightarrow> manager \<Rightarrow> nat list \<Rightarrow> world \<Rightarrow> json list \<times> world" where
  "tunnel_states E m [] w = ([], w)"
| "tunnel_states E m (i # is) w =
     (case tunnel_state E w (tun m i) of (j, w1) \<Rightarrow>
      case tunnel_states E m is w1 of (js, w2) \<Rightarrow> (j # js, w2))"

text \<open>Sums of counters wrap around like Go's \<^verbatim>\<open>int64\<close>.\<close>

definition total :: "manager \<Rightarrow> (tunnel \<Rightarrow> int) \<Rightarrow> nat list \<Rightarrow> int" where
  "total m f is = foldl (\<lambda>a i. s64 (a + f (tun m i))) 0 is"

definition collectState :: "env \<Rightarrow> manager \<Rightarrow> checker \<Rightarrow> world \<Rightarrow> json \<times> world" where
  "collectState E m c w =
     (let tuns = GetTunnels m; stats = GetStats c in
      case tunnel_states E m tuns w of (js, w1) \<Rightarrow>
        (JObj [(''avg_latency_ms'', JInt (Milliseconds (hs_AvgLatency stats))),
               (''healthy_count'', JInt (hs_HealthyCount stats)),
               (''total_bytes_in'', JInt (total m t_BytesIn tuns)),
               (''total_bytes_out'', JInt (total m t_BytesOut tuns)),
               (''total_checks'', JInt (hs_TotalChecks stats)),
               (''total_conns'', JInt (total m t_ConnCount tuns)),
               (''total_count'', JInt (hs_TotalCount stats)),
               (''tunnels'', JArr js)], w1))"

section \<open>The page\<close>

text \<open>\<open>index\<close> is the embedded file, if it is there.\<close>

definition ServeDashboard :: "string option \<Rightarrow> request \<Rightarrow> response" where
  "ServeDashboard index r =
     (if rq_path r \<noteq> ''/'' \<and> rq_path r \<noteq> ''/index.html'' then not_found
      else (case index of
          None \<Rightarrow> http_error ''Dashboard not found'' 500
        | Some data \<Rightarrow>
            \<lparr>rs_status = 200, rs_headers = [(''Content-Type'', ''text/html; charset=utf-8'')], rs_body = data\<rparr>))"

section \<open>Event streams\<close>

text \<open>A client: the messages in its channel and the body written to it so far.\<close>

record sse_client =
  sc_queue :: "string list"
  sc_body :: string

record dashboard =
  db_clients :: "(nat \<times> sse_client) list"
  db_next :: nat

definition NewDashboard :: dashboard where
  "NewDashboard = \<lparr>db_clients = [], db_next = 0\<rparr>"

definition sse_capacity :: nat where
  "sse_capacity = 8"

definition sse_message :: "string \<Rightarrow> string" where
  "sse_message data = ''data: '' @ data @ newline @ newline"

definition sse_headers :: "(string \<times> string) list" where
  "sse_headers =
     [(''Content-Type'', ''text/event-stream''), (''Cache-Control'', ''no-cache''),
      (''Connection'', ''keep-alive''), (''Access-Control-Allow-Origin'', ''*'')]"

text \<open>The begin of \<^verbatim>\<open>HandleSSE\<close>: the client is registered before the initial state is collected.\<close>

definition sse_open :: "string \<Rightarrow> dashboard \<Rightarrow> nat \<times> dashboard" where
  "sse_open initial d =
     (db_next d,
      d\<lparr>db_clients := (db_next d, \<lparr>sc_queue = [], sc_body = sse_message initial\<rparr>) # db_clients d,
        db_next := Suc (db_next d)\<rparr>)"

text \<open>One turn of its loop: the next message is taken from the channel and written.\<close>

definition sse_forward :: "sse_client \<Rightarrow> sse_client" where
  "sse_forward c =
     (case sc_queue c of
        [] \<Rightarrow> c
      | msg # rest \<Rightarrow> \<lparr>sc_queue = rest, sc_body = sc_body c @ sse_message msg\<rparr>)"

definition sse_turn :: "nat \<Rightarrow> dashboard \<Rightarrow> dashboard" where
  "sse_turn k d =
     d\<lparr>db_clients := map (\<lambda>(i, c). (i, if i = k then sse_forward c else c)) (db_clients d)\<rparr>"

definition sse_close :: "nat \<Rightarrow> dashboard \<Rightarrow> dashboard" where
  "sse_close k d = d\<lparr>db_clients := filter (\<lambda>(i, c). i \<noteq> k) (db_clients d)\<rparr>"

text \<open>A tick of \<^verbatim>\<open>broadcastLoop\<close>.\<close>

definition sse_offer :: "string \<Rightarrow> sse_client \<Rightarrow> sse_client" where
  "sse_offer data c =
     (if length (sc_queue c) < sse_capacity then c\<lparr>sc_queue := sc_queue c @ [data]\<rparr> else c)"

definition broadcast :: "string \<Rightarrow> dashboard \<Rightarrow> dashboard" where
  "broadcast data d = d\<lparr>db_clients := map (apsnd (sse_offer data)) (db_clients d)\<rparr>"

definition broadcast_tick ::
    "env \<Rightarrow> manager \<Rightarrow> checker \<Rightarrow> dashboard \<times> world \<Rightarrow> dashboard \<times> world" where
  "broadcast_tick E m c dw =
     (case dw of (d, w) \<Rightarrow>
      case collectState E m c w of (j, w1) \<Rightarrow> (broadcast (Marshal j) d, w1))"

definition HandleSSE ::
    "env \<Rightarrow> manager \<Rightarrow> checker \<Rightarrow> dashboard \<times> world \<Rightarrow> response \<times> dashboard \<times> world" where
  "HandleSSE E m c dw =
     (case dw of (d, w) \<Rightarrow>
      case collectState E m c w of (j, w1) \<Rightarrow>
        (\<lparr>rs_status = 200, rs_headers = sse_headers, rs_body = sse_message (Marshal j)\<rparr>,
         snd (sse_open (Marshal j) d), w1))"

end
