(* ===== verification/Routing.thy ===== *)
theory Routing
  imports WgServer
begin

text \<open>
  The routing controller of the VPN clients' traffic, \<^verbatim>\<open>internal/wgserver/routing.go\<close>: two fixed lists
  of shell commands, of which one is run when the mode is set. Commands that fail are only logged.
\<close>

section \<open>State\<close>

type_synonym RoutingMode = string

definition ModeDirect :: RoutingMode where
  "ModeDirect = ''direct''"

definition ModeProxied :: RoutingMode where
  "ModeProxied = ''proxied''"

record RoutingController =
  rc_mode :: RoutingMode
  rc_exitCountry :: string
  rc_proxyPort :: int

definition NewRoutingController :: RoutingController where
  "NewRoutingController = \<lparr>rc_mode = ModeDirect, rc_exitCountry = [], rc_proxyPort = 10001\<rparr>"

definition GetMode :: "RoutingController \<Rightarrow> RoutingMode" where
  "GetMode rc = rc_mode rc"

text \<open>The map of \<^verbatim>\<open>GetStatus\<close> in the order in which JSON prints it.\<close>

definition GetStatus :: "RoutingController \<Rightarrow> json" where
  "GetStatus rc =
     JObj [(''exit_country'', JStr (rc_exitCountry rc)), (''mode'', JStr (rc_mode rc)),
           (''proxy_port'', JNum (show_int (rc_proxyPort rc)))]"

section \<open>Commands\<close>

definition redsocks_conf :: "string list" where
  \<open>redsocks_conf =
     [''base {'', ''    log_debug = off;'', ''    log_info = on;'',
      ''    log = "syslog:daemon";'', ''    daemon = on;'', ''    redirector = iptables;'', ''}'',
      ''redsocks {'', ''    local_ip = 127.0.0.1;'', ''    local_port = 12345;'',
      ''    ip = 127.0.0.1;'', ''    port = 1090;'', ''    type = socks5;'', ''}'']\<close>

definition proxied_cmds :: "string list" where
  "proxied_cmds =
     [''iptables -t nat -D POSTROUTING -s 10.100.0.0/24 -j MASQUERADE 2>/dev/null || true'',
      ''iptables -t nat -F WG_PROXY 2>/dev/null || true'',
      ''iptables -t nat -N WG_PROXY 2>/dev/null || true'',
      ''iptables -t nat -A WG_PROXY -d 0.0.0.0/8 -j RETURN'',
      ''iptables -t nat -A WG_PROXY -d 10.0.0.0/8 -j RETURN'',
      ''iptables -t nat -A WG_PROXY -d 127.0.0.0/8 -j RETURN'',
      ''iptables -t nat -A WG_PROXY -d 169.254.0.0/16 -j RETURN'',
      ''iptables -t nat -A WG_PROXY -d 172.16.0.0/12 -j RETURN'',
      ''iptables -t nat -A WG_PROXY -d 192.168.0.0/16 -j RETURN'',
      ''iptables -t nat -A WG_PROXY -d 224.0.0.0/4 -j RETURN'',
      ''iptables -t nat -A WG_PROXY -d 240.0.0.0/4 -j RETURN'',
      ''iptables -t nat -A WG_PROXY -p tcp -j REDIRECT --to-ports 12345'',
      ''iptables -t nat -C PREROUTING -i wg-server -p tcp -j WG_PROXY 2>/dev/null || '' @
        ''iptables -t nat -A PREROUTING -i wg-server -p tcp -j WG_PROXY'',
      ''iptables -t nat -C PREROUTING -i wg-server -p udp --dport 53 -j DNAT --to-destination 1.1.1.1:53 2>/dev/null || '' @
        ''iptables -t nat -A PREROUTING -i wg-server -p udp --dport 53 -j DNAT --to-destination 1.1.1.1:53'',
      ''iptables -t nat -C POSTROUTING -o ens5 -j MASQUERADE 2>/dev/null || '' @
        ''iptables -t nat -A POSTROUTING -o ens5 -j MASQUERADE'',
      ''cat > /etc/redsocks.conf << '' @ [CHR 0x27] @ ''RCONF'' @ [CHR 0x27] @ nl @
        concat (map (\<lambda>l. l @ nl) redsocks_conf) @ ''RCONF'',
      ''systemctl restart redsocks'']"

definition direct_cmds :: "string list" where
  "direct_cmds =
     [''iptables -t nat -D PREROUTING -i wg-server -p tcp -j WG_PROXY 2>/dev/null || true'',
      ''iptables -t nat -D PREROUTING -i wg-server -p udp --dport 53 -j DNAT --to-destination 1.1.1.1:53 2>/dev/null || true'',
      ''iptables -t nat -F WG_PROXY 2>/dev/null || true'',
      ''iptables -t nat -C POSTROUTING -s 10.100.0.0/24 -j MASQUERADE 2>/dev/null || '' @
        ''iptables -t nat -A POSTROUTING -s 10.100.0.0/24 -j MASQUERADE'',
      ''systemctl stop redsocks 2>/dev/null || true'']"

fun runCmds :: "wg_env \<Rightarrow> string list \<Rightarrow> world \<Rightarrow> (wg_err, unit) res \<times> world" where
  "runCmds E [] w = (Ok (), w)"
| "runCmds E (c # cs) w = (case run_cmd E w [''bash'', ''-c'', c] of (_, w1) \<Rightarrow> runCmds E cs w1)"

definition enableProxiedMode :: "wg_env \<Rightarrow> int \<Rightarrow> world \<Rightarrow> (wg_err, unit) res \<times> world" where
  "enableProxiedMode E proxyPort w = runCmds E proxied_cmds w"

definition enableDirectMode :: "wg_env \<Rightarrow> world \<Rightarrow> (wg_err, unit) res \<times> world" where
  "enableDirectMode E w = runCmds E direct_cmds w"

section \<open>Setting the mode\<close>

definition SetMode ::
    "wg_env \<Rightarrow> RoutingMode \<Rightarrow> string \<Rightarrow> int \<Rightarrow> RoutingController \<times> world \<Rightarrow>
       (wg_err, unit) res \<times> RoutingController \<times> world" where
  "SetMode E mode country port rw =
     (case rw of (rc, w) \<Rightarrow>
      if mode = ModeProxied then
        (let port1 = (if port = 0 then 10001 else port) in
         case enableProxiedMode E port1 w of
           (Ok _, w1) \<Rightarrow>
             (Ok (), rc\<lparr>rc_mode := ModeProxied, rc_exitCountry := country, rc_proxyPort := port1\<rparr>, w1)
         | (Err e, w1) \<Rightarrow> (Err e, rc, w1)
         | (Panic p, w1) \<Rightarrow> (Panic p, rc, w1))
      else (case enableDirectMode E w of
          (Ok _, w1) \<Rightarrow> (Ok (), rc\<lparr>rc_mode := ModeDirect, rc_exitCountry := [], rc_proxyPort := 0\<rparr>, w1)
        | (Err e, w1) \<Rightarrow> (Err e, rc, w1)
        | (Panic p, w1) \<Rightarrow> (Panic p, rc, w1)))"

definition SetProxiedFromGold ::
    "wg_env \<Rightarrow> int list \<Rightarrow> string \<Rightarrow> RoutingController \<times> world \<Rightarrow>
       (wg_err, unit) res \<times> RoutingController \<times> world" where
  "SetProxiedFromGold E goldPorts country rw =
     (if goldPorts = [] then (Err (Msg ''no HTTPS-verified backends available''), rw)
      else SetMode E ModeProxied country (goldPorts ! 0) rw)"

section \<open>What a switch does\<close>

definition shell :: "string \<Rightarrow> event" where
  "shell c = Exec [''bash'', ''-c'', c] []"

lemma run_cmd_world: "snd (run_cmd E w argv) = tock (w\<lparr>trace := trace w @ [Exec argv []]\<rparr>)"
  by (simp add: run_cmd_def exec_def)

lemma runCmds_trace:
  "fst (runCmds E cs w) = Ok () \<and> trace (snd (runCmds E cs w)) = trace w @ map shell cs \<and>
   files (snd (runCmds E cs w)) = files w"
proof (induction cs arbitrary: w)
  case (Cons c cs)
  obtain out w1 where r: "run_cmd E w [''bash'', ''-c'', c] = (out, w1)" by (metis prod.collapse)
  then have "w1 = tock (w\<lparr>trace := trace w @ [shell c]\<rparr>)"
    using run_cmd_world [of E w "[''bash'', ''-c'', c]"] by (simp add: shell_def)
  then show ?case using r Cons.IH [of w1] by simp
qed simp

text \<open>
  Setting the mode never fails, whatever the commands answer. It runs the same commands for every
  port and country, and only records these.
\<close>

lemma SetMode_result:
  "fst (SetMode E mode country port (rc, w)) = Ok () \<and>
   fst (snd (SetMode E mode country port (rc, w))) =
     (if mode = ModeProxied
      then \<lparr>rc_mode = ModeProxied, rc_exitCountry = country, rc_proxyPort = (if port = 0 then 10001 else port)\<rparr>
      else \<lparr>rc_mode = ModeDirect, rc_exitCountry = [], rc_proxyPort = 0\<rparr>) \<and>
   trace (snd (snd (SetMode E mode country port (rc, w)))) =
     trace w @ map shell (if mode = ModeProxied then proxied_cmds else direct_cmds)"
proof (cases "mode = ModeProxied")
  case True
  obtain w1 where "runCmds E proxied_cmds w = (Ok (), w1)" "trace w1 = trace w @ map shell proxied_cmds"
    using runCmds_trace [of E proxied_cmds w] by (metis prod.collapse)
  then show ?thesis using True by (simp add: SetMode_def enableProxiedMode_def Let_def)
next
  case False
  obtain w1 where "runCmds E direct_cmds w = (Ok (), w1)" "trace w1 = trace w @ map shell direct_cmds"
    using runCmds_trace [of E direct_cmds w] by (metis prod.collapse)
  then show ?thesis using False by (simp add: SetMode_def enableDirectMode_def)
qed

section \<open>Rules left behind\<close>

text \<open>The text after the last occurrence of a marker, and the text before the first one.\<close>

fun after_last :: "string \<Rightarrow> string \<Rightarrow> string option" where
  "after_last m [] = None"
| "after_last m (c # s) =
     (case after_last m s of
        Some r \<Rightarrow> Some r
      | None \<Rightarrow> if has_prefix (c # s) m then Some (drop (length m) (c # s)) else None)"

fun before_first :: "string \<Rightarrow> string \<Rightarrow> string" where
  "before_first m [] = []"
| "before_first m (c # s) = (if has_prefix (c # s) m then [] else c # before_first m s)"

definition added_rules :: "string list \<Rightarrow> string list" where
  "added_rules cs = List.map_filter (after_last ''-t nat -A '') cs"

definition deleted_rules :: "string list \<Rightarrow> string list" where
  "deleted_rules cs = map (before_first '' 2>'') (List.map_filter (after_last ''-t nat -D '') cs)"

text \<open>
  Switching from proxied back to direct deletes all rules that the switch to proxied added to the
  built-in chains, except the masquerading on \<^verbatim>\<open>ens5\<close>, which stays. And the rule that the switch to
  proxied deletes is not the one that the VPN server adds at its start, whatever the subnet and the
  interface, so the server's own masquerading stays as well.
\<close>

theorem proxied_mode_leaves_rules:
  "filter (\<lambda>r. r \<notin> set (deleted_rules direct_cmds) \<and> \<not> has_prefix r ''WG_PROXY '') (added_rules proxied_cmds)
     = [''POSTROUTING -o ens5 -j MASQUERADE''] \<and>
   join_with '' '' (masquerade_rule subnet iface) \<notin> set (deleted_rules proxied_cmds)"
proof
  show "filter (\<lambda>r. r \<notin> set (deleted_rules direct_cmds) \<and> \<not> has_prefix r ''WG_PROXY '') (added_rules proxied_cmds)
     = [''POSTROUTING -o ens5 -j MASQUERADE'']" by code_simp
  have d: "deleted_rules proxied_cmds = [''POSTROUTING -s 10.100.0.0/24 -j MASQUERADE'']" by code_simp
  have "join_with '' '' (masquerade_rule subnet iface) =
      ''POSTROUTING -s '' @ subnet @ '' -o '' @ iface @ '' -j MASQUERADE''"
    by (simp add: masquerade_rule_def)
  moreover have "\<dots> \<noteq> ''POSTROUTING -s 10.100.0.0/24 -j MASQUERADE''"
  proof
    assume e: "''POSTROUTING -s '' @ subnet @ '' -o '' @ iface @ '' -j MASQUERADE'' =
        ''POSTROUTING -s 10.100.0.0/24 -j MASQUERADE''"
    then have "subnet @ '' -o '' @ iface @ '' -j MASQUERADE'' = ''10.100.0.0/24'' @ '' -j MASQUERADE''" by simp
    then have e2: "subnet @ '' -o '' @ iface = ''10.100.0.0/24''"
      by (metis append_assoc append_same_eq)
    then have "CHR '' '' \<in> set ''10.100.0.0/24''" by (metis Un_iff list.set_intros(1) set_append)
    then show False by simp
  qed
  ultimately show "join_with '' '' (masquerade_rule subnet iface) \<notin> set (deleted_rules proxied_cmds)"
    unfolding d by simp
qed

end
