(* ===== verification/Handlers.thy ===== *)
theory Handlers
  imports Dashboard Routing Proxy
begin

text \<open>
  The HTTP interface, \<^verbatim>\<open>internal/handlers/routes.go\<close>: every handler with its checks in the order of the
  code, the texts of the errors it reports, and the routing of requests. The state is that of all
  components the handlers reach; a handler is a function from the state and the world before the
  request to the response and what is left. \<open>Panic\<close> is a panic in the handler or in a goroutine it
  waits for.
\<close>

section \<open>State and environment\<close>

record app =
  ap_tm :: manager
  ap_hc :: checker
  ap_dash :: dashboard
  ap_ps :: server
  ap_wgs :: "wgserver option"
  ap_rc :: "RoutingController option"

text \<open>The outcome of a download: an error, or a status and the body if it could be read.\<close>

datatype fetch = FetchError string | Fetched int "string option"

record hd_env =
  he_wg :: wg_env
  he_stamp :: "int \<Rightarrow> timestamp"             \<comment> \<open>an instant in the local time zone\<close>
  he_fetch :: "nat \<Rightarrow> string \<Rightarrow> fetch"
  he_marshal_error :: string
  he_index :: "string option"

abbreviation he_os :: "hd_env \<Rightarrow> env" where
  "he_os H \<equiv> we_os (he_wg H)"

type_synonym http_answer = "(string, response) res \<times> app \<times> world"

definition respond :: "response \<Rightarrow> app \<times> world \<Rightarrow> http_answer" where
  "respond r aw = (Ok r, aw)"

definition respond_json :: "int \<Rightarrow> json \<Rightarrow> app \<times> world \<Rightarrow> http_answer" where
  "respond_json status v aw = respond (writeJSON status (Some v)) aw"

definition method_not_allowed :: "app \<times> world \<Rightarrow> http_answer" where
  "method_not_allowed aw = respond (http_error ''Method not allowed'' 405) aw"

section \<open>Error texts\<close>

fun peers_err_text :: "hd_env \<Rightarrow> peers_err \<Rightarrow> string" where
  "peers_err_text H (ReadingPeers e) = ''reading peers file: '' @ os_text e"
| "peers_err_text H ParsingPeers = ''parsing peers file: '' @ he_marshal_error H"
| "peers_err_text H MarshalingPeers = ''marshaling peers: '' @ he_marshal_error H"
| "peers_err_text H (WritingPeers e) = os_text e"
| "peers_err_text H (PeerNotStored name) = ''peer '' @ go_quote (uni_print (he_os H)) name @ '' not found''"

fun wg_err_text :: "hd_env \<Rightarrow> wg_err \<Rightarrow> string" where
  "wg_err_text H (Wrap p e) = p @ '': '' @ wg_err_text H e"
| "wg_err_text H (Cmd p out e) = p @ '': '' @ out @ '': '' @ e"
| "wg_err_text H (OsFailed e) = os_text e"
| "wg_err_text H (Store e) = peers_err_text H e"
| "wg_err_text H (Msg s) = s"
| "wg_err_text H (NoPeer name) = ''peer '' @ go_quote (uni_print (he_os H)) name @ '' not found''"
| "wg_err_text H (PeerExists name) = ''peer '' @ go_quote (uni_print (he_os H)) name @ '' already exists''"

section \<open>Tunnels\<close>

definition tunnel_info :: "env \<Rightarrow> world \<Rightarrow> tunnel \<Rightarrow> json \<times> world" where
  "tunnel_info E w t =
     (case (case t_StartedAt t of
              None \<Rightarrow> ([], w)
            | Some s \<Rightarrow> if t_Status t \<noteq> StatusStopped then uptime E w s else ([], w)) of (up, w1) \<Rightarrow>
        (JObj ([(''name'', JStr (t_Name t)), (''status'', JStr (status_String (t_Status t))),
                (''port'', JInt (t_ProxyPort t)),
                (''latency'', JStr (Duration_String (Round (t_Latency t) millisecond)))]
               @ error_field t @
               [(''bytes_in'', JInt (t_BytesIn t)), (''bytes_out'', JInt (t_BytesOut t)),
                (''conn_count'', JInt (t_ConnCount t))]
               @ (if up = [] then [] else [(''uptime'', JStr up)])), w1))"

fun tunnel_infos :: "env \<Rightarrow> manager \<Rightarrow> nat list \<Rightarrow> world \<Rightarrow> json list \<times> world" where
  "tunnel_infos E m [] w = ([], w)"
| "tunnel_infos E m (i # is) w =
     (case tunnel_info E w (tun m i) of (j, w1) \<Rightarrow>
      case tunnel_infos E m is w1 of (js, w2) \<Rightarrow> (j # js, w2))"

definition handleTunnels :: "hd_env \<Rightarrow> request \<Rightarrow> app \<times> world \<Rightarrow> http_answer" where
  "handleTunnels H r aw =
     (case aw of (a, w) \<Rightarrow>
      if rq_method r \<noteq> ''GET'' then method_not_allowed aw
      else (case tunnel_infos (he_os H) (ap_tm a) (GetTunnels (ap_tm a)) w of (js, w1) \<Rightarrow>
              respond_json 200 (JArr js) (a, w1)))"

text \<open>What the manager's operations answer: the manager after a success, or the error.\<close>

definition tunnel_result ::
    "hd_env \<Rightarrow> int \<Rightarrow> string \<Rightarrow> string \<Rightarrow> app \<Rightarrow> (tun_err, manager) res \<times> world \<Rightarrow> http_answer" where
  "tunnel_result H code status name a rw =
     (case rw of
        (Ok m, w1) \<Rightarrow> respond_json 200 (done_json status name) (a\<lparr>ap_tm := m\<rparr>, w1)
      | (Err e, w1) \<Rightarrow> respond_json code (error_json (tun_err_text (he_os H) e)) (a, w1)
      | (Panic p, w1) \<Rightarrow> (Panic p, a, w1))"

definition handleTunnelAction :: "hd_env \<Rightarrow> request \<Rightarrow> app \<times> world \<Rightarrow> http_answer" where
  "handleTunnelAction H r aw =
     (case aw of (a, w) \<Rightarrow>
      let parts = split_on (CHR ''/'') (trim_prefix (rq_path r) ''/api/tunnels/'');
          name = parts ! 0
      in if name = [] then respond (http_error ''Not found'' 404) aw
         else if rq_method r = ''DELETE'' \<and> length parts = 1 then
           (case Delete (he_os H) w (ap_tm a) name of
              (Ok _, m, w1) \<Rightarrow> respond_json 200 (done_json ''deleted'' name) (a\<lparr>ap_tm := m\<rparr>, w1)
            | (Err e, m, w1) \<Rightarrow>
                respond_json 404 (error_json (tun_err_text (he_os H) e)) (a\<lparr>ap_tm := m\<rparr>, w1)
            | (Panic p, m, w1) \<Rightarrow> (Panic p, a\<lparr>ap_tm := m\<rparr>, w1))
         else if length parts < 2 then respond (http_error ''Not found'' 404) aw
         else if parts ! 1 = ''restart'' then
           (if rq_method r \<noteq> ''POST'' then method_not_allowed aw
            else tunnel_result H 404 ''restarting'' name a (Restart (he_os H) w (ap_tm a) name))
         else if parts ! 1 = ''disconnect'' then
           (if rq_method r \<noteq> ''POST'' then method_not_allowed aw
            else tunnel_result H 404 ''disconnected'' name a (Disconnect (he_os H) w (ap_tm a) name))
         else respond (http_error ''Unknown action'' 404) aw)"

definition handleStats :: "hd_env \<Rightarrow> request \<Rightarrow> app \<times> world \<Rightarrow> http_answer" where
  "handleStats H r aw =
     (case aw of (a, w) \<Rightarrow>
      if rq_method r \<noteq> ''GET'' then method_not_allowed aw
      else (let stats = GetStats (ap_hc a); m = ap_tm a; tuns = GetTunnels m;
                last = (case hs_LastCheckTime stats of None \<Rightarrow> zero_time | Some t \<Rightarrow> he_stamp H t)
            in respond_json 200
                 (JObj [(''avg_latency'', JStr (Duration_String (Round (hs_AvgLatency stats) millisecond))),
                        (''healthy_tunnels'', JInt (hs_HealthyCount stats)),
                        (''last_check'', JStr (show_time (last\<lparr>ts_nsec := 0\<rparr>))),
                        (''total_bytes_in'', JInt (total m t_BytesIn tuns)),
                        (''total_bytes_out'', JInt (total m t_BytesOut tuns)),
                        (''total_checks'', JInt (hs_TotalChecks stats)),
                        (''total_conns'', JInt (total m t_ConnCount tuns)),
                        (''total_tunnels'', JInt (hs_TotalCount stats))]) aw))"

section \<open>Importing tunnels\<close>

definition handleImport :: "hd_env \<Rightarrow> request \<Rightarrow> app \<times> world \<Rightarrow> http_answer" where
  "handleImport H r aw =
     (case aw of (a, w) \<Rightarrow>
      if rq_method r \<noteq> ''POST'' then method_not_allowed aw
      else (case rq_upload r of
          BadForm \<Rightarrow> respond_json 400 (error_json ''invalid multipart form'') aw
        | NoFile \<Rightarrow> respond_json 400 (error_json (''missing '' @ [CHR 0x27] @ ''config'' @ [CHR 0x27] @ '' file field'')) aw
        | UnreadableFile \<Rightarrow> respond_json 500 (error_json ''failed to read file'') aw
        | Uploaded filename content \<Rightarrow>
            (let name = trim_suffix filename ''.conf'' in
             if name = [] then respond_json 400 (error_json ''invalid filename'') aw
             else tunnel_result H 500 ''imported'' name a (ImportConfig (he_os H) w (ap_tm a) name content))))"

record url_request =
  ur_URL :: string

definition url_setters :: "url_request setters" where
  "url_setters = [(''URL'', \<lambda>v. set_string v (\<lambda>s p. p\<lparr>ur_URL := s\<rparr>))]"

definition url_name :: "string \<Rightarrow> string" where
  "url_name url =
     (let urlParts = split_on (CHR ''/'') url;
          name = trim_suffix (urlParts ! (length urlParts - 1)) ''.conf''
      in if name = [] then ''imported'' else name)"

definition handleImportURL :: "hd_env \<Rightarrow> request \<Rightarrow> app \<times> world \<Rightarrow> http_answer" where
  "handleImportURL H r aw =
     (case aw of (a, w) \<Rightarrow>
      if rq_method r \<noteq> ''POST'' then method_not_allowed aw
      else (case decode_body url_setters \<lparr>ur_URL = []\<rparr> (rq_body r) of
          None \<Rightarrow> respond_json 400 (error_json (''missing or invalid '' @ [CHR 0x27] @ ''url'' @ [CHR 0x27] @ '' field'')) aw
        | Some req \<Rightarrow>
            if ur_URL req = []
            then respond_json 400 (error_json (''missing or invalid '' @ [CHR 0x27] @ ''url'' @ [CHR 0x27] @ '' field'')) aw
            else (case he_fetch H (tick w) (ur_URL req) of
                FetchError e \<Rightarrow> respond_json 500 (error_json (''failed to download: '' @ e)) (a, tock w)
              | Fetched code body \<Rightarrow>
                  if code \<noteq> 200
                  then respond_json 500 (error_json (''download returned status '' @ show_int code)) (a, tock w)
                  else (case body of
                      None \<Rightarrow> respond_json 500 (error_json ''failed to read response body'') (a, tock w)
                    | Some content \<Rightarrow>
                        (let name = url_name (ur_URL req) in
                         tunnel_result H 500 ''imported'' name a
                           (ImportConfig (he_os H) (tock w) (ap_tm a) name content))))))"

record custom_request =
  cu_Name :: string
  cu_PrivateKey :: string
  cu_Address :: string
  cu_DNS :: string
  cu_PeerPubkey :: string
  cu_Endpoint :: string
  cu_Keepalive :: int

definition custom_setters :: "custom_request setters" where
  "custom_setters =
     [(''NAME'', \<lambda>v. set_string v (\<lambda>s p. p\<lparr>cu_Name := s\<rparr>)),
      (''PRIVATE_KEY'', \<lambda>v. set_string v (\<lambda>s p. p\<lparr>cu_PrivateKey := s\<rparr>)),
      (''ADDRESS'', \<lambda>v. set_string v (\<lambda>s p. p\<lparr>cu_Address := s\<rparr>)),
      (''DNS'', \<lambda>v. set_string v (\<lambda>s p. p\<lparr>cu_DNS := s\<rparr>)),
      (''PEER_PUBKEY'', \<lambda>v. set_string v (\<lambda>s p. p\<lparr>cu_PeerPubkey := s\<rparr>)),
      (''ENDPOINT'', \<lambda>v. set_string v (\<lambda>s p. p\<lparr>cu_Endpoint := s\<rparr>)),
      (''PERSISTENT_KEEPALIVE'', \<lambda>v. set_int v (\<lambda>i p. p\<lparr>cu_Keepalive := i\<rparr>))]"

definition no_custom :: custom_request where
  "no_custom =
     \<lparr>cu_Name = [], cu_PrivateKey = [], cu_Address = [], cu_DNS = [], cu_PeerPubkey = [],
      cu_Endpoint = [], cu_Keepalive = 0\<rparr>"

definition custom_conf :: "custom_request \<Rightarrow> string" where
  "custom_conf q =
     ''[Interface]'' @ nl @
     ''PrivateKey = '' @ cu_PrivateKey q @ nl @
     ''Address = '' @ cu_Address q @ nl @
     ''DNS = '' @ cu_DNS q @ nl @ nl @
     ''[Peer]'' @ nl @
     ''PublicKey = '' @ cu_PeerPubkey q @ nl @
     ''Endpoint = '' @ cu_Endpoint q @ nl @
     ''AllowedIPs = 0.0.0.0/0'' @ nl @
     ''PersistentKeepalive = '' @ show_int (cu_Keepalive q) @ nl"

definition handleImportCustom :: "hd_env \<Rightarrow> request \<Rightarrow> app \<times> world \<Rightarrow> http_answer" where
  "handleImportCustom H r aw =
     (case aw of (a, w) \<Rightarrow>
      if rq_method r \<noteq> ''POST'' then method_not_allowed aw
      else (case decode_body custom_setters no_custom (rq_body r) of
          None \<Rightarrow> respond_json 400 (error_json ''invalid JSON body'') aw
        | Some req \<Rightarrow>
            if cu_Name req = [] \<or> cu_PrivateKey req = [] \<or> cu_Address req = [] \<or> cu_PeerPubkey req = [] \<or>
               cu_Endpoint req = []
            then respond_json 400 (error_json ''missing required fields'') aw
            else (let req1 = (if cu_Keepalive req = 0 then req\<lparr>cu_Keepalive := 25\<rparr> else req) in
                  tunnel_result H 500 ''imported'' (cu_Name req1) a
                    (ImportConfig (he_os H) w (ap_tm a) (cu_Name req1) (custom_conf req1)))))"

section \<open>Countries and the VPN server\<close>

definition handleCountries :: "hd_env \<Rightarrow> request \<Rightarrow> app \<times> world \<Rightarrow> http_answer" where
  "handleCountries H r aw =
     (case aw of (a, w) \<Rightarrow>
      if rq_method r \<noteq> ''GET'' then method_not_allowed aw
      else respond_json 200 (json_map (map (apsnd JInt) (GetCountryMapping (ap_ps a)))) aw)"

definition status_json :: "ServerStatus \<Rightarrow> json" where
  "status_json s =
     JObj [(''running'', JBool (ss_Running s)), (''public_key'', JStr (ss_PublicKey s)),
           (''endpoint'', JStr (ss_Endpoint s)), (''port'', JInt (ss_Port s)),
           (''subnet'', JStr (ss_Subnet s)), (''peer_count'', JInt (ss_PeerCount s))]"

definition config_json :: "ClientConfig \<Rightarrow> json" where
  "config_json c =
     JObj [(''name'', JStr (cc_Name c)), (''private_key'', JStr (cc_PrivateKey c)),
           (''address'', JStr (cc_Address c)), (''dns'', JStr (cc_DNS c)),
           (''server_pubkey'', JStr (cc_ServerPubKey c)), (''endpoint'', JStr (cc_Endpoint c)),
           (''allowed_ips'', JStr (cc_AllowedIPs c))]"

definition handleWGStatus :: "hd_env \<Rightarrow> request \<Rightarrow> app \<times> world \<Rightarrow> http_answer" where
  "handleWGStatus H r aw =
     (case aw of (a, w) \<Rightarrow>
      if rq_method r \<noteq> ''GET'' then method_not_allowed aw
      else (case ap_wgs a of
          None \<Rightarrow> respond_json 200 (JObj [(''enabled'', JBool False), (''running'', JBool False)]) aw
        | Some s \<Rightarrow>
            (case wg_Status (he_wg H) s w of
               (Ok st, w1) \<Rightarrow> respond_json 200 (status_json st) (a, w1)
             | (Err e, w1) \<Rightarrow> (Panic (wg_err_text H e), a, w1)
             | (Panic p, w1) \<Rightarrow> (Panic p, a, w1))))"

record name_request =
  nr_Name :: string

definition name_setters :: "name_request setters" where
  "name_setters = [(''NAME'', \<lambda>v. set_string v (\<lambda>s p. p\<lparr>nr_Name := s\<rparr>))]"

definition wg_disabled :: "app \<times> world \<Rightarrow> http_answer" where
  "wg_disabled aw = respond_json 503 (error_json ''WG server not enabled'') aw"

definition bad_name :: "app \<times> world \<Rightarrow> http_answer" where
  "bad_name aw = respond_json 400 (error_json (''missing or invalid '' @ [CHR 0x27] @ ''name'' @ [CHR 0x27] @ '' field'')) aw"

definition handleWGPeers :: "hd_env \<Rightarrow> request \<Rightarrow> app \<times> world \<Rightarrow> http_answer" where
  "handleWGPeers H r aw =
     (case aw of (a, w) \<Rightarrow>
      case ap_wgs a of
        None \<Rightarrow> wg_disabled aw
      | Some s \<Rightarrow>
          if rq_method r = ''GET'' then
            (case ListPeers s of
               Ok peers \<Rightarrow> respond (writeJSON 200 (map_option JArr (those (map (encode_peer \<circ> Some) peers)))) aw
             | Err e \<Rightarrow> (Panic (wg_err_text H e), aw)
             | Panic p \<Rightarrow> (Panic p, aw))
          else if rq_method r = ''POST'' then
            (case decode_body name_setters \<lparr>nr_Name = []\<rparr> (rq_body r) of
               None \<Rightarrow> bad_name aw
             | Some req \<Rightarrow>
                 if nr_Name req = [] then bad_name aw
                 else (case AddPeer (he_wg H) (nr_Name req) (s, w) of
                     (Ok cc, s1, w1) \<Rightarrow>
                       respond_json 200 (JObj [(''config'', config_json cc), (''config_ini'', JStr (ToINI cc))])
                         (a\<lparr>ap_wgs := Some s1\<rparr>, w1)
                   | (Err e, s1, w1) \<Rightarrow>
                       respond_json 500 (error_json (wg_err_text H e)) (a\<lparr>ap_wgs := Some s1\<rparr>, w1)
                   | (Panic p, s1, w1) \<Rightarrow> (Panic p, a\<lparr>ap_wgs := Some s1\<rparr>, w1)))
          else method_not_allowed aw)"

definition handleWGPeerAction :: "hd_env \<Rightarrow> request \<Rightarrow> app \<times> world \<Rightarrow> http_answer" where
  "handleWGPeerAction H r aw =
     (case aw of (a, w) \<Rightarrow>
      case ap_wgs a of
        None \<Rightarrow> wg_disabled aw
      | Some s \<Rightarrow>
          (let parts = split2 (CHR ''/'') (trim_prefix (rq_path r) ''/api/wg/peers/'');
               name = parts ! 0
           in if name = [] then respond (http_error ''Not found'' 404) aw
              else if rq_method r = ''DELETE'' then
                (case RemovePeer (he_wg H) name (s, w) of
                   (Ok _, s1, w1) \<Rightarrow> respond_json 200 (done_json ''deleted'' name) (a\<lparr>ap_wgs := Some s1\<rparr>, w1)
                 | (Err e, s1, w1) \<Rightarrow>
                     respond_json 404 (error_json (wg_err_text H e)) (a\<lparr>ap_wgs := Some s1\<rparr>, w1)
                 | (Panic p, s1, w1) \<Rightarrow> (Panic p, a\<lparr>ap_wgs := Some s1\<rparr>, w1))
              else if rq_method r = ''GET'' \<and> length parts = 2 \<and> parts ! 1 = ''config'' then
                (case GetClientConfig (he_wg H) s name w of
                   (Ok conf, w1) \<Rightarrow>
                     respond \<lparr>rs_status = 200,
                       rs_headers = [(''Content-Type'', ''text/plain''),
                         (''Content-Disposition'', ''attachment; filename='' @ name @ ''.conf'')],
                       rs_body = ToINI conf\<rparr> (a, w1)
                 | (Err e, w1) \<Rightarrow> respond_json 404 (error_json (wg_err_text H e)) (a, w1)
                 | (Panic p, w1) \<Rightarrow> (Panic p, a, w1))
              else respond (http_error ''Not found'' 404) aw))"

section \<open>Traffic routing\<close>

record routing_request =
  ro_Mode :: string
  ro_Country :: string
  ro_Port :: int

definition routing_setters :: "routing_request setters" where
  "routing_setters =
     [(''MODE'', \<lambda>v. set_string v (\<lambda>s p. p\<lparr>ro_Mode := s\<rparr>)),
      (''COUNTRY'', \<lambda>v. set_string v (\<lambda>s p. p\<lparr>ro_Country := s\<rparr>)),
      (''PORT'', \<lambda>v. set_int v (\<lambda>i p. p\<lparr>ro_Port := i\<rparr>))]"

definition handleRouting :: "hd_env \<Rightarrow> request \<Rightarrow> RoutingController \<Rightarrow> app \<times> world \<Rightarrow> http_answer" where
  "handleRouting H r rc aw =
     (case aw of (a, w) \<Rightarrow>
      let set_mode = (\<lambda>mode country port.
            case SetMode (he_wg H) mode country port (rc, w) of
              (Ok _, rc1, w1) \<Rightarrow> respond_json 200 (GetStatus rc1) (a\<lparr>ap_rc := Some rc1\<rparr>, w1)
            | (Err e, rc1, w1) \<Rightarrow> respond_json 500 (error_json (wg_err_text H e)) (a\<lparr>ap_rc := Some rc1\<rparr>, w1)
            | (Panic p, rc1, w1) \<Rightarrow> (Panic p, a\<lparr>ap_rc := Some rc1\<rparr>, w1))
      in if rq_method r = ''GET'' then respond_json 200 (GetStatus rc) aw
         else if rq_method r = ''POST'' then
           (case decode_body routing_setters \<lparr>ro_Mode = [], ro_Country = [], ro_Port = 0\<rparr> (rq_body r) of
              None \<Rightarrow> respond_json 400 (error_json ''invalid request'') aw
            | Some req \<Rightarrow>
                if ro_Mode req = ''proxied'' then
                  (if ro_Port req = 0 then
                     (let gold = GetGoldPorts (ap_hc a) in
                      if 0 < length gold then set_mode ModeProxied (ro_Country req) (gold ! 0)
                      else respond_json 503
                             (error_json ''no HTTPS-verified backends available yet, try again in 30s'') aw)
                   else set_mode ModeProxied (ro_Country req) (ro_Port req))
                else set_mode ModeDirect (ro_Country req) (ro_Port req))
         else respond (http_error ''method not allowed'' 405) aw)"

definition handleRoutingRoute :: "hd_env \<Rightarrow> request \<Rightarrow> app \<times> world \<Rightarrow> http_answer" where
  "handleRoutingRoute H r aw =
     (case ap_rc (fst aw) of
        None \<Rightarrow> respond_json 404 (error_json ''routing not available'') aw
      | Some rc \<Rightarrow> handleRouting H r rc aw)"

definition handleGold :: "hd_env \<Rightarrow> request \<Rightarrow> app \<times> world \<Rightarrow> http_answer" where
  "handleGold H r aw =
     (let gold = GetGoldPorts (ap_hc (fst aw)) in
      respond_json 200 (JObj [(''count'', JInt (int (length gold))), (''gold_ports'', JArr (map JInt gold))]) aw)"

definition handleEvents :: "hd_env \<Rightarrow> request \<Rightarrow> app \<times> world \<Rightarrow> http_answer" where
  "handleEvents H r aw =
     (case aw of (a, w) \<Rightarrow>
      case HandleSSE (he_os H) (ap_tm a) (ap_hc a) (ap_dash a, w) of
        (rs, d, w1) \<Rightarrow> respond rs (a\<lparr>ap_dash := d\<rparr>, w1))"

section \<open>Routes\<close>

text \<open>\<^verbatim>\<open>RegisterRoutes\<close>.\<close>

definition routes :: "(string \<times> (hd_env \<Rightarrow> request \<Rightarrow> app \<times> world \<Rightarrow> http_answer)) list" where
  "routes =
     [(''/api/tunnels'', handleTunnels),
      (''/api/tunnels/import'', handleImport),
      (''/api/tunnels/import-url'', handleImportURL),
      (''/api/tunnels/import-custom'', handleImportCustom),
      (''/api/tunnels/'', handleTunnelAction),
      (''/api/stats'', handleStats),
      (''/api/countries'', handleCountries),
      (''/api/wg/status'', handleWGStatus),
      (''/api/wg/peers'', handleWGPeers),
      (''/api/wg/routing'', handleRoutingRoute),
      (''/api/wg/peers/'', handleWGPeerAction),
      (''/api/health/gold'', handleGold),
      (''/api/events'', handleEvents),
      (''/'', \<lambda>H r. respond (ServeDashboard (he_index H) r))]"

definition serve :: "hd_env \<Rightarrow> request \<Rightarrow> app \<times> world \<Rightarrow> http_answer" where
  "serve H r aw =
     (if rq_method r \<noteq> ''CONNECT'' \<and> clean_path (rq_path r) \<noteq> rq_path r
      then respond (redirect (clean_path (rq_path r))) aw
      else (case best_pattern (map fst routes) (rq_path r) of
          None \<Rightarrow> respond not_found aw
        | Some p \<Rightarrow>
            (case map_of routes p of
               None \<Rightarrow> respond not_found aw
             | Some h \<Rightarrow> h H r aw)))"

end
