(* ===== verification/Dashboard_Props.thy ===== *)
theory Dashboard_Props
  imports Dashboard Json_Roundtrip "HOL-Library.Sublist"
begin

text \<open>
  The event streams: what a client of the dashboard receives, and what it misses when it reads too
  slowly.
\<close>

section \<open>Runs\<close>

text \<open>What happens to the dashboard: a tick of the broadcaster, a turn of a client's loop, a client's
  arrival, a client's departure.\<close>

datatype sse_event = Tick string | Turn nat | Arrive string | Leave nat

fun sse_step :: "sse_event \<Rightarrow> dashboard \<Rightarrow> dashboard" where
  "sse_step (Tick data) d = broadcast data d"
| "sse_step (Turn k) d = sse_turn k d"
| "sse_step (Arrive initial) d = snd (sse_open initial d)"
| "sse_step (Leave k) d = sse_close k d"

definition sse_run :: "sse_event list \<Rightarrow> dashboard \<Rightarrow> dashboard" where
  "sse_run evs d = foldl (\<lambda>d e. sse_step e d) d evs"

lemma sse_run_simps [simp]:
  "sse_run [] d = d" "sse_run (e # evs) d = sse_run evs (sse_step e d)"
  "sse_run (evs @ evs') d = sse_run evs' (sse_run evs d)"
  by (simp_all add: sse_run_def)

definition client :: "dashboard \<Rightarrow> nat \<Rightarrow> sse_client option" where
  "client d k = map_of (db_clients d) k"

definition fresh_ids :: "dashboard \<Rightarrow> bool" where
  "fresh_ids d \<longleftrightarrow> (\<forall>i\<in>fst ` set (db_clients d). i < db_next d)"

lemma map_of_map_same: "map_of (map (\<lambda>(i, c). (i, f i c)) xs) k = map_option (f k) (map_of xs k)"
  by (induction xs) auto

lemma map_of_filter_key: "map_of (filter (\<lambda>(i, c). i \<noteq> k) xs) j = (if j = k then None else map_of xs j)"
  by (induction xs) auto

lemma fresh_ids_step: "fresh_ids d \<Longrightarrow> fresh_ids (sse_step e d)"
  by (cases e) (fastforce simp: fresh_ids_def broadcast_def sse_turn_def sse_open_def sse_close_def)+

lemma client_step:
  assumes "fresh_ids d" and "k < db_next d"
  shows "client (sse_step e d) k =
     (case e of
        Tick data \<Rightarrow> map_option (sse_offer data) (client d k)
      | Turn j \<Rightarrow> if j = k then map_option sse_forward (client d k) else client d k
      | Arrive initial \<Rightarrow> client d k
      | Leave j \<Rightarrow> if j = k then None else client d k)"
proof (cases e)
  case (Tick data)
  have "map (apsnd (sse_offer data)) (db_clients d) = map (\<lambda>(i, c). (i, (\<lambda>_. sse_offer data) i c)) (db_clients d)"
    by (simp add: case_prod_beta' apsnd_def map_prod_def)
  then show ?thesis using Tick by (simp only: client_def broadcast_def sse_step.simps) (simp add: map_of_map_same)
next
  case (Turn j)
  show ?thesis
    using Turn map_of_map_same [of "\<lambda>i c. if i = j then sse_forward c else c" "db_clients d" k]
    by (auto simp: client_def sse_turn_def option.map_ident)
next
  case (Arrive x3)
  then show ?thesis using assms(2) by (simp add: client_def sse_open_def)
next
  case (Leave x4)
  then show ?thesis by (auto simp: client_def sse_close_def map_of_filter_key)
qed

lemma db_next_step: "db_next d \<le> db_next (sse_step e d)"
  by (cases e) (simp_all add: broadcast_def sse_turn_def sse_open_def sse_close_def)

section \<open>What a client receives\<close>

definition ticks :: "sse_event list \<Rightarrow> string list" where
  "ticks evs = List.map_filter (\<lambda>e. case e of Tick m \<Rightarrow> Some m | _ \<Rightarrow> None) evs"

definition turns :: "nat \<Rightarrow> sse_event list \<Rightarrow> nat" where
  "turns k evs = length (filter (\<lambda>e. e = Turn k) evs)"

lemma ticks_simps [simp]:
  "ticks [] = []" "ticks (evs @ evs') = ticks evs @ ticks evs'"
  "ticks (e # evs) = (case e of Tick m \<Rightarrow> m # ticks evs | _ \<Rightarrow> ticks evs)"
  by (simp_all add: ticks_def List.map_filter_def split: sse_event.split)

definition stream :: "string list \<Rightarrow> string" where
  "stream msgs = concat (map sse_message msgs)"

lemma stream_simps [simp]: "stream [] = []" "stream (a @ b) = stream a @ stream b" "stream (m # b) = sse_message m @ stream b"
  by (simp_all add: stream_def)

text \<open>A client keeps up when no stretch of events has more than eight ticks above its turns.\<close>

definition keeps_up :: "nat \<Rightarrow> sse_event list \<Rightarrow> bool" where
  "keeps_up k evs \<longleftrightarrow> (\<forall>a b r. evs = a @ b @ r \<longrightarrow> length (ticks b) \<le> turns k b + sse_capacity)"

lemma keeps_up_prefix: "keeps_up k (evs @ evs') \<Longrightarrow> keeps_up k evs"
  unfolding keeps_up_def by (metis append.assoc)

lemma keeps_up_suffix: "keeps_up k (a @ b) \<Longrightarrow> length (ticks b) \<le> turns k b + sse_capacity"
  by (auto simp: keeps_up_def dest: spec [of _ a] spec [of _ b] spec [of _ "[]"])

text \<open>
  After the events \<open>evs\<close> the client has been sent \<open>got\<close> after its first message. When it kept up,
  nothing is missing, and its channel holds what some stretch up to now brought above its turns.
\<close>

definition served :: "nat \<Rightarrow> string \<Rightarrow> sse_event list \<Rightarrow> string list \<Rightarrow> sse_client \<Rightarrow> bool" where
  "served k initial evs got c \<longleftrightarrow>
     sc_body c = stream (initial # got) \<and> length (sc_queue c) \<le> sse_capacity \<and>
     subseq (got @ sc_queue c) (ticks evs) \<and>
     (keeps_up k evs \<longrightarrow> got @ sc_queue c = ticks evs \<and>
        (\<exists>a b. evs = a @ b \<and> length (sc_queue c) + turns k b = length (ticks b)))"

lemma turns_snoc [simp]: "turns k (evs @ [e]) = turns k evs + (if e = Turn k then 1 else 0)"
  by (simp add: turns_def)

lemma stretch_snoc:
  "\<exists>a b. evs = a @ b \<and> q + turns k b = length (ticks b) \<Longrightarrow>
     q' + turns k [e] = q + length (ticks [e]) \<Longrightarrow>
   \<exists>a b. evs @ [e] = a @ b \<and> q' + turns k b = length (ticks b)"
proof -
  assume "\<exists>a b. evs = a @ b \<and> q + turns k b = length (ticks b)" and e: "q' + turns k [e] = q + length (ticks [e])"
  then obtain a b where ab: "evs = a @ b" "q + turns k b = length (ticks b)" by blast
  have "turns k (b @ [e]) = turns k b + turns k [e]" by (simp add: turns_def)
  then have "evs @ [e] = a @ (b @ [e]) \<and> q' + turns k (b @ [e]) = length (ticks (b @ [e]))"
    using ab e by (simp del: ticks_simps(3) turns_snoc)
  then show ?thesis by blast
qed

lemma served_tick:
  assumes "served k initial evs got c"
  shows "served k initial (evs @ [Tick m]) got (sse_offer m c)"
proof -
  have sub: "subseq (got @ sc_queue c) (ticks evs)" using assms by (simp add: served_def)
  have le: "length (sc_queue c) \<le> sse_capacity" using assms by (simp add: served_def)
  show ?thesis
  proof (cases "length (sc_queue c) < sse_capacity")
    case True
    have "subseq ((got @ sc_queue c) @ [m]) (ticks evs @ [m])" by (rule list_emb_append_mono [OF sub]) simp
    moreover have "\<exists>a b. evs @ [Tick m] = a @ b \<and> Suc (length (sc_queue c)) + turns k b = length (ticks b)"
      if "keeps_up k evs"
    proof (rule stretch_snoc)
      show "\<exists>a b. evs = a @ b \<and> length (sc_queue c) + turns k b = length (ticks b)"
        using assms that by (simp add: served_def)
    qed (simp add: turns_def)
    ultimately show ?thesis
      using assms True keeps_up_prefix [of k evs "[Tick m]"] by (auto simp: served_def sse_offer_def)
  next
    case full: False
    have "\<not> keeps_up k (evs @ [Tick m])"
    proof
      assume ku: "keeps_up k (evs @ [Tick m])"
      then obtain a b where b: "evs = a @ b" "length (sc_queue c) + turns k b = length (ticks b)"
        using assms keeps_up_prefix by (fastforce simp: served_def)
      have "length (ticks (b @ [Tick m])) \<le> turns k (b @ [Tick m]) + sse_capacity"
        using ku by (intro keeps_up_suffix [of k a]) (simp add: b(1))
      then show False using b(2) full by simp
    qed
    moreover have "subseq (got @ sc_queue c) (ticks evs @ [m])" using sub by (rule list_emb_prefix)
    ultimately show ?thesis using assms full le by (simp add: served_def sse_offer_def)
  qed
qed

lemma served_turn:
  assumes "served k initial evs got c"
  shows "\<exists>got'. served k initial (evs @ [Turn k]) got' (sse_forward c)"
proof (cases "sc_queue c")
  case Nil
  have "\<exists>a b. evs @ [Turn k] = a @ b \<and> 0 + turns k b = length (ticks b)"
    by (intro exI [of _ "evs @ [Turn k]"] exI [of _ "[]"]) (simp add: turns_def)
  then have "served k initial (evs @ [Turn k]) got c"
    using assms Nil keeps_up_prefix [of k evs "[Turn k]"] by (auto simp: served_def)
  then show ?thesis using Nil by (auto simp: sse_forward_def)
next
  case (Cons m rest)
  have "\<exists>a b. evs @ [Turn k] = a @ b \<and> length rest + turns k b = length (ticks b)" if "keeps_up k evs"
  proof (rule stretch_snoc)
    show "\<exists>a b. evs = a @ b \<and> length (sc_queue c) + turns k b = length (ticks b)"
      using assms that by (simp add: served_def)
  qed (simp add: turns_def Cons)
  then have "served k initial (evs @ [Turn k]) (got @ [m]) (sse_forward c)"
    using assms Cons keeps_up_prefix [of k evs "[Turn k]"] by (auto simp: served_def sse_forward_def)
  then show ?thesis by blast
qed

lemma served_other:
  assumes "served k initial evs got c" and "e \<noteq> Turn k" and "\<And>m. e \<noteq> Tick m"
  shows "served k initial (evs @ [e]) got c"
proof -
  have t: "ticks [e] = []" "turns k [e] = 0" using assms(2,3) by (cases e; simp add: turns_def)+
  have "\<exists>a b. evs @ [e] = a @ b \<and> length (sc_queue c) + turns k b = length (ticks b)" if "keeps_up k evs"
  proof (rule stretch_snoc)
    show "\<exists>a b. evs = a @ b \<and> length (sc_queue c) + turns k b = length (ticks b)"
      using assms that by (simp add: served_def)
  qed (simp only: t, simp)
  then show ?thesis
    using assms(1) t(1) keeps_up_prefix [of k evs "[e]"] by (auto simp: served_def simp del: ticks_simps(3))
qed

lemma fresh_ids_run: "fresh_ids (sse_run evs NewDashboard)"
proof (induction evs rule: rev_induct)
  case Nil
  then show ?case by (simp add: fresh_ids_def NewDashboard_def)
next
  case (snoc e evs)
  then show ?case using fresh_ids_step by simp
qed

lemma served_run:
  assumes "d = sse_run evs0 NewDashboard" and "k = db_next d" and "Leave k \<notin> set evs"
  shows "k < db_next (sse_run (Arrive initial # evs) d) \<and>
    (\<exists>c got. client (sse_run (Arrive initial # evs) d) k = Some c \<and> served k initial evs got c)"
  using assms(3)
proof (induction evs rule: rev_induct)
  case Nil
  have "served k initial [] [] \<lparr>sc_queue = [], sc_body = sse_message initial\<rparr>"
    by (auto simp: served_def turns_def)
  then show ?case using assms(2) by (auto simp: client_def sse_open_def)
next
  case (snoc e evs)
  let ?d = "sse_run (Arrive initial # evs) d"
  have f: "fresh_ids ?d" unfolding assms(1) using fresh_ids_run [of "evs0 @ Arrive initial # evs"] by simp
  obtain c got where c: "k < db_next ?d" "client ?d k = Some c" "served k initial evs got c"
    using snoc by auto
  note step = client_step [OF f c(1), of e]
  have "\<exists>c1 got1. client (sse_step e ?d) k = Some c1 \<and> served k initial (evs @ [e]) got1 c1"
  proof (cases e)
    case (Tick m)
    then show ?thesis using step c served_tick by fastforce
  next
    case (Turn j)
    then show ?thesis using step c served_turn [OF c(3)] served_other [OF c(3), of e] by (cases "j = k") auto
  next
    case (Arrive x)
    then show ?thesis using step c served_other [OF c(3), of e] by auto
  next
    case (Leave j)
    then show ?thesis using step c snoc.prems served_other [OF c(3), of e] by auto
  qed
  then show ?case using c(1) db_next_step [of ?d e] by auto
qed

text \<open>
  C40. A client of the event stream gets, whatever else happens while it stays connected, the initial
  state and then broadcast states in their order, none twice, with at most eight more waiting in its
  channel; and as long as no stretch of time brings more than eight broadcasts above the turns of
  its loop it misses none.
\<close>

theorem client_stream_in_order:
  assumes "k = db_next (sse_run evs0 NewDashboard)" and "Leave k \<notin> set evs"
  shows "\<exists>c got. client (sse_run (evs0 @ Arrive initial # evs) NewDashboard) k = Some c \<and>
    sc_body c = stream (initial # got) \<and> length (sc_queue c) \<le> 8 \<and>
    subseq (got @ sc_queue c) (ticks evs) \<and>
    (keeps_up k evs \<longrightarrow> got @ sc_queue c = ticks evs)"
  using served_run [OF refl assms, of initial] by (auto simp: served_def sse_capacity_def)

theorem client_stream_in_order_witness:
  "\<exists>c got. client (sse_run [Arrive ''s'', Tick ''a'', Turn 0, Tick ''b''] NewDashboard) 0 = Some c \<and>
     sc_body c = stream (''s'' # got) \<and> got @ sc_queue c = [''a'', ''b'']"
proof -
  let ?evs = "[Tick ''a'', Turn 0, Tick ''b'']"
  have "length (ticks b) \<le> turns 0 b + 8" if "?evs = a @ b @ r" for a b r
  proof -
    have "length (ticks b) \<le> length b" by (simp add: ticks_def List.map_filter_def)
    moreover have "length a + length b + length r = 3" using arg_cong [OF that, of length] by simp
    ultimately show ?thesis by linarith
  qed
  then have "keeps_up 0 ?evs" unfolding keeps_up_def sse_capacity_def by blast
  moreover have "0 = db_next (sse_run [] NewDashboard)" by (simp add: NewDashboard_def)
  ultimately show ?thesis
    using client_stream_in_order [of 0 "[]" ?evs "''s''"] by auto
qed

text \<open>
  A client whose connection stalls keeps the oldest states: of the broadcasts during the stall the
  first eight wait in its channel and all later ones, the current state among them, are dropped.
\<close>

theorem stalled_client_keeps_oldest:
  assumes "k = db_next (sse_run evs0 NewDashboard)" and "Leave k \<notin> set evs" and "Turn k \<notin> set evs"
  shows "\<exists>c. client (sse_run (evs0 @ Arrive initial # evs) NewDashboard) k = Some c \<and>
    sc_queue c = take 8 (ticks evs) \<and> sc_body c = sse_message initial"
  using assms(2,3)
proof (induction evs rule: rev_induct)
  case Nil
  then show ?case using assms(1) by (auto simp: client_def sse_open_def)
next
  case (snoc e evs)
  let ?d = "sse_run (evs0 @ Arrive initial # evs) NewDashboard"
  obtain c where c: "client ?d k = Some c" "sc_queue c = take 8 (ticks evs)" "sc_body c = sse_message initial"
    using snoc by auto
  have f: "fresh_ids ?d" by (rule fresh_ids_run)
  have l: "k < db_next ?d" using served_run [OF refl assms(1), of evs initial] snoc.prems by simp
  have "\<exists>c1. client (sse_step e ?d) k = Some c1 \<and> sc_queue c1 = take 8 (ticks (evs @ [e])) \<and>
      sc_body c1 = sse_message initial"
  proof (cases e)
    case (Tick m)
    then show ?thesis using client_step [OF f l, of e] c
      by (auto simp: sse_offer_def sse_capacity_def min_def)
  qed (use client_step [OF f l, of e] c snoc.prems in auto)
  then show ?case by simp
qed

theorem stalled_client_keeps_oldest_witness:
  "\<exists>c. client (sse_run (Arrive ''s'' # replicate 8 (Tick ''old'') @ [Tick ''new'']) NewDashboard) 0 = Some c \<and>
     ''new'' \<notin> set (sc_queue c)"
proof -
  have "0 = db_next (sse_run [] NewDashboard)" by (simp add: NewDashboard_def)
  then have "\<exists>c. client (sse_run ([] @ Arrive ''s'' # replicate 8 (Tick ''old'') @ [Tick ''new'']) NewDashboard) 0 = Some c \<and>
    sc_queue c = take 8 (ticks (replicate 8 (Tick ''old'') @ [Tick ''new''])) \<and> sc_body c = sse_message ''s''"
    by (rule stalled_client_keeps_oldest) simp_all
  moreover have "''new'' \<notin> set (take 8 (ticks (replicate 8 (Tick ''old'') @ [Tick ''new''])))" by code_simp
  ultimately show ?thesis by auto
qed

end
