(* ===== verification/Handlers_Props.thy ===== *)
theory Handlers_Props
  imports Handlers Dashboard_Props WgServer_Props Tunnels_Props
begin

text \<open>
  The HTTP interface as a whole: which requests change something, and what an error answer says about
  the state.
\<close>

section \<open>Dispatch\<close>

lemma serve_route:
  obtains (none) rs where "serve H r aw = respond rs aw" "rs = not_found \<or> (\<exists>p. rs = redirect p)"
  | (route) p h where "(p, h) \<in> set routes" "serve H r aw = h H r aw"
proof (cases "rq_method r \<noteq> ''CONNECT'' \<and> clean_path (rq_path r) \<noteq> rq_path r")
  case True
  then show thesis by (intro none [of "redirect (clean_path (rq_path r))"]) (auto simp: serve_def)
next
  case False
  show thesis
  proof (cases "best_pattern (map fst routes) (rq_path r)")
    case None
    then show thesis using False by (intro none [of not_found]) (auto simp: serve_def)
  next
    case (Some p)
    show thesis
    proof (cases "map_of routes p")
      case None
      then show thesis using False Some by (intro none [of not_found]) (auto simp: serve_def)
    next
      case (Some h)
      then show thesis using False \<open>best_pattern (map fst routes) (rq_path r) = Some p\<close>
        by (intro route [of p h]) (auto simp: serve_def map_of_SomeD)
    qed
  qed
qed

lemma serve_path:
  assumes "clean_path (rq_path r) = rq_path r" and "best_pattern (map fst routes) (rq_path r) = Some p"
    and "map_of routes p = Some h"
  shows "serve H r aw = h H r aw"
  using assms by (simp add: serve_def)

lemma serve_fixed:
  "rq_path r = ''/api/wg/routing'' \<Longrightarrow> serve H r aw = handleRoutingRoute H r aw"
  "rq_path r = ''/api/wg/peers'' \<Longrightarrow> serve H r aw = handleWGPeers H r aw"
  "rq_path r = ''/api/tunnels'' \<Longrightarrow> serve H r aw = handleTunnels H r aw"
  "rq_path r = ''/api/tunnels/import-custom'' \<Longrightarrow> serve H r aw = handleImportCustom H r aw"
proof -
  have c: "clean_path ''/api/wg/routing'' = ''/api/wg/routing''" "clean_path ''/api/wg/peers'' = ''/api/wg/peers''"
    "clean_path ''/api/tunnels'' = ''/api/tunnels''"
    "clean_path ''/api/tunnels/import-custom'' = ''/api/tunnels/import-custom''" by code_simp+
  show "rq_path r = ''/api/wg/routing'' \<Longrightarrow> serve H r aw = handleRoutingRoute H r aw"
    "rq_path r = ''/api/wg/peers'' \<Longrightarrow> serve H r aw = handleWGPeers H r aw"
    "rq_path r = ''/api/tunnels'' \<Longrightarrow> serve H r aw = handleTunnels H r aw"
    "rq_path r = ''/api/tunnels/import-custom'' \<Longrightarrow> serve H r aw = handleImportCustom H r aw"
    by (intro serve_path [where p = "rq_path r"]; simp add: c best_pattern_def routes_def)+
qed

lemmas respond_defs = respond_def respond_json_def method_not_allowed_def wg_disabled_def bad_name_def

section \<open>Requests that only look\<close>

lemma uptime_files: "files (snd (uptime E w t)) = files w"
  by (simp add: uptime_def now_def)

lemma tunnel_state_files: "files (snd (tunnel_state E w t)) = files w"
  using uptime_files by (auto simp: tunnel_state_def split: option.split prod.split) (metis snd_conv)

lemma tunnel_info_files: "files (snd (tunnel_info E w t)) = files w"
  using uptime_files by (auto simp: tunnel_info_def split: option.split prod.split) (metis snd_conv)+

lemma tunnel_states_files: "files (snd (tunnel_states E m is w)) = files w"
  using tunnel_state_files by (induction "is" arbitrary: w) (auto split: prod.split, metis snd_conv)

lemma tunnel_infos_files: "files (snd (tunnel_infos E m is w)) = files w"
  using tunnel_info_files by (induction "is" arbitrary: w) (auto split: prod.split, metis snd_conv)

lemma HandleSSE_files: "HandleSSE E m c (d, w) = (rs, d1, w1) \<Longrightarrow> files w1 = files w"
  using tunnel_states_files [of E m "GetTunnels m" w]
  by (auto simp: HandleSSE_def collectState_def Let_def split: prod.splits)

lemma GetClientConfig_files: "GetClientConfig E s name w = (r, w1) \<Longrightarrow> files w1 = files w"
  using endpoint_files by (auto simp: GetClientConfig_def split: res.splits option.splits prod.splits)

lemma wg_Status_files: "wg_Status E s w = (r, w1) \<Longrightarrow> files w1 = files w"
  by (auto simp: wg_Status_def endpoint_host_def detectPublicIP_def dest: default_iface_files
      split: prod.splits if_splits)

definition looked :: "app \<times> world \<Rightarrow> http_answer \<Rightarrow> bool" where
  "looked aw x \<longleftrightarrow> (fst (snd x))\<lparr>ap_dash := ap_dash (fst aw)\<rparr> = fst aw \<and> files (snd (snd x)) = files (snd aw)"

lemma looked_respond [simp]:
  "looked (a, w) (respond rs (a, w1)) \<longleftrightarrow> files w1 = files w" "looked (a, w) (Panic p, a, w1) \<longleftrightarrow> files w1 = files w"
  "looked (a, w) (respond_json code v (a, w1)) \<longleftrightarrow> files w1 = files w" "looked (a, w) (method_not_allowed (a, w))"
  "looked (a, w) (wg_disabled (a, w))" "looked (a, w) (bad_name (a, w))"
  by (simp_all add: looked_def respond_defs)

lemma get_looks:
  assumes "rq_method r = ''GET''" and "(p, h) \<in> set routes"
  shows "looked (a, w) (h H r (a, w))"
proof -
  have "looked (a, w) (handleTunnels H r (a, w))"
    using assms(1) tunnel_infos_files [of "he_os H" "ap_tm a" "GetTunnels (ap_tm a)" w]
    by (auto simp: handleTunnels_def split: prod.split)
  moreover have "looked (a, w) (handleTunnelAction H r (a, w))"
    using assms(1) by (simp add: handleTunnelAction_def Let_def)
  moreover have "looked (a, w) (handleStats H r (a, w))"
    using assms(1) by (simp add: handleStats_def Let_def)
  moreover have "looked (a, w) (handleImport H r (a, w))" "looked (a, w) (handleImportURL H r (a, w))"
    "looked (a, w) (handleImportCustom H r (a, w))" "looked (a, w) (handleCountries H r (a, w))"
    using assms(1) by (simp_all add: handleImport_def handleImportURL_def handleImportCustom_def handleCountries_def)
  moreover have "looked (a, w) (handleWGStatus H r (a, w))"
    using assms(1) by (auto simp: handleWGStatus_def dest: wg_Status_files split: option.split prod.split res.split)
  moreover have "looked (a, w) (handleWGPeers H r (a, w))"
    using assms(1) by (auto simp: handleWGPeers_def split: option.split res.split)
  moreover have "looked (a, w) (handleWGPeerAction H r (a, w))"
    using assms(1) by (auto simp: handleWGPeerAction_def Let_def dest: GetClientConfig_files
        split: option.split res.split prod.split)
  moreover have "looked (a, w) (handleRoutingRoute H r (a, w))"
    using assms(1) by (auto simp: handleRoutingRoute_def handleRouting_def Let_def split: option.split)
  moreover have "looked (a, w) (handleGold H r (a, w))" by (simp add: handleGold_def Let_def)
  moreover have "looked (a, w) (handleEvents H r (a, w))"
    by (auto simp: handleEvents_def looked_def respond_def dest: HandleSSE_files split: prod.split)
  ultimately show ?thesis using assms(2) by (auto simp: routes_def)
qed

text \<open>
  C37. A GET request, whatever its path, changes nothing but the list of event stream clients: the
  tunnels, the peers, the checker's results, the routing mode and all files are as before.
\<close>

theorem get_changes_nothing:
  assumes "rq_method r = ''GET''" and "serve H r (a, w) = (x, a', w')"
  shows "a'\<lparr>ap_dash := ap_dash a\<rparr> = a \<and> files w' = files w"
proof (cases rule: serve_route [of H r "(a, w)"])
  case (none rs)
  then show ?thesis using assms(2) by (simp add: respond_def)
next
  case (route p h)
  then have "h H r (a, w) = (x, a', w')" using assms(2) by simp
  then show ?thesis using get_looks [OF assms(1) route(1), of a w H] by (simp add: looked_def)
qed

section \<open>An example\<close>

text \<open>A gateway with no tunnels, a running VPN server and the routing controller.\<close>

abbreviation demo_vpn :: wgserver where
  "demo_vpn \<equiv> demo_server ''10.100.0.0/24'' [demo_peer ''a'' ''10.100.0.2/32'']"

definition demo_hd :: hd_env where
  "demo_hd =
     \<lparr>he_wg = demo_env, he_stamp = (\<lambda>_. zero_time), he_fetch = (\<lambda>_ _. FetchError ''timeout''),
      he_marshal_error = [], he_index = None\<rparr>"

definition demo_app :: app where
  "demo_app =
     \<lparr>ap_tm = NewManager ''/c'' 10001, ap_hc = NewChecker 0 0, ap_dash = NewDashboard,
      ap_ps = NewServer '':1080'' (demo_cfg ''10.100.0.0/24''), ap_wgs = Some demo_vpn, ap_rc = Some NewRoutingController\<rparr>"

definition ask :: "string \<Rightarrow> string \<Rightarrow> string \<Rightarrow> request" where
  "ask m path body = \<lparr>rq_method = m, rq_path = path, rq_body = body, rq_upload = NoFile\<rparr>"

theorem get_changes_nothing_witness:
  "\<exists>x a' w'. serve demo_hd (ask ''GET'' ''/api/events'' []) (demo_app, demo_world) = (x, a', w') \<and>
     ap_wgs a' = Some demo_vpn \<and> files w' = []"
proof -
  obtain x a' w' where s: "serve demo_hd (ask ''GET'' ''/api/events'' []) (demo_app, demo_world) = (x, a', w')"
    by (metis prod.collapse)
  have "rq_method (ask ''GET'' ''/api/events'' []) = ''GET''" by (simp add: ask_def)
  from get_changes_nothing [OF this s] have "a'\<lparr>ap_dash := ap_dash demo_app\<rparr> = demo_app" "files w' = files demo_world"
    by simp_all
  moreover from this(1) have "ap_wgs a' = ap_wgs demo_app"
    by (metis app.select_convs(5) app.surjective app.update_convs(3))
  ultimately show ?thesis using s by (auto simp: demo_app_def demo_world_def)
qed

section \<open>Error answers\<close>






text \<open>What an error answer may have changed.\<close>

definition excused :: "request \<Rightarrow> int \<Rightarrow> app \<Rightarrow> app \<Rightarrow> bool" where
  "excused r status a a' \<longleftrightarrow>
     a' = a \<or>
     rq_method r = ''DELETE'' \<and> status = 404 \<and> a' = a\<lparr>ap_tm := ap_tm a'\<rparr> \<and> static (ap_tm a') = static (ap_tm a) \<and>
       (\<exists>name i. GetTunnel (ap_tm a) name = Some i \<and> t_Status (tun (ap_tm a') i) = StatusStopped) \<or>
     (\<exists>s s' name. ap_wgs a = Some s \<and> a' = a\<lparr>ap_wgs := Some s'\<rparr> \<and>
       (rq_method r = ''POST'' \<and> status = 500 \<and>
          (\<exists>p. ps_items (sv_peers s') = ps_items (sv_peers s) @ [p] \<and> p_Name p = name) \<or>
        rq_method r = ''DELETE'' \<and> status = 404 \<and> name \<in> p_Name ` set (ps_items (sv_peers s)) \<and>
          ps_items (sv_peers s') = remove_first (\<lambda>p. p_Name p = name) (ps_items (sv_peers s))))"

definition blameless :: "request \<Rightarrow> app \<Rightarrow> http_answer \<Rightarrow> bool" where
  "blameless r a x \<longleftrightarrow> (\<forall>rs. fst x = Ok rs \<longrightarrow> 400 \<le> rs_status rs \<longrightarrow> excused r (rs_status rs) a (fst (snd x)))"

lemma excused_refl [simp]: "excused r status a a"
  by (simp add: excused_def)

lemma blameless_simps [simp]:
  "blameless r a (respond rs (a, w))" "blameless r a (respond_json code v (a, w))"
  "blameless r a (method_not_allowed (a, w))" "blameless r a (wg_disabled (a, w))" "blameless r a (bad_name (a, w))"
  "blameless r a (Panic p, a', w)" "code < 400 \<Longrightarrow> blameless r a (respond_json code v aw)"
  by (simp_all add: blameless_def respond_defs writeJSON_def)

lemma blameless_result [simp]: "blameless r a (tunnel_result H code0 status name a rw)"
  by (auto simp: tunnel_result_def blameless_def respond_defs writeJSON_def split: prod.splits res.splits)








end
