(* ===== verification/Handlers_Json.thy ===== *)
theory Handlers_Json
  imports Handlers_Props
begin

text \<open>
  The JSON of the HTTP interface: every answer is a JSON text, whatever bytes the names and messages
  in it hold, and a request body written from the values of a struct is read back as these values.
\<close>

section \<open>Values of bounded depth\<close>

definition shallow :: "nat \<Rightarrow> json \<Rightarrow> bool" where
  "shallow k v \<longleftrightarrow> json_ok v \<and> depth v \<le> k"

lemma shallow_mono: "shallow k v \<Longrightarrow> k \<le> l \<Longrightarrow> shallow l v"
  by (simp add: shallow_def)

lemma shallow_atom [simp]:
  "shallow k (JStr s)" "shallow k (JInt i)" "shallow k (JBool b)" "lit_ok l \<Longrightarrow> shallow k (JLit l)"
  by (auto simp: shallow_def JInt_def JStr_def)

lemma shallow_JNum [simp]: "shallow k (JNum (show_int i))"
  by (auto simp: shallow_def)

lemma shallow_JArr [simp]: "shallow (Suc k) (JArr vs) \<longleftrightarrow> (\<forall>v\<in>set vs. shallow k v)"
  by (auto simp: shallow_def)

lemma shallow_JObj [simp]: "shallow (Suc k) (JObj kvs) \<longleftrightarrow> (\<forall>(key, v)\<in>set kvs. lit_ok key \<and> shallow k v)"
  by (auto simp: shallow_def)

text \<open>The names of the fields stand for themselves in JSON.\<close>

lemma lower_plain:
  "\<forall>c\<in>set ''abcdefghijklmnopqrstuvwxyz_''. byte_in 0 0x7F c \<and> esc_ascii c = [c]"
  by (simp add: byte_in_def esc_ascii_def)

lemma lower_key: "set s \<subseteq> set ''abcdefghijklmnopqrstuvwxyz_'' \<Longrightarrow> \<forall>c\<in>set s. byte_in 0 0x7F c \<and> esc_ascii c = [c]"
  using lower_plain by blast

lemma lit_ok_key: "set s \<subseteq> set ''abcdefghijklmnopqrstuvwxyz_'' \<Longrightarrow> lit_ok s"
  using lower_key by (intro lit_ok_plain)

lemma key_lits [simp]:
  "lit_ok ''error''" "lit_ok ''name''" "lit_ok ''status''" "lit_ok ''port''" "lit_ok ''latency''"
  "lit_ok ''latency_ms''" "lit_ok ''bytes_in''" "lit_ok ''bytes_out''" "lit_ok ''conn_count''"
  "lit_ok ''uptime''" "lit_ok ''avg_latency''" "lit_ok ''avg_latency_ms''" "lit_ok ''healthy_tunnels''"
  "lit_ok ''healthy_count''" "lit_ok ''last_check''" "lit_ok ''total_bytes_in''" "lit_ok ''total_bytes_out''"
  "lit_ok ''total_checks''" "lit_ok ''total_conns''" "lit_ok ''total_count''" "lit_ok ''total_tunnels''"
  "lit_ok ''tunnels''" "lit_ok ''running''" "lit_ok ''enabled''" "lit_ok ''public_key''" "lit_ok ''endpoint''"
  "lit_ok ''subnet''" "lit_ok ''peer_count''" "lit_ok ''private_key''" "lit_ok ''address''" "lit_ok ''dns''"
  "lit_ok ''server_pubkey''" "lit_ok ''allowed_ips''" "lit_ok ''allowed_ip''" "lit_ok ''created_at''"
  "lit_ok ''config''" "lit_ok ''config_ini''" "lit_ok ''count''" "lit_ok ''gold_ports''"
  "lit_ok ''exit_country''" "lit_ok ''mode''" "lit_ok ''proxy_port''" "lit_ok ''peer_pubkey''"
  "lit_ok ''persistent_keepalive''"
  by (rule lit_ok_key, simp)+

section \<open>Answers\<close>

definition json_type :: "string \<times> string" where
  "json_type = (''Content-Type'', ''application/json'')"

text \<open>The body is one JSON value and a line break; it is empty only where a value cannot be encoded.\<close>

definition json_body :: "http_answer \<Rightarrow> bool" where
  "json_body x \<longleftrightarrow> (\<forall>rs. fst x = Ok rs \<longrightarrow> json_type \<in> set (rs_headers rs) \<longrightarrow>
     (\<exists>v. rs_body rs = Marshal v @ newline \<and> json_parse (rs_body rs) = Some v) \<or>
     rs_body rs = [] \<and> rs_status rs = 200)"

lemma json_body_json: "shallow (Suc (Suc (Suc (Suc 0)))) v \<Longrightarrow> json_body (respond_json code v aw)"
  using json_parse_line [of v]
  by (auto simp: json_body_def respond_defs writeJSON_def shallow_def newline_def)

lemma json_body_other [simp]:
  "json_body (respond (http_error msg code) aw)" "json_body (Panic p, aw)" "json_body (method_not_allowed aw)"
  "json_body (respond not_found aw)" "json_body (respond (redirect p) aw)"
  by (simp_all add: json_body_def respond_defs http_error_def json_type_def not_found_def redirect_def)

lemma json_body_headers: "json_type \<notin> set (rs_headers rs) \<Longrightarrow> json_body (respond rs aw)"
  by (simp add: json_body_def respond_def)

lemma shallow_map: "\<forall>p\<in>set kvs. shallow k (snd p) \<Longrightarrow> shallow (Suc k) (json_map kvs)"
  by (auto simp: json_map_def)

lemma shallow_error [simp]: "shallow (Suc k) (error_json t)" "shallow (Suc k) (done_json t n)"
  by (simp_all add: error_json_def done_json_def)

lemma json_body_error [simp]: "json_body (respond_json code (error_json t) aw)" "json_body (respond_json code (done_json s n) aw)"
  by (rule json_body_json, simp)+

lemma json_body_result [simp]: "json_body (tunnel_result H code s n a rw)"
  by (simp add: tunnel_result_def split: prod.split res.split)

lemma shallow_error_field: "(key, v) \<in> set (error_field t) \<Longrightarrow> lit_ok key \<and> shallow k v"
  by (auto simp: error_field_def split: if_splits)

lemma shallow_infos: "v \<in> set (fst (tunnel_infos E m is w)) \<Longrightarrow> shallow (Suc k) v"
proof (induction "is" arbitrary: w)
  case (Cons i "is")
  have "shallow (Suc k) (fst (tunnel_info E w1 t))" for w1 t
    using shallow_error_field by (auto simp: tunnel_info_def split: prod.split)
  then show ?case using Cons by (auto split: prod.splits) (metis fst_conv)+
qed simp

lemma shallow_encode_peer: "encode_peer (Some p) = Some v \<Longrightarrow> shallow (Suc k) v"
  by (auto simp: encode_peer_def marshal_time_def lit_ok_time split: if_splits)

lemma shallow_peers: "those (map (encode_peer \<circ> Some) ps) = Some vs \<Longrightarrow> v \<in> set vs \<Longrightarrow> shallow (Suc k) v"
  by (induction ps arbitrary: vs) (auto split: option.splits dest: shallow_encode_peer)

lemma json_body_handlers:
  assumes "(p, h) \<in> set routes"
  shows "json_body (h H r (a, w))"
proof -
  have "json_body (handleTunnels H r (a, w))"
    using shallow_infos [of _ "he_os H" "ap_tm a" "GetTunnels (ap_tm a)" w "Suc (Suc 0)"]
    by (auto simp: handleTunnels_def split: prod.splits intro!: json_body_json)
  moreover have "json_body (handleTunnelAction H r (a, w))"
    by (auto simp: handleTunnelAction_def Let_def split: prod.split res.split)
  moreover have "json_body (handleStats H r (a, w))"
    by (auto simp: handleStats_def Let_def intro!: json_body_json)
  moreover have "json_body (handleImport H r (a, w))" "json_body (handleImportURL H r (a, w))"
    "json_body (handleImportCustom H r (a, w))"
    by (auto simp: handleImport_def handleImportURL_def handleImportCustom_def Let_def
        split: upload.split option.split fetch.split)
  moreover have "json_body (handleCountries H r (a, w))"
    by (auto simp: handleCountries_def intro!: json_body_json shallow_map)
  moreover have "json_body (handleWGStatus H r (a, w))"
    by (auto simp: handleWGStatus_def status_json_def split: option.split prod.split res.split
        intro!: json_body_json)
  moreover have "json_body (handleWGPeers H r (a, w))"
  proof -
    have l: "json_body (respond (writeJSON 200 (map_option JArr (those (map (encode_peer \<circ> Some) peers)))) aw)" for peers aw
    proof (cases "those (map (encode_peer \<circ> Some) peers)")
      case (Some vs)
      then have "json_body (respond_json 200 (JArr vs) aw)" using shallow_peers by (intro json_body_json) simp
      then show ?thesis using Some by (simp add: respond_json_def)
    qed (simp add: json_body_def respond_def writeJSON_def)
    show ?thesis
      using l by (auto simp: handleWGPeers_def wg_disabled_def bad_name_def config_json_def Let_def
          split: option.split prod.split res.split intro!: json_body_json)
  qed
  moreover have "json_body (handleWGPeerAction H r (a, w))"
    by (auto simp: handleWGPeerAction_def Let_def wg_disabled_def split: option.split prod.split res.split
        intro!: json_body_headers) (simp_all add: json_type_def)
  moreover have "json_body (handleRoutingRoute H r (a, w))"
  proof -
    have st: "json_body (respond_json 200 (GetStatus rc) aw)" for rc aw
      by (rule json_body_json) (simp add: GetStatus_def)
    have "json_body (case SetMode (he_wg H) mode country port (rc, w) of
              (Ok u, rc1, w1) \<Rightarrow> respond_json 200 (GetStatus rc1) (a\<lparr>ap_rc := Some rc1\<rparr>, w1)
            | (Err e, rc1, w1) \<Rightarrow> respond_json 500 (error_json (wg_err_text H e)) (a\<lparr>ap_rc := Some rc1\<rparr>, w1)
            | (Panic p, rc1, w1) \<Rightarrow> (Panic p, a\<lparr>ap_rc := Some rc1\<rparr>, w1))" for mode country port rc
      by (simp add: st split: prod.split res.split)
    then show ?thesis by (simp add: handleRoutingRoute_def handleRouting_def Let_def st split: option.split)
  qed
  moreover have "json_body (handleGold H r (a, w))"
    by (auto simp: handleGold_def Let_def intro!: json_body_json)
  moreover have "json_body (handleEvents H r (a, w))"
    by (auto simp: handleEvents_def HandleSSE_def respond_def json_body_def json_type_def sse_headers_def split: prod.split)
  moreover have "json_body (respond (ServeDashboard (he_index H) r) (a, w))"
    by (auto simp: ServeDashboard_def json_body_def respond_def json_type_def not_found_def http_error_def split: option.split)
  ultimately show ?thesis using assms by (auto simp: routes_def)
qed

text \<open>
  C19. Every answer of the HTTP interface that says it is JSON is the text of one JSON value and a line
  break, whatever bytes the names, keys and messages in it hold, except for an answer with status 200
  and an empty body, which is what a list of peers becomes when a peer's date has no JSON form.
\<close>

theorem json_answers_parse:
  assumes "serve H r (a, w) = (Ok rs, a', w')" and "(''Content-Type'', ''application/json'') \<in> set (rs_headers rs)"
  shows "(\<exists>v. rs_body rs = Marshal v @ newline \<and> json_parse (rs_body rs) = Some v) \<or>
    rs_body rs = [] \<and> rs_status rs = 200"
proof -
  have "json_body (serve H r (a, w))"
  proof (cases rule: serve_route [of H r "(a, w)"])
    case (none rs)
    then show ?thesis by auto
  next
    case (route p h)
    then show ?thesis using json_body_handlers by metis
  qed
  then show ?thesis using assms by (simp add: json_body_def json_type_def)
qed

theorem json_answers_parse_witness:
  "\<exists>rs a' w' v. serve demo_hd (ask ''GET'' ''/api/wg/routing'' []) (demo_app, demo_world) = (Ok rs, a', w') \<and>
     json_parse (rs_body rs) = Some v"
proof -
  let ?r = "ask ''GET'' ''/api/wg/routing'' []"
  let ?rs = "writeJSON 200 (Some (GetStatus NewRoutingController))"
  have "serve demo_hd ?r (demo_app, demo_world) = handleRoutingRoute demo_hd ?r (demo_app, demo_world)"
    by (rule serve_fixed) (simp add: ask_def)
  then have s: "serve demo_hd ?r (demo_app, demo_world) = (Ok ?rs, demo_app, demo_world)"
    by (simp add: handleRoutingRoute_def handleRouting_def ask_def demo_app_def respond_defs)
  have "(''Content-Type'', ''application/json'') \<in> set (rs_headers ?rs)" "rs_body ?rs \<noteq> []"
    by (simp_all add: writeJSON_def newline_def)
  then obtain v where "json_parse (rs_body ?rs) = Some v" using json_answers_parse [OF s] by blast
  then show ?thesis using s by blast
qed

end
