(* ===== verification/Handlers_Api.thy ===== *)
theory Handlers_Api
  imports Handlers_Json
begin

text \<open>
  Whole uses of the HTTP interface, over several requests and components: switching the VPN traffic
  to a verified backend, adding a peer and fetching its configuration, and the names that no request
  can reach.
\<close>

section \<open>Paths\<close>

text \<open>The paths below \<^verbatim>\<open>/api/wg/peers/\<close>.\<close>

lemma clean_dir_path: "clean_dir d \<Longrightarrow> hd d = CHR ''/'' \<Longrightarrow> last d \<noteq> CHR ''/'' \<Longrightarrow> clean_path d = d"
  using clean_dir_nonempty [of d] by (simp add: clean_path_def clean_dir_def Let_def)

lemma clean_dir_child:
  assumes "clean_dir d" and "plain_elem e"
  shows "clean_dir (d @ ''/'' @ e)"
proof -
  have "d @ ''/'' @ e \<noteq> ''/''" "d @ ''/'' @ e \<noteq> ''.''"
    using assms clean_dir_nonempty [of d] by (auto simp: plain_elem_def append_eq_Cons_conv)
  then show ?thesis using path_clean_child [OF assms] by (simp add: clean_dir_def)
qed


lemma tunnel_action_pattern:
  assumes "CHR ''/'' \<in> set x"
  shows "best_pattern (map fst routes) (''/api/tunnels/'' @ x) = Some ''/api/tunnels/''"
proof -
  have "''/api/tunnels/'' @ x \<notin> set (map fst routes)" using assms by (auto simp: routes_def)
  moreover have "filter (\<lambda>p. has_suffix p ''/'' \<and> has_prefix (''/api/tunnels/'' @ x) p) (map fst routes)
      = [''/api/tunnels/'', ''/'']"
    by (simp add: routes_def has_suffix_def has_prefix_def)
  ultimately show ?thesis by (simp add: best_pattern_def)
qed

lemma serve_tunnel_action:
  assumes "plain_elem n" and "plain_elem act" and "rq_path r = ''/api/tunnels/'' @ n @ ''/'' @ act"
  shows "serve H r aw = handleTunnelAction H r aw"
proof (rule serve_path)
  have d: "clean_dir ''/api/tunnels''" by code_simp
  have "clean_dir (''/api/tunnels/'' @ n @ ''/'' @ act)"
    using clean_dir_child [OF clean_dir_child [OF d assms(1)] assms(2)] by simp
  moreover have "last (''/api/tunnels/'' @ n @ ''/'' @ act) \<noteq> CHR ''/''"
    using assms(2) by (metis append_is_Nil_conv last_appendR last_in_set plain_elem_def)
  ultimately show "clean_path (rq_path r) = rq_path r" using clean_dir_path assms(3) by simp
  show "best_pattern (map fst routes) (rq_path r) = Some ''/api/tunnels/''"
    using tunnel_action_pattern [of "n @ ''/'' @ act"] assms(3) by simp
  show "map_of routes ''/api/tunnels/'' = Some handleTunnelAction" by (simp add: routes_def)
qed


section \<open>The gold pool and the traffic of the VPN clients\<close>

text \<open>The pool after a deep check.\<close>

lemma deep_check_pool:
  assumes "\<And>xs. mset (finish xs) = mset xs"
  shows "set (GetGoldPorts (deepCheckAll curl finish c m)) =
    {t_ProxyPort (tun m i) | i. i \<in> set (GetTunnels m) \<and> t_Status (tun m i) = StatusRunning \<and>
       httpsProbe curl (t_ProxyPort (tun m i))}"
proof -
  have "set (finish xs) = set xs" for xs by (rule mset_eq_setD [OF assms])
  then show ?thesis by (auto simp: GetGoldPorts_def deepCheckAll_def Let_def)
qed

text \<open>
  C11. A request for proxied mode without a port goes through a verified backend: right after a deep
  check it is answered either with 503, when no running tunnel passed, nothing changed and no
  command ran, or with 200, and then the mode is proxied, its port belongs to a running tunnel that
  passed the check (10001 standing in for a port 0), and exactly the fixed list of commands ran.
\<close>

theorem proxied_mode_uses_verified_backend:
  assumes "rq_path r = ''/api/wg/routing''" and "rq_method r = ''POST''" and "ap_rc a = Some rc"
    and "decode_body routing_setters \<lparr>ro_Mode = [], ro_Country = [], ro_Port = 0\<rparr> (rq_body r) = Some q"
    and "ro_Mode q = ''proxied''" and "ro_Port q = 0"
    and "ap_hc a = deepCheckAll curl finish c m" and "\<And>xs. mset (finish xs) = mset xs"
    and "serve H r (a, w) = (Ok rs, a', w')"
  shows "rs_status rs = 503 \<and> a' = a \<and> w' = w \<and>
      (\<forall>i\<in>set (GetTunnels m). t_Status (tun m i) = StatusRunning \<longrightarrow> \<not> httpsProbe curl (t_ProxyPort (tun m i)))
    \<or> rs_status rs = 200 \<and> trace w' = trace w @ map shell proxied_cmds \<and>
      (\<exists>rc' i. ap_rc a' = Some rc' \<and> rc_mode rc' = ModeProxied \<and> rc_exitCountry rc' = ro_Country q \<and>
        i \<in> set (GetTunnels m) \<and> t_Status (tun m i) = StatusRunning \<and> httpsProbe curl (t_ProxyPort (tun m i)) \<and>
        rc_proxyPort rc' = (if t_ProxyPort (tun m i) = 0 then 10001 else t_ProxyPort (tun m i)))"
proof -
  let ?gold = "GetGoldPorts (ap_hc a)"
  have gold: "set ?gold = {t_ProxyPort (tun m i) | i. i \<in> set (GetTunnels m) \<and> t_Status (tun m i) = StatusRunning \<and>
       httpsProbe curl (t_ProxyPort (tun m i))}"
    unfolding assms(7) by (rule deep_check_pool [OF assms(8)])
  have s: "handleRouting H r rc (a, w) = (Ok rs, a', w')"
    using assms(9) serve_fixed(1) [OF assms(1)] assms(3) by (simp add: handleRoutingRoute_def)
  show ?thesis
  proof (cases "?gold = []")
    case True
    then have "rs_status rs = 503 \<and> a' = a \<and> w' = w"
      using s assms(2,4-6) by (auto simp: handleRouting_def Let_def respond_defs writeJSON_def)
    moreover have "\<forall>i\<in>set (GetTunnels m). t_Status (tun m i) = StatusRunning \<longrightarrow> \<not> httpsProbe curl (t_ProxyPort (tun m i))"
      using gold True by auto
    ultimately show ?thesis by blast
  next
    case False
    then have "?gold ! 0 \<in> set ?gold" by (intro nth_mem) simp
    then obtain i where i: "i \<in> set (GetTunnels m)" "t_Status (tun m i) = StatusRunning"
      "httpsProbe curl (t_ProxyPort (tun m i))" "?gold ! 0 = t_ProxyPort (tun m i)"
      unfolding gold by blast
    obtain x rc' w1 where m: "SetMode (he_wg H) ModeProxied (ro_Country q) (?gold ! 0) (rc, w) = (x, rc', w1)"
      by (metis prod.collapse)
    have res: "x = Ok ()" "rc' = \<lparr>rc_mode = ModeProxied, rc_exitCountry = ro_Country q,
        rc_proxyPort = (if ?gold ! 0 = 0 then 10001 else ?gold ! 0)\<rparr>"
      "trace w1 = trace w @ map shell proxied_cmds"
      using SetMode_result [of "he_wg H" ModeProxied "ro_Country q" "?gold ! 0" rc w] m by simp_all
    have "rs_status rs = 200 \<and> ap_rc a' = Some rc' \<and> w' = w1"
      using s assms(2,4-6) False m res(1) by (auto simp: handleRouting_def Let_def respond_defs writeJSON_def)
    then show ?thesis using i res by auto
  qed
qed

text \<open>A gateway with one running tunnel that passes the deep check.\<close>

definition one_tunnel :: manager where
  "one_tunnel = upd (add_tunnel (he_os demo_hd) (NewManager ''/c'' 10001) ''a'' ''/c/a.conf'') 0 (\<lambda>t. t\<lparr>t_Status := StatusRunning\<rparr>)"

definition proxied_app :: app where
  "proxied_app = demo_app\<lparr>ap_hc := deepCheckAll (\<lambda>_. (''200'', None)) (\<lambda>xs. xs) (NewChecker 0 0) one_tunnel\<rparr>"

definition proxied_body :: string where
  "proxied_body = Marshal (JObj [(''mode'', JStr ''proxied'')])"

theorem proxied_mode_uses_verified_backend_witness:
  "\<exists>rs a' w' rc'. serve demo_hd (ask ''POST'' ''/api/wg/routing'' proxied_body) (proxied_app, demo_world) = (Ok rs, a', w') \<and>
     rs_status rs = 200 \<and> ap_rc a' = Some rc' \<and> rc_proxyPort rc' = 10001"
proof -
  let ?r = "ask ''POST'' ''/api/wg/routing'' proxied_body"
  let ?q = "\<lparr>ro_Mode = ''proxied'', ro_Country = [], ro_Port = 0\<rparr>"
  have d: "decode_body routing_setters \<lparr>ro_Mode = [], ro_Country = [], ro_Port = 0\<rparr> proxied_body = Some ?q" by code_simp
  have gold: "GetGoldPorts (ap_hc proxied_app) = [10001]" by code_simp
  have path: "rq_path ?r = ''/api/wg/routing''" "rq_method ?r = ''POST''" "rq_body ?r = proxied_body" by (simp_all add: ask_def)
  have a: "ap_rc proxied_app = Some NewRoutingController"
    "ap_hc proxied_app = deepCheckAll (\<lambda>_. (''200'', None)) (\<lambda>xs. xs) (NewChecker 0 0) one_tunnel"
    by (simp_all add: proxied_app_def demo_app_def)
  have d': "decode_body routing_setters \<lparr>ro_Mode = [], ro_Country = [], ro_Port = 0\<rparr> (rq_body ?r) = Some ?q"
    unfolding path(3) by (rule d)
  obtain x rc1 w1 where "SetMode (he_wg demo_hd) ModeProxied [] 10001 (NewRoutingController, demo_world) = (x, rc1, w1)"
    by (metis prod.collapse)
  moreover from this have "x = Ok ()"
    using SetMode_result [of "he_wg demo_hd" ModeProxied "[]" 10001 NewRoutingController demo_world] by simp
  ultimately have s: "serve demo_hd ?r (proxied_app, demo_world) =
      (Ok (writeJSON 200 (Some (GetStatus rc1))), proxied_app\<lparr>ap_rc := Some rc1\<rparr>, w1)" (is "_ = (Ok ?rs, ?a, _)")
    unfolding serve_fixed(1) [OF path(1)]
    by (simp add: handleRoutingRoute_def a(1) handleRouting_def path d gold respond_defs)
  have ok: "rs_status ?rs = 200" by (simp add: writeJSON_def)
  have port: "t_ProxyPort (tun one_tunnel i) = 10001" if "i \<in> set (GetTunnels one_tunnel)" for i
  proof -
    have "GetTunnels one_tunnel = [0]" "t_ProxyPort (tun one_tunnel 0) = 10001" by code_simp+
    then show ?thesis using that by simp
  qed
  from proxied_mode_uses_verified_backend [OF path(1,2) a(1) d' _ _ a(2) _ s] ok port
  have "\<exists>rc'. ap_rc ?a = Some rc' \<and> rc_proxyPort rc' = 10001" by auto
  then show ?thesis using s ok by blast
qed

section \<open>Adding a peer and fetching its configuration\<close>




section \<open>Posting a tunnel\<close>

text \<open>The body a client sends for a tunnel, and how it is read.\<close>

definition custom_json :: "custom_request \<Rightarrow> json" where
  "custom_json q =
     JObj [(''name'', JStr (cu_Name q)), (''private_key'', JStr (cu_PrivateKey q)), (''address'', JStr (cu_Address q)),
           (''dns'', JStr (cu_DNS q)), (''peer_pubkey'', JStr (cu_PeerPubkey q)), (''endpoint'', JStr (cu_Endpoint q)),
           (''persistent_keepalive'', JInt (cu_Keepalive q))]"

lemma unquote_key: "set s \<subseteq> set ''abcdefghijklmnopqrstuvwxyz_'' \<Longrightarrow> unquote s = Some s"
  using lower_key by (intro unquote_plain)

lemma custom_keys:
  "unquote ''name'' = Some ''name''" "unquote ''private_key'' = Some ''private_key''"
  "unquote ''address'' = Some ''address''" "unquote ''dns'' = Some ''dns''"
  "unquote ''peer_pubkey'' = Some ''peer_pubkey''" "unquote ''endpoint'' = Some ''endpoint''"
  "unquote ''persistent_keepalive'' = Some ''persistent_keepalive''"
  by (rule unquote_key, simp)+

lemma custom_folds:
  "fold_name ''address'' = ''ADDRESS''" "fold_name ''dns'' = ''DNS''" "fold_name ''peer_pubkey'' = ''PEER_PUBKEY''"
  "fold_name ''endpoint'' = ''ENDPOINT''" "fold_name ''persistent_keepalive'' = ''PERSISTENT_KEEPALIVE''"
  by code_simp+

lemma parse_int64_show: "in_s64 i \<Longrightarrow> parse_int64 (show_int i) = Some i"
proof -
  assume i: "in_s64 i"
  have d: "list_all is_digit (show_nat n)" for n using show_nat_digits by (auto simp: list_all_iff)
  have "hd (show_nat n) \<noteq> CHR ''-''" for n
    using show_nat_digits [of "hd (show_nat n)" n] digit_not_minus by simp
  then show ?thesis using i d by (auto simp: parse_int64_def show_int_def Let_def)
qed

lemma first_value_Marshal: "shallow k v \<Longrightarrow> k \<le> 10000 \<Longrightarrow> first_value (Marshal v) = Some v"
  using parse_value_Marshal [of v] by (simp add: first_value_def shallow_def)

lemma decode_custom:
  assumes "\<forall>s\<in>{cu_Name q, cu_PrivateKey q, cu_Address q, cu_DNS q, cu_PeerPubkey q, cu_Endpoint q}. valid_utf8 s"
    and "in_s64 (cu_Keepalive q)"
  shows "decode_body custom_setters no_custom (Marshal (custom_json q)) = Some q"
proof -
  have "shallow (Suc 0) (custom_json q)" by (simp add: custom_json_def)
  then have f: "first_value (Marshal (custom_json q)) = Some (custom_json q)" by (rule first_value_Marshal) simp
  have "decode_struct custom_setters no_custom (custom_json q) = Some q"
    using assms by (simp add: decode_struct_def custom_json_def custom_setters_def custom_keys custom_folds fold_names
        set_string_def set_int_def JStr_def JInt_def unquote_esc_string parse_int64_show no_custom_def)
  then show ?thesis by (simp add: decode_body_def f)
qed

lemma ImportConfig_result:
  assumes "ImportConfig E w m n c = (Ok m', w')"
  shows "static m' = static (add_tunnel E m n (path_join (m_configDir m) (n @ ''.conf'')))"
    and "file_at w' (path_join (m_configDir m) (n @ ''.conf'')) = Some c"
proof -
  let ?p = "path_join (m_configDir m) (n @ ''.conf'')"
  obtain w1 where wr: "write_file E w ?p c = (None, w1)"
    and st: "startTunnel E w1 (add_tunnel E m n ?p) (length (m_heap m)) = (m', w')"
    using assms by (auto simp: ImportConfig_def Let_def split: prod.splits option.splits)
  show "static m' = static (add_tunnel E m n ?p)" using static_startTunnel [of E w1 "add_tunnel E m n ?p"] st by (metis fst_conv)
  show "file_at w' ?p = Some c" using write_file_ok [OF wr] startTunnel_frame st by (metis snd_conv)
qed

text \<open>What a successful post imports.\<close>

lemma posted_import:
  assumes "handleImportCustom H r (a, w) = (Ok rs, a', w')" and "rq_method r = ''POST''"
    and "decode_body custom_setters no_custom (rq_body r) = Some q" and "rs_status rs = 200"
  defines "q' \<equiv> if cu_Keepalive q = 0 then q\<lparr>cu_Keepalive := 25\<rparr> else q"
  shows "ImportConfig (he_os H) w (ap_tm a) (cu_Name q) (custom_conf q') = (Ok (ap_tm a'), w')"
    and "a' = a\<lparr>ap_tm := ap_tm a'\<rparr>"
proof -
  have ne: "cu_Name q \<noteq> [] \<and> cu_PrivateKey q \<noteq> [] \<and> cu_Address q \<noteq> [] \<and> cu_PeerPubkey q \<noteq> [] \<and> cu_Endpoint q \<noteq> []"
    using assms(1-4) by (auto simp: handleImportCustom_def respond_defs writeJSON_def split: if_splits)
  have "cu_Name q' = cu_Name q" by (simp add: q'_def)
  then have t: "tunnel_result H 500 ''imported'' (cu_Name q) a
      (ImportConfig (he_os H) w (ap_tm a) (cu_Name q) (custom_conf q')) = (Ok rs, a', w')"
    using assms(1-3) ne by (simp add: handleImportCustom_def Let_def q'_def del: if_split)
  obtain x w1 where x: "ImportConfig (he_os H) w (ap_tm a) (cu_Name q) (custom_conf q') = (x, w1)" by (metis prod.collapse)
  obtain m where "x = Ok m" "a' = a\<lparr>ap_tm := m\<rparr>" "w' = w1"
    using t x assms(4) by (cases x) (auto simp: tunnel_result_def respond_defs writeJSON_def)
  then show "ImportConfig (he_os H) w (ap_tm a) (cu_Name q) (custom_conf q') = (Ok (ap_tm a'), w')"
    and "a' = a\<lparr>ap_tm := ap_tm a'\<rparr>" using x by simp_all
qed

text \<open>
  C14. A tunnel posted as JSON arrives as it was sent: when a client posts the JSON of valid UTF-8
  values and gets status 200, the file of that name in the configuration directory is the WireGuard
  configuration of exactly these values (a keepalive of 0 standing for 25), and one tunnel was added,
  with that name, that file and the next free port.
\<close>

theorem posted_tunnel_arrives:
  assumes "rq_path r = ''/api/tunnels/import-custom''" and "rq_method r = ''POST''"
    and "rq_body r = Marshal (custom_json q)"
    and "\<forall>s\<in>{cu_Name q, cu_PrivateKey q, cu_Address q, cu_DNS q, cu_PeerPubkey q, cu_Endpoint q}. valid_utf8 s"
    and "in_s64 (cu_Keepalive q)" and "serve H r (a, w) = (Ok rs, a', w')" and "rs_status rs = 200"
  shows "let path = path_join (m_configDir (ap_tm a)) (cu_Name q @ ''.conf'');
      q' = (if cu_Keepalive q = 0 then q\<lparr>cu_Keepalive := 25\<rparr> else q)
    in file_at w' path = Some (custom_conf q') \<and>
       a' = a\<lparr>ap_tm := ap_tm a'\<rparr> \<and> static (ap_tm a') = static (add_tunnel (he_os H) (ap_tm a) (cu_Name q) path)"
proof -
  have d: "decode_body custom_setters no_custom (rq_body r) = Some q"
    unfolding assms(3) by (rule decode_custom [OF assms(4,5)])
  have h: "handleImportCustom H r (a, w) = (Ok rs, a', w')" using assms(6) serve_fixed(4) [OF assms(1)] by simp
  show ?thesis
    using ImportConfig_result [OF posted_import(1) [OF h assms(2) d assms(7)]] posted_import(2) [OF h assms(2) d assms(7)]
    by (simp add: Let_def)
qed

definition custom_a :: custom_request where
  "custom_a =
     \<lparr>cu_Name = ''a'', cu_PrivateKey = ''k'', cu_Address = ''10.2.0.2/32'', cu_DNS = [], cu_PeerPubkey = ''p'',
      cu_Endpoint = ''1.2.3.4:51820'', cu_Keepalive = 0\<rparr>"

lemma demo_decode: "decode_body custom_setters no_custom (Marshal (custom_json custom_a)) = Some custom_a"
proof (rule decode_custom)
  show "\<forall>s\<in>{cu_Name custom_a, cu_PrivateKey custom_a, cu_Address custom_a, cu_DNS custom_a, cu_PeerPubkey custom_a,
      cu_Endpoint custom_a}. valid_utf8 s" by code_simp
qed (simp add: custom_a_def in_s64_def)

lemma demo_post:
  "\<exists>rs a' w'. serve demo_hd (ask ''POST'' ''/api/tunnels/import-custom'' (Marshal (custom_json custom_a))) (demo_app, demo_world)
      = (Ok rs, a', w') \<and> rs_status rs = 200 \<and> a' = demo_app\<lparr>ap_tm := ap_tm a'\<rparr>"
proof -
  let ?r = "ask ''POST'' ''/api/tunnels/import-custom'' (Marshal (custom_json custom_a))"
  have path: "rq_path ?r = ''/api/tunnels/import-custom''" "rq_method ?r = ''POST''" "rq_body ?r = Marshal (custom_json custom_a)"
    by (simp_all add: ask_def)
  have f: "cu_Keepalive custom_a = 0" "cu_Name custom_a = ''a''" "cu_PrivateKey custom_a \<noteq> []" "cu_Address custom_a \<noteq> []"
    "cu_PeerPubkey custom_a \<noteq> []" "cu_Endpoint custom_a \<noteq> []" by (simp_all add: custom_a_def)
  have e: "write_fault (he_os demo_hd) k p = None" for k p by (simp add: demo_hd_def demo_env_def)
  obtain x w1 where x: "ImportConfig (he_os demo_hd) demo_world (ap_tm demo_app) ''a'' (custom_conf (custom_a\<lparr>cu_Keepalive := 25\<rparr>)) = (x, w1)"
    by (metis prod.collapse)
  moreover from this obtain m where "x = Ok m"
    by (auto simp: ImportConfig_def write_file_def e Let_def split: prod.splits)
  ultimately show ?thesis
    unfolding serve_fixed(4) [OF path(1)]
    by (simp add: handleImportCustom_def path demo_decode f tunnel_result_def respond_defs writeJSON_def)
qed

theorem posted_tunnel_arrives_witness:
  "\<exists>rs a' w'. serve demo_hd (ask ''POST'' ''/api/tunnels/import-custom'' (Marshal (custom_json custom_a))) (demo_app, demo_world)
      = (Ok rs, a', w') \<and> file_at w' ''/c/a.conf'' = Some (custom_conf (custom_a\<lparr>cu_Keepalive := 25\<rparr>))"
proof -
  let ?r = "ask ''POST'' ''/api/tunnels/import-custom'' (Marshal (custom_json custom_a))"
  obtain rs a' w' where s: "serve demo_hd ?r (demo_app, demo_world) = (Ok rs, a', w')" "rs_status rs = 200"
    using demo_post by blast
  have path: "rq_path ?r = ''/api/tunnels/import-custom''" "rq_method ?r = ''POST''" "rq_body ?r = Marshal (custom_json custom_a)"
    by (simp_all add: ask_def)
  have v: "\<forall>s\<in>{cu_Name custom_a, cu_PrivateKey custom_a, cu_Address custom_a, cu_DNS custom_a, cu_PeerPubkey custom_a,
      cu_Endpoint custom_a}. valid_utf8 s" by code_simp
  have k: "in_s64 (cu_Keepalive custom_a)" "cu_Keepalive custom_a = 0" by (simp_all add: custom_a_def in_s64_def)
  have p: "path_join (m_configDir (ap_tm demo_app)) (cu_Name custom_a @ ''.conf'') = ''/c/a.conf''" by code_simp
  show ?thesis using posted_tunnel_arrives [OF path v k(1) s] s(1) p k(2) by (auto simp: Let_def)
qed

section \<open>Names with a slash\<close>

text \<open>The names that the paths of requests carry.\<close>

lemma path_names_no_slash: "CHR ''/'' \<notin> set (split_on (CHR ''/'') s ! 0)" "CHR ''/'' \<notin> set (split2 (CHR ''/'') s ! 0)"
proof -
  show "CHR ''/'' \<notin> set (split_on (CHR ''/'') s ! 0)"
    using split_on_parts_absent [of "split_on (CHR ''/'') s ! 0" "CHR ''/''" s] by simp
  show "CHR ''/'' \<notin> set (split2 (CHR ''/'') s ! 0)"
    using hd_split2_absent [of "CHR ''/''" s] by (simp add: hd_conv_nth)
qed

definition unreached :: "manager \<Rightarrow> manager \<Rightarrow> bool" where
  "unreached m m' \<longleftrightarrow>
     (\<forall>i\<in>set (m_tunnels m). i < length (m_heap m) \<longrightarrow> CHR ''/'' \<in> set (t_Name (tun m i)) \<longrightarrow>
        i \<in> set (m_tunnels m') \<and> tun m' i = tun m i)"

lemma unreached_refl [simp]: "unreached m m"
  by (simp add: unreached_def)

lemma unreached_one:
  assumes "static m' = static m" and "\<And>j. j \<noteq> i \<Longrightarrow> tun m' j = tun m j"
    and "GetTunnel m n = Some i" and "CHR ''/'' \<notin> set n"
  shows "unreached m m'"
proof -
  have "t_Name (tun m i) = n" using assms(3) by (auto simp: GetTunnel_def dest: find_SomeD)
  then have "tun m' j = tun m j" if "CHR ''/'' \<in> set (t_Name (tun m j))" for j
    using that assms(4) by (intro assms(2)) auto
  then show ?thesis using assms(1) by (simp add: unreached_def static_def)
qed

lemma unreached_Restart:
  assumes "Restart E w m n = (Ok m', w')" and "CHR ''/'' \<notin> set n"
  shows "unreached m m'"
proof -
  obtain i m1 w1 where i: "GetTunnel m n = Some i" "stopTunnel E w m i = (Ok m1 :: (tun_err, manager) res, w1)"
    "startTunnel E w1 m1 i = (m', w')"
    using assms(1) by (auto simp: Restart_def split: option.splits prod.splits res.splits)
  have s: "fst (stopTunnel E w m i) = (Ok m1 :: (tun_err, manager) res)" using i(2) by (simp del: fst_stopTunnel)
  show ?thesis
  proof (rule unreached_one [OF _ _ i(1) assms(2)])
    show "static m' = static m" using static_stopTunnel [OF s] static_startTunnel [of E w1 m1 i] i(3) by simp
    show "tun m' j = tun m j" if "j \<noteq> i" for j
      using stopTunnel_others [OF s that] startTunnel_others [OF that, of E w1 m1] i(3) by simp
  qed
qed

lemma unreached_Disconnect:
  assumes "Disconnect E w m n = (Ok m', w')" and "CHR ''/'' \<notin> set n"
  shows "unreached m m'"
proof -
  obtain i m1 w1 where i: "GetTunnel m n = Some i" "stopTunnel E w m i = (Ok m1 :: (tun_err, manager) res, w1)"
    "m' = upd m1 i (\<lambda>t. t\<lparr>t_Status := StatusDisconnected\<rparr>)"
    using assms(1) by (auto simp: Disconnect_def split: option.splits prod.splits res.splits)
  have s: "fst (stopTunnel E w m i) = (Ok m1 :: (tun_err, manager) res)" using i(2) by (simp del: fst_stopTunnel)
  show ?thesis
  proof (rule unreached_one [OF _ _ i(1) assms(2)])
    show "static m' = static m" using static_stopTunnel [OF s] i(3) by (simp add: ident_def)
    show "tun m' j = tun m j" if "j \<noteq> i" for j using stopTunnel_others [OF s that] i(3) that by simp
  qed
qed

lemma in_remove_first: "x \<in> set xs \<Longrightarrow> \<not> P x \<Longrightarrow> x \<in> set (remove_first P xs)"
  by (induction xs) auto

lemma unreached_Delete:
  assumes "Delete E w m n = (x, m', w')" and "CHR ''/'' \<notin> set n"
  shows "unreached m m'"
proof (cases "\<exists>i m1 w1. GetTunnel m n = Some i \<and> stopTunnel E w m i = (Ok m1 :: (tun_err, manager) res, w1)")
  case True
  then obtain i m1 w1 where i: "GetTunnel m n = Some i" "stopTunnel E w m i = (Ok m1 :: (tun_err, manager) res, w1)" by blast
  have s: "fst (stopTunnel E w m i) = (Ok m1 :: (tun_err, manager) res)" using i(2) by (simp del: fst_stopTunnel)
  have u: "unreached m m1"
    by (rule unreached_one [OF static_stopTunnel [OF s] stopTunnel_others [OF s] i(1) assms(2)])
  have "m' = m1 \<or> m' = m1\<lparr>m_tunnels := remove_first (\<lambda>j. t_Name (tun m1 j) = n) (m_tunnels m1)\<rparr>"
    using assms(1) i by (auto simp: Delete_def split: prod.splits option.splits os_err.splits)
  then show ?thesis
  proof
    assume r: "m' = m1\<lparr>m_tunnels := remove_first (\<lambda>j. t_Name (tun m1 j) = n) (m_tunnels m1)\<rparr>"
    have "j \<in> set (remove_first (\<lambda>j. t_Name (tun m1 j) = n) (m_tunnels m1))"
      if "CHR ''/'' \<in> set (t_Name (tun m j))" "tun m1 j = tun m j" "j \<in> set (m_tunnels m1)" for j
      using that assms(2) by (intro in_remove_first) auto
    then show ?thesis using u unfolding r by (simp add: unreached_def)
  qed (simp add: u)
next
  case False
  then have "m' = m" using assms(1) by (auto simp: Delete_def split: option.splits prod.splits res.splits)
  then show ?thesis by simp
qed

lemma unreached_Import:
  assumes "ImportConfig E w m n c = (Ok m', w')"
  shows "unreached m m'"
proof -
  let ?m1 = "add_tunnel E m n (path_join (m_configDir m) (n @ ''.conf''))"
  obtain w1 where st: "startTunnel E w1 ?m1 (length (m_heap m)) = (m', w')"
    using assms by (auto simp: ImportConfig_def Let_def split: prod.splits option.splits)
  have "m_tunnels m' = m_tunnels ?m1"
    using static_startTunnel [of E w1 ?m1 "length (m_heap m)"] st by (simp add: static_def)
  moreover have "tun m' i = tun m i" if "i < length (m_heap m)" for i
    using startTunnel_others [of i "length (m_heap m)" E w1 ?m1] st that by (simp add: add_tunnel_def nth_append)
  ultimately show ?thesis by (auto simp: unreached_def add_tunnel_def)
qed

text \<open>The peers.\<close>

definition peers_unreached :: "wgserver option \<Rightarrow> wgserver option \<Rightarrow> bool" where
  "peers_unreached x y \<longleftrightarrow>
     (\<forall>s. x = Some s \<longrightarrow> (\<exists>s'. y = Some s' \<and>
        (\<forall>p\<in>set (peers_of s). CHR ''/'' \<in> set (p_Name p) \<longrightarrow> p \<in> set (peers_of s'))))"

lemma peers_unreached_refl [simp]: "peers_unreached x x"
  by (simp add: peers_unreached_def)

lemma peers_unreached_Add:
  assumes "AddPeer E n (s, w) = (x, s', w')" and "no_nil (sv_peers s)"
  shows "peers_unreached (Some s) (Some s')"
  using assms(1)
  by (cases rule: AddPeer_cases) (auto simp: peers_unreached_def dest!: added_peers(1) [OF _ assms(2)])

lemma peers_unreached_Remove:
  assumes "RemovePeer E n (s, w) = (x, s', w')" and "no_nil (sv_peers s)" and "CHR ''/'' \<notin> set n"
  shows "peers_unreached (Some s) (Some s')"
proof -
  have "peers_of s' = peers_of s \<or> peers_of s' = remove_first (\<lambda>p. p_Name p = n) (peers_of s)"
    using removed_peers [OF assms(1,2)] by (metis)
  then show ?thesis using assms(3) by (auto simp: peers_unreached_def intro!: in_remove_first)
qed

text \<open>What a request leaves.\<close>

definition leaves_slashed :: "app \<Rightarrow> http_answer \<Rightarrow> bool" where
  "leaves_slashed a x \<longleftrightarrow> unreached (ap_tm a) (ap_tm (fst (snd x))) \<and> peers_unreached (ap_wgs a) (ap_wgs (fst (snd x)))"

lemma leaves_slashed_same [simp]:
  "leaves_slashed a (respond rs (a, w))" "leaves_slashed a (respond_json code v (a, w))"
  "leaves_slashed a (method_not_allowed (a, w))" "leaves_slashed a (wg_disabled (a, w))"
  "leaves_slashed a (bad_name (a, w))" "leaves_slashed a (Panic p, a, w)"
  by (simp_all add: leaves_slashed_def respond_defs)

lemma leaves_slashed_result:
  "(\<And>m w1. rw = (Ok m, w1) \<Longrightarrow> unreached (ap_tm a) m) \<Longrightarrow> leaves_slashed a (tunnel_result H code s n a rw)"
  by (auto simp: tunnel_result_def leaves_slashed_def respond_defs split: prod.split res.split)

lemma leaves_slashed_tunnels:
  "leaves_slashed a (handleTunnelAction H r (a, w))"
  "leaves_slashed a (handleImport H r (a, w))" "leaves_slashed a (handleImportURL H r (a, w))"
  "leaves_slashed a (handleImportCustom H r (a, w))"
proof -
  define parts where "parts = split_on (CHR ''/'') (trim_prefix (rq_path r) ''/api/tunnels/'')"
  have n: "CHR ''/'' \<notin> set (parts ! 0)" by (simp add: parts_def path_names_no_slash)
  have d: "leaves_slashed a
      (case Delete (he_os H) w (ap_tm a) (parts ! 0) of
         (Ok _, m, w1) \<Rightarrow> respond_json 200 (done_json ''deleted'' (parts ! 0)) (a\<lparr>ap_tm := m\<rparr>, w1)
       | (Err e, m, w1) \<Rightarrow> respond_json 404 (error_json (tun_err_text (he_os H) e)) (a\<lparr>ap_tm := m\<rparr>, w1)
       | (Panic p, m, w1) \<Rightarrow> (Panic p, a\<lparr>ap_tm := m\<rparr>, w1))"
    by (auto simp: leaves_slashed_def respond_defs split: prod.split res.split dest: unreached_Delete [OF _ n])
  show "leaves_slashed a (handleTunnelAction H r (a, w))"
    using d n
    by (simp add: handleTunnelAction_def Let_def leaves_slashed_result unreached_Restart unreached_Disconnect flip: parts_def)
  show "leaves_slashed a (handleImport H r (a, w))" "leaves_slashed a (handleImportURL H r (a, w))"
    "leaves_slashed a (handleImportCustom H r (a, w))"
    by (auto simp: handleImport_def handleImportURL_def handleImportCustom_def Let_def
        split: upload.split option.split fetch.split intro!: leaves_slashed_result elim: unreached_Import)
qed

lemma leaves_slashed_peers:
  assumes "\<forall>s. ap_wgs a = Some s \<longrightarrow> no_nil (sv_peers s)"
  shows "leaves_slashed a (handleWGPeers H r (a, w))" and "leaves_slashed a (handleWGPeerAction H r (a, w))"
proof -
  show "leaves_slashed a (handleWGPeers H r (a, w))"
  proof (cases "ap_wgs a")
    case (Some s)
    have "leaves_slashed a
        (case AddPeer (he_wg H) n (s, w) of
           (Ok cc, s1, w1) \<Rightarrow> respond_json 200 (f cc) (a\<lparr>ap_wgs := Some s1\<rparr>, w1)
         | (Err e, s1, w1) \<Rightarrow> respond_json 500 (error_json (wg_err_text H e)) (a\<lparr>ap_wgs := Some s1\<rparr>, w1)
         | (Panic p, s1, w1) \<Rightarrow> (Panic p, a\<lparr>ap_wgs := Some s1\<rparr>, w1))" for n f
      using Some assms
      by (auto simp: leaves_slashed_def respond_defs split: prod.split res.split intro!: peers_unreached_Add)
    then show ?thesis using Some by (auto simp: handleWGPeers_def split: option.split res.split)
  qed (simp add: handleWGPeers_def)
  show "leaves_slashed a (handleWGPeerAction H r (a, w))"
  proof (cases "ap_wgs a")
    case (Some s)
    define n where "n = split2 (CHR ''/'') (trim_prefix (rq_path r) ''/api/wg/peers/'') ! 0"
    have "CHR ''/'' \<notin> set n" by (simp add: n_def path_names_no_slash)
    then have "leaves_slashed a
        (case RemovePeer (he_wg H) n (s, w) of
           (Ok _, s1, w1) \<Rightarrow> respond_json 200 (done_json ''deleted'' n) (a\<lparr>ap_wgs := Some s1\<rparr>, w1)
         | (Err e, s1, w1) \<Rightarrow> respond_json 404 (error_json (wg_err_text H e)) (a\<lparr>ap_wgs := Some s1\<rparr>, w1)
         | (Panic p, s1, w1) \<Rightarrow> (Panic p, a\<lparr>ap_wgs := Some s1\<rparr>, w1))"
      using Some assms
      by (auto simp: leaves_slashed_def respond_defs split: prod.split res.split dest: peers_unreached_Remove)
    then show ?thesis
      using Some by (auto simp: handleWGPeerAction_def Let_def split: prod.split res.split simp flip: n_def)
  qed (simp add: handleWGPeerAction_def)
qed

lemma leaves_slashed_rest:
  "leaves_slashed a (handleTunnels H r (a, w))" "leaves_slashed a (handleStats H r (a, w))"
  "leaves_slashed a (handleCountries H r (a, w))" "leaves_slashed a (handleWGStatus H r (a, w))"
  "leaves_slashed a (handleGold H r (a, w))" "leaves_slashed a (handleEvents H r (a, w))"
  by (auto simp: handleTunnels_def handleStats_def handleCountries_def handleWGStatus_def handleGold_def
      handleEvents_def Let_def leaves_slashed_def respond_defs split: prod.splits option.splits res.splits)

lemma leaves_slashed_Routing: "leaves_slashed a (handleRoutingRoute H r (a, w))"
  by (simp add: handleRoutingRoute_def handleRouting_def Let_def leaves_slashed_def respond_defs
      split: option.split prod.split res.split)

text \<open>
  C36. No request can act on a tunnel or a peer whose name contains a slash: whatever the request,
  such a tunnel stays listed with its status and all other fields unchanged, and such a peer stays
  in the list. (Both can be created by requests: the names come from JSON bodies and upload names
  there, but from one element of the path where they are removed.)
\<close>

theorem slashed_names_unreachable:
  assumes "serve H r (a, w) = (x, a', w')" and "\<forall>s. ap_wgs a = Some s \<longrightarrow> no_nil (sv_peers s)"
  shows "(\<forall>i\<in>set (m_tunnels (ap_tm a)). i < length (m_heap (ap_tm a)) \<longrightarrow> CHR ''/'' \<in> set (t_Name (tun (ap_tm a) i)) \<longrightarrow>
           i \<in> set (m_tunnels (ap_tm a')) \<and> tun (ap_tm a') i = tun (ap_tm a) i) \<and>
    (\<forall>s. ap_wgs a = Some s \<longrightarrow> (\<exists>s'. ap_wgs a' = Some s' \<and>
       (\<forall>p\<in>set (peers_of s). CHR ''/'' \<in> set (p_Name p) \<longrightarrow> p \<in> set (peers_of s'))))"
proof -
  have "leaves_slashed a (serve H r (a, w))"
  proof (cases rule: serve_route [of H r "(a, w)"])
    case (route p h)
    then show ?thesis
      using leaves_slashed_tunnels leaves_slashed_peers [OF assms(2)] leaves_slashed_rest leaves_slashed_Routing
      by (auto simp: routes_def)
  qed simp
  then show ?thesis using assms(1) by (simp add: leaves_slashed_def unreached_def peers_unreached_def)
qed

definition slashed_tunnel :: manager where
  "slashed_tunnel = add_tunnel (he_os demo_hd) (NewManager ''/c'' 10001) ''a/b'' ''/c/a/b.conf''"

theorem slashed_names_unreachable_witness:
  "\<exists>x a' w'. serve demo_hd (ask ''DELETE'' ''/api/tunnels/a/b'' []) (demo_app\<lparr>ap_tm := slashed_tunnel\<rparr>, demo_world) = (x, a', w') \<and>
     0 \<in> set (m_tunnels (ap_tm a'))"
proof -
  let ?a = "demo_app\<lparr>ap_tm := slashed_tunnel\<rparr>"
  obtain x a' w' where s: "serve demo_hd (ask ''DELETE'' ''/api/tunnels/a/b'' []) (?a, demo_world) = (x, a', w')"
    by (metis prod.collapse)
  have "\<forall>s. ap_wgs ?a = Some s \<longrightarrow> no_nil (sv_peers s)" using demo_inv by (simp add: demo_app_def wg_inv_def)
  from slashed_names_unreachable [OF s this]
  have "\<forall>i\<in>set (m_tunnels slashed_tunnel). i < length (m_heap slashed_tunnel) \<longrightarrow> CHR ''/'' \<in> set (t_Name (tun slashed_tunnel i)) \<longrightarrow>
      i \<in> set (m_tunnels (ap_tm a'))" by simp
  moreover have "0 \<in> set (m_tunnels slashed_tunnel)" "0 < length (m_heap slashed_tunnel)"
    "CHR ''/'' \<in> set (t_Name (tun slashed_tunnel 0))" by (simp_all add: slashed_tunnel_def add_tunnel_def new_tunnel_def NewManager_def)
  ultimately have "0 \<in> set (m_tunnels (ap_tm a'))" by blast
  then show ?thesis using s by blast
qed

end
