(* ===== verification/Interleave.thy ===== *)
theory Interleave
  imports Prelude
begin

text \<open>
  Goroutines that take turns: each stands at a program point, a step moves one of them on and changes
  the state they share. What goroutines are is a contract: a finished one has no effect any more, and
  a rank bounds the number of steps that are left. The goroutines that start tunnels (theory
  \<open>Tunnels_Start\<close>) and those that pick a backend (theory \<open>Proxy_Race\<close>) are interpretations.
\<close>

section \<open>Schedules\<close>

inductive turns :: "('p \<Rightarrow> 's \<Rightarrow> 'p \<times> 's) \<Rightarrow> ('p \<Rightarrow> bool) \<Rightarrow> 'p list \<times> 's \<Rightarrow> 'p list \<times> 's \<Rightarrow> bool"
  for step finished where
  turn: "k < length ps \<Longrightarrow> \<not> finished (ps ! k) \<Longrightarrow> step (ps ! k) s = (p', s') \<Longrightarrow>
     turns step finished (ps, s) (ps[k := p'], s')"

inductive_cases turnsE: "turns step finished c c'"

abbreviation schedule :: "('p \<Rightarrow> 's \<Rightarrow> 'p \<times> 's) \<Rightarrow> ('p \<Rightarrow> bool) \<Rightarrow> 'p list \<times> 's \<Rightarrow> 'p list \<times> 's \<Rightarrow> bool" where
  "schedule step finished \<equiv> (turns step finished)\<^sup>*\<^sup>*"

lemma turns_at:
  "\<not> finished p \<Longrightarrow> step p s = (p', s') \<Longrightarrow> turns step finished (pre @ p # post, s) (pre @ p' # post, s')"
  using turns.turn [of "length pre" "pre @ p # post" finished step s p' s'] by simp

text \<open>An invariant that every step keeps, for the goroutine that makes it and for the others.\<close>

lemma schedule_invariant:
  assumes "schedule step finished c c'" and "I c" and "\<And>c c'. turns step finished c c' \<Longrightarrow> I c \<Longrightarrow> I c'"
  shows "I c'"
  using assms(1,2) by (induction rule: rtranclp_induct) (auto intro: assms(3))

lemma schedule_length: "schedule step finished c c' \<Longrightarrow> length (fst c') = length (fst c)"
  by (induction rule: rtranclp_induct) (auto elim: turnsE)

text \<open>Several steps of one goroutine.\<close>

fun solo :: "('p \<Rightarrow> 's \<Rightarrow> 'p \<times> 's) \<Rightarrow> nat \<Rightarrow> 'p \<Rightarrow> 's \<Rightarrow> 'p \<times> 's" where
  "solo step 0 p s = (p, s)"
| "solo step (Suc n) p s = (case step p s of (p', s') \<Rightarrow> solo step n p' s')"

section \<open>The contract\<close>

locale goroutines =
  fixes step :: "'p \<Rightarrow> 's \<Rightarrow> 'p \<times> 's" and finished :: "'p \<Rightarrow> bool" and rank :: "'p \<Rightarrow> nat"
  assumes stays: "finished p \<Longrightarrow> step p s = (p, s)"
    and rank_less: "\<not> finished p \<Longrightarrow> step p s = (p', s') \<Longrightarrow> rank p' < rank p"
begin

text \<open>A goroutine that runs alone among others.\<close>

lemma solo_schedule: "solo step n p s = (p', s') \<Longrightarrow> schedule step finished (pre @ p # post, s) (pre @ p' # post, s')"
proof (induction n arbitrary: p s)
  case (Suc n)
  obtain q s1 where q: "step p s = (q, s1)" by (metis prod.exhaust)
  then have r: "schedule step finished (pre @ q # post, s1) (pre @ p' # post, s')" using Suc by simp
  show ?case
  proof (cases "finished p")
    case True
    then show ?thesis using r q stays by simp
  next
    case False
    from turns_at [of finished p step s, OF this q] r show ?thesis by (rule converse_rtranclp_into_rtranclp)
  qed
qed simp

text \<open>Every turn lowers the sum of the ranks, so no schedule is longer than that sum.\<close>

definition work :: "'p list \<times> 's \<Rightarrow> nat" where
  "work c = sum_list (map rank (fst c))"

lemma turns_work: "turns step finished c c' \<Longrightarrow> work c' < work c"
proof (erule turnsE)
  fix k ps s p' s'
  assume c: "c = (ps, s)" "c' = (ps[k := p'], s')" "k < length ps" "\<not> finished (ps ! k)" "step (ps ! k) s = (p', s')"
  then have "rank p' < rank (ps ! k)" using rank_less by blast
  moreover have "rank (ps ! k) \<le> sum_list (map rank ps)" using elem_le_sum_list [of k "map rank ps"] c(3) by simp
  ultimately show ?thesis using c by (simp add: work_def map_update sum_list_update)
qed

lemma no_infinite_schedule: "\<nexists>f. \<forall>n. turns step finished (f n) (f (Suc n))"
proof
  assume "\<exists>f. \<forall>n. turns step finished (f n) (f (Suc n))"
  then obtain f where f: "\<And>n. work (f (Suc n)) < work (f n)" using turns_work by blast
  have "work (f n) + n \<le> work (f 0)" for n
  proof (induction n)
    case (Suc n)
    then show ?case using f [of n] by simp
  qed simp
  from this [of "Suc (work (f 0))"] show False by simp
qed

text \<open>And every schedule can be brought to its end.\<close>

lemma completes: "\<exists>ps s'. schedule step finished c (ps, s') \<and> (\<forall>p\<in>set ps. finished p)"
proof (induction "work c" arbitrary: c rule: less_induct)
  case less
  show ?case
  proof (cases "\<forall>p\<in>set (fst c). finished p")
    case True
    then show ?thesis by (metis prod.collapse rtranclp.rtrancl_refl)
  next
    case False
    then obtain k where k: "k < length (fst c)" "\<not> finished (fst c ! k)" by (auto simp: in_set_conv_nth)
    obtain p' s' where "step (fst c ! k) (snd c) = (p', s')" by (metis prod.exhaust)
    then have t: "turns step finished c ((fst c)[k := p'], s')"
      using turns.turn [of k "fst c" finished step "snd c" p' s'] k by simp
    from less [OF turns_work [OF t]] show ?thesis using t by (meson converse_rtranclp_into_rtranclp)
  qed
qed

end

end
