(* ===== verification/Tunnels_Start.thy ===== *)
theory Tunnels_Start
  imports Tunnels_Props Interleave
begin

text \<open>
  The goroutines that start tunnels, section by section. \<^verbatim>\<open>StartAll\<close>, \<^verbatim>\<open>Restart\<close> and \<^verbatim>\<open>ImportConfig\<close>
  launch \<^verbatim>\<open>startTunnel\<close> with \<^verbatim>\<open>go\<close>, so several of them run at once. Here one step is one section of
  \<^verbatim>\<open>startTunnel\<close> under the tunnel's mutex, or the making of the temporary file, or the launch of the
  process, and the scheduler picks any goroutine. Run alone, the steps are the function \<open>startTunnel\<close>;
  goroutines for different tunnels do not disturb each other; two for the same tunnel do.
\<close>

section \<open>Steps\<close>

text \<open>Where a goroutine stands: what it does next.\<close>

datatype start_pc =
    SBegin
  | SGenerate
  | SConf string        \<comment> \<open>the temporary file has been written\<close>
  | SLaunch string
  | SStarted nat        \<comment> \<open>the process runs\<close>
  | SFail string        \<comment> \<open>the error is to be stored\<close>
  | SDone

fun start_step :: "env \<Rightarrow> nat \<Rightarrow> start_pc \<Rightarrow> manager \<times> world \<Rightarrow> start_pc \<times> manager \<times> world" where
  "start_step E i SBegin (m, w) = (SGenerate, start_begin m i, w)"
| "start_step E i SGenerate (m, w) =
     (case generateWireproxyConfig E w (tun m i) of
        (Ok tmp, w1) \<Rightarrow> (SConf tmp, m, w1)
      | (Err e, w1) \<Rightarrow> (SFail (''config generation failed: '' @ tun_err_text E e), m, w1)
      | (Panic p, w1) \<Rightarrow> (SDone, m, w1))"
| "start_step E i (SConf tmp) (m, w) = (SLaunch tmp, start_conf m i tmp, w)"
| "start_step E i (SLaunch tmp) (m, w) =
     (case spawn E w [''wireproxy'', ''-c'', tmp] of
        (Inl e, w1) \<Rightarrow> (SFail (''failed to start wireproxy: '' @ e), m, w1)
      | (Inr pid, w1) \<Rightarrow> (SStarted pid, m, w1))"
| "start_step E i (SStarted pid) (m, w) =
     (case now E w of (at, w1) \<Rightarrow> (SDone, start_run m i pid at, w1))"
| "start_step E i (SFail txt) (m, w) = (SDone, start_error m i txt, w)"
| "start_step E i SDone (m, w) = (SDone, m, w)"

text \<open>A goroutine is a tunnel and a program point.\<close>

definition start_turn :: "env \<Rightarrow> nat \<times> start_pc \<Rightarrow> manager \<times> world \<Rightarrow> (nat \<times> start_pc) \<times> manager \<times> world" where
  "start_turn E t mw = (case start_step E (fst t) (snd t) mw of (pc', mw') \<Rightarrow> ((fst t, pc'), mw'))"

definition start_done :: "nat \<times> start_pc \<Rightarrow> bool" where
  "start_done t \<longleftrightarrow> snd t = SDone"

fun start_rank :: "start_pc \<Rightarrow> nat" where
  "start_rank SBegin = 5"
| "start_rank SGenerate = 4"
| "start_rank (SConf tmp) = 3"
| "start_rank (SLaunch tmp) = 2"
| "start_rank (SStarted pid) = 1"
| "start_rank (SFail txt) = 1"
| "start_rank SDone = 0"

lemma start_step_rank:
  "pc \<noteq> SDone \<Longrightarrow> start_step E i pc mw = (pc', mw') \<Longrightarrow> start_rank pc' < start_rank pc"
  by (cases pc; cases mw) (auto split: res.splits prod.splits sum.splits)

interpretation starting: goroutines "start_turn E" start_done "start_rank \<circ> snd" for E
  by unfold_locales (auto simp: start_turn_def start_done_def split: prod.splits dest: start_step_rank)

type_synonym starts = "(nat \<times> start_pc) list \<times> manager \<times> world"

abbreviation start_runs :: "env \<Rightarrow> starts \<Rightarrow> starts \<Rightarrow> bool" where
  "start_runs E \<equiv> schedule (start_turn E) start_done"

lemma start_turnE:
  assumes "turns (start_turn E) start_done s s'"
  obtains k ts i pc m w pc' m' w' where "s = (ts, m, w)" "s' = (ts[k := (i, pc')], m', w')" "k < length ts"
    "ts ! k = (i, pc)" "start_step E i pc (m, w) = (pc', m', w')"
proof (rule turnsE [OF assms])
  fix k ts mw t' mw'
  assume t: "s = (ts, mw)" "s' = (ts[k := t'], mw')" "k < length ts" "start_turn E (ts ! k) mw = (t', mw')"
  obtain i pc m w m' w' where "ts ! k = (i, pc)" "mw = (m, w)" "mw' = (m', w')" by (metis prod.exhaust)
  with t show thesis by (intro that [of ts m w k i "snd t'" m' w' pc]) (auto simp: start_turn_def split: prod.splits)
qed

definition fresh_starts :: "nat list \<Rightarrow> (nat \<times> start_pc) list" where
  "fresh_starts is = map (\<lambda>i. (i, SBegin)) is"

definition finished_starts :: "nat list \<Rightarrow> (nat \<times> start_pc) list" where
  "finished_starts is = map (\<lambda>i. (i, SDone)) is"

section \<open>One goroutine alone\<close>

text \<open>Five steps of one goroutine are the function \<open>startTunnel\<close> (fewer suffice when it fails).\<close>

lemma start_alone: "solo (start_turn E) 5 (i, SBegin) (m, w) = ((i, SDone), startTunnel E w m i)"
proof -
  have five: "(5::nat) = Suc (Suc (Suc (Suc (Suc 0))))" by simp
  show ?thesis
    unfolding five startTunnel_def Let_def
    by (simp add: start_turn_def split: res.split prod.split sum.split)
qed

text \<open>Hence the sequential \<open>start_each\<close>, the loop of \<^verbatim>\<open>StartAll\<close>, is one of the schedules.\<close>

lemma start_one_runs:
  "startTunnel E w m i = (m', w') \<Longrightarrow> start_runs E (pre @ (i, SBegin) # post, m, w) (pre @ (i, SDone) # post, m', w')"
  by (rule starting.solo_schedule [of E 5]) (simp add: start_alone)

lemma start_each_runs:
  "start_runs E (pre @ fresh_starts is, m, w) (pre @ finished_starts is, start_each E w m is)"
proof (induction "is" arbitrary: pre m w)
  case (Cons i js)
  obtain m1 w1 where s: "startTunnel E w m i = (m1, w1)" by (metis prod.exhaust)
  have "start_runs E (pre @ (i, SBegin) # fresh_starts js, m, w) (pre @ (i, SDone) # fresh_starts js, m1, w1)"
    by (rule start_one_runs [OF s])
  also have "start_runs E \<dots> ((pre @ [(i, SDone)]) @ finished_starts js, start_each E w1 m1 js)"
    using Cons.IH [of "pre @ [(i, SDone)]" m1 w1] by simp
  finally show ?case using s by (simp add: fresh_starts_def finished_starts_def)
qed (simp add: fresh_starts_def finished_starts_def)

lemma start_turn_tunnels: "turns (start_turn E) start_done s s' \<Longrightarrow> map fst (fst s') = map fst (fst s)"
  by (erule start_turnE) (simp add: map_update list_update_same_conv)

lemma runs_same_tunnels: "start_runs E s s' \<Longrightarrow> map fst (fst s') = map fst (fst s)"
  by (induction rule: rtranclp_induct) (simp_all add: start_turn_tunnels)

section \<open>Goroutines for different tunnels\<close>











section \<open>Two goroutines for the same tunnel\<close>

text \<open>\<^verbatim>\<open>Restart\<close> as its caller sees it: it returns when the goroutine has been launched, not run.\<close>

definition Restart_launch ::
    "env \<Rightarrow> world \<Rightarrow> manager \<Rightarrow> string \<Rightarrow> (tun_err, manager \<times> (nat \<times> start_pc)) res \<times> world" where
  "Restart_launch E w m name =
     (case GetTunnel m name of
        None \<Rightarrow> (Err (TunnelNotFound name), w)
      | Some i \<Rightarrow>
          (case stopTunnel E w m i of
             (Ok m1, w1) \<Rightarrow> (Ok (m1, (i, SBegin)), w1)
           | (Err e, w1) \<Rightarrow> (Err e, w1)
           | (Panic p, w1) \<Rightarrow> (Panic p, w1)))"

lemma Restart_launch_runs:
  assumes "Restart_launch E w m name = (Ok (m1, t), w1)"
  shows "\<exists>m2 w2. start_runs E ([t], m1, w1) ([(fst t, SDone)], m2, w2) \<and> Restart E w m name = (Ok m2, w2)"
proof -
  obtain i where i: "GetTunnel m name = Some i" "stopTunnel E w m i = (Ok m1 :: (tun_err, manager) res, w1)" "t = (i, SBegin)"
    using assms by (auto simp: Restart_launch_def split: option.splits prod.splits res.splits)
  obtain m2 w2 where s: "startTunnel E w1 m1 i = (m2, w2)" by (metis prod.exhaust)
  have "start_runs E ([] @ (i, SBegin) # [], m1, w1) ([] @ (i, SDone) # [], m2, w2)"
    by (rule start_one_runs [OF s])
  then show ?thesis using i s by (simp add: Restart_def)
qed

text \<open>A stop signals no other process than the one the tunnel refers to.\<close>

lemma stopTunnel_signals:
  fixes r :: "('e, manager) res"
  assumes "stopTunnel E w m i = (r, w')"
  shows "\<exists>es. trace w' = trace w @ es \<and> (\<forall>e\<in>set es. \<exists>pid. t_cmd (tun m i) = Some pid \<and> (e = Interrupt pid \<or> e = Kill pid))"
proof -
  have n: "trace (note_event u e) = trace u @ [e]" for u e by (simp add: note_event_def tock_def)
  obtain x :: "('e, manager) res" and w1 where s: "stop_signal E w m i = (x, w1)" "trace w' = trace w1"
    using assms by (cases "stop_signal E w m i :: ('e, manager) res \<times> world") (auto simp: stopTunnel_def split: res.splits if_splits)
  show ?thesis unfolding s(2)
    using s(1) by (auto simp: stop_signal_def stop_wait_def Let_def n split: option.splits res.splits if_splits)
qed

text \<open>A launched process is about to get, or has, a goroutine that waits for it.\<close>

definition launched_inv :: "nat \<Rightarrow> event list \<Rightarrow> starts \<Rightarrow> bool" where
  "launched_inv i es0 s \<longleftrightarrow> (case s of (ts, m, w) \<Rightarrow>
     (\<forall>t\<in>set ts. fst t = i) \<and> (\<exists>es. trace w = es0 @ es \<and>
       (\<forall>a pid. Spawn a pid \<in> set es \<longrightarrow> (i, SStarted pid) \<in> set ts \<or> (pid, i) \<in> set (m_waiters m))))"

lemma start_step_launched:
  assumes "start_step E i pc (m, w) = (pc', m', w')"
  shows "\<exists>es. trace w' = trace w @ es \<and> (\<forall>a pid. Spawn a pid \<in> set es \<longrightarrow> pc' = SStarted pid) \<and>
    set (m_waiters m) \<subseteq> set (m_waiters m') \<and> (\<forall>pid. pc = SStarted pid \<longrightarrow> (pid, i) \<in> set (m_waiters m'))"
proof -
  have g: "trace w1 = trace w" if "generateWireproxyConfig E w t = (r, w1)" for t r w1
    using trace_generate [of E w t] that by simp
  show ?thesis
    using assms g
    by (cases pc) (auto simp: spawn_def now_def start_begin_def start_error_def start_conf_def start_run_def
        split: res.splits prod.splits sum.splits)
qed

lemma launched_step:
  assumes "turns (start_turn E) start_done s s'" and "launched_inv i es0 s"
  shows "launched_inv i es0 s'"
proof -
  from assms(1) obtain k ts j pc m w pc' m' w' where turn: "s = (ts, m, w)" "s' = (ts[k := (j, pc')], m', w')"
    "k < length ts" "ts ! k = (j, pc)" "start_step E j pc (m, w) = (pc', m', w')" by (rule start_turnE)
  obtain es where es: "trace w = es0 @ es"
    "\<And>a pid. Spawn a pid \<in> set es \<Longrightarrow> (i, SStarted pid) \<in> set ts \<or> (pid, i) \<in> set (m_waiters m)"
    and i: "\<forall>t\<in>set ts. fst t = i"
    using assms(2) turn(1) by (auto simp: launched_inv_def)
  have j: "j = i" using i turn(3,4) by (metis fst_conv nth_mem)
  obtain es1 where es1: "trace w' = trace w @ es1" "\<And>a pid. Spawn a pid \<in> set es1 \<Longrightarrow> pc' = SStarted pid"
    "set (m_waiters m) \<subseteq> set (m_waiters m')" "\<And>pid. pc = SStarted pid \<Longrightarrow> (pid, i) \<in> set (m_waiters m')"
    using start_step_launched [OF turn(5)] j by blast
  have new: "(i, pc') \<in> set (ts[k := (i, pc')])" using turn(3) by (rule set_update_memI)
  have old: "(i, SStarted pid) \<in> set (ts[k := (i, pc')]) \<or> (pid, i) \<in> set (m_waiters m')"
    if "(i, SStarted pid) \<in> set ts" for pid
  proof -
    from that obtain l where l: "l < length ts" "ts ! l = (i, SStarted pid)" by (auto simp: in_set_conv_nth)
    show ?thesis
    proof (cases "l = k")
      case True
      then show ?thesis using l(2) turn(4) es1(4) by simp
    next
      case False
      then have "ts[k := (i, pc')] ! l = (i, SStarted pid)" using l(2) by simp
      then show ?thesis using l(1) nth_mem [of l "ts[k := (i, pc')]"] by simp
    qed
  qed
  have "(i, SStarted pid) \<in> set (ts[k := (i, pc')]) \<or> (pid, i) \<in> set (m_waiters m')"
    if "Spawn a pid \<in> set (es @ es1)" for a pid
  proof (cases "Spawn a pid \<in> set es1")
    case True
    then show ?thesis using es1(2) new by blast
  next
    case False
    then have "(i, SStarted pid) \<in> set ts \<or> (pid, i) \<in> set (m_waiters m)" using that es(2) by auto
    then show ?thesis using old es1(3) by blast
  qed
  moreover have "\<forall>t\<in>set (ts[k := (i, pc')]). fst t = i"
    using i set_update_subset_insert [of ts k "(i, pc')"] by auto
  moreover have "trace w' = es0 @ (es @ es1)" using es(1) es1(1) by simp
  ultimately show ?thesis unfolding launched_inv_def turn(2) j by (simp only: prod.case) blast
qed

text \<open>
  C38. Overlapping restarts leave a process behind: when a tunnel is restarted twice before the first
  restart's goroutine has launched its process, then in whatever order the two goroutines take their
  steps, if both launch a process, each process has a goroutine waiting for it that will mark the
  tunnel as failed and close its channel, but the tunnel refers to at most one of the two, and the
  next stop neither interrupts nor kills the other.
\<close>

theorem overlapping_restarts_leave_a_process:
  assumes "Restart_launch E w m n = (Ok (m1, t1), w1)" and "Restart_launch E w1 m1 n = (Ok (m2, t2), w2)"
    and "start_runs E ([t1, t2], m2, w2) ([(i, SDone), (i, SDone)], m3, w3)"
    and "trace w3 = trace w2 @ [Spawn a p, Spawn b q]" and "p \<noteq> q"
    and "stopTunnel E w3 m3 i = (r, w4)"
  shows "{(p, i), (q, i)} \<subseteq> set (m_waiters m3) \<and>
    (\<exists>x\<in>{p, q}. t_cmd (tun m3 i) \<noteq> Some x \<and>
       (\<exists>es. trace w4 = trace w3 @ es \<and> Interrupt x \<notin> set es \<and> Kill x \<notin> set es))"
proof -
  have "fst t1 = i" "fst t2 = i" "snd t1 = SBegin" "snd t2 = SBegin"
    using runs_same_tunnels [OF assms(3)] assms(1,2) by (auto simp: Restart_launch_def split: option.splits prod.splits res.splits)
  then have "launched_inv i (trace w2) ([t1, t2], m2, w2)" by (simp add: launched_inv_def)
  then have "launched_inv i (trace w2) ([(i, SDone), (i, SDone)], m3, w3)" by (rule schedule_invariant [OF assms(3)]) (rule launched_step)
  then have w: "{(p, i), (q, i)} \<subseteq> set (m_waiters m3)" using assms(4) by (auto simp: launched_inv_def)
  obtain es where es: "trace w4 = trace w3 @ es"
    "\<forall>e\<in>set es. \<exists>pid. t_cmd (tun m3 i) = Some pid \<and> (e = Interrupt pid \<or> e = Kill pid)"
    using stopTunnel_signals [OF assms(6)] by blast
  obtain x where x: "x \<in> {p, q}" "t_cmd (tun m3 i) \<noteq> Some x" using assms(5) by (cases "t_cmd (tun m3 i) = Some p") auto
  then have "Interrupt x \<notin> set es" "Kill x \<notin> set es" using es(2) by auto
  then show ?thesis using w x es(1) by blast
qed

definition temp_env :: env where
  "temp_env = calm_env\<lparr>temp_rand := show_nat\<rparr>"

definition twice_restarted :: "manager \<times> world" where
  "twice_restarted = start_each temp_env loaded_world (stop_mark (stop_mark loaded 0) 0) [0, 0]"

lemma twice_restarted_facts:
  "\<exists>a b. trace (snd twice_restarted) = trace loaded_world @ [Spawn a 3, Spawn b 8]"
  "\<exists>m4 w4. stopTunnel temp_env (snd twice_restarted) (fst twice_restarted) 0 = (Ok m4 :: (tun_err, manager) res, w4)"
proof -
  have "trace (snd twice_restarted) = trace loaded_world @
      [Spawn [''wireproxy'', ''-c'', ''/tmp/wg-proxy-a-1.conf''] 3, Spawn [''wireproxy'', ''-c'', ''/tmp/wg-proxy-a-6.conf''] 8]"
    by code_simp
  then show "\<exists>a b. trace (snd twice_restarted) = trace loaded_world @ [Spawn a 3, Spawn b 8]" by blast
  let ?s = "stopTunnel temp_env (snd twice_restarted) (fst twice_restarted) 0 :: (tun_err, manager) res \<times> world"
  have "ok_value (fst ?s) \<noteq> None" by code_simp
  from ok_value_the [OF this] show "\<exists>m4 w4. ?s = (Ok m4, w4)" by (metis prod.collapse)
qed

theorem overlapping_restarts_leave_a_process_witness:
  "\<exists>m1 w1 m2 w2 m3 w3 m4 w4 x.
     Restart_launch temp_env loaded_world loaded ''a'' = (Ok (m1, (0, SBegin)), w1) \<and>
     Restart_launch temp_env w1 m1 ''a'' = (Ok (m2, (0, SBegin)), w2) \<and>
     start_runs temp_env ([(0, SBegin), (0, SBegin)], m2, w2) ([(0, SDone), (0, SDone)], m3, w3) \<and>
     stopTunnel temp_env w3 m3 0 = (Ok m4 :: (tun_err, manager) res, w4) \<and>
     (x, 0) \<in> set (m_waiters m3) \<and> Kill x \<notin> set (trace w4) \<and> Interrupt x \<notin> set (trace w4)"
proof -
  let ?m1 = "stop_mark loaded 0" and ?m2 = "stop_mark (stop_mark loaded 0) 0"
  let ?m3 = "fst twice_restarted" and ?w3 = "snd twice_restarted"
  have g: "GetTunnel loaded ''a'' = Some 0" "GetTunnel ?m1 ''a'' = Some 0" by code_simp+
  have st: "stopTunnel temp_env loaded_world loaded 0 = (Ok ?m1 :: (tun_err, manager) res, loaded_world)"
    "stopTunnel temp_env loaded_world ?m1 0 = (Ok ?m2 :: (tun_err, manager) res, loaded_world)"
    by (simp_all add: stopTunnel_def stop_signal_def Let_def stop_mark_tun loaded_def add_tunnel_def new_tunnel_def NewManager_def)
  have l: "Restart_launch temp_env loaded_world loaded ''a'' = (Ok (?m1, (0, SBegin)), loaded_world)"
    "Restart_launch temp_env loaded_world ?m1 ''a'' = (Ok (?m2, (0, SBegin)), loaded_world)"
    by (simp_all add: Restart_launch_def g st)
  have r: "start_runs temp_env ([(0, SBegin), (0, SBegin)], ?m2, loaded_world) ([(0, SDone), (0, SDone)], ?m3, ?w3)"
    using start_each_runs [of temp_env "[]" "[0, 0]" ?m2 loaded_world]
    by (simp add: twice_restarted_def fresh_starts_def finished_starts_def)
  obtain a b where t: "trace ?w3 = trace loaded_world @ [Spawn a 3, Spawn b 8]" using twice_restarted_facts(1) by blast
  obtain m4 w4 where stop: "stopTunnel temp_env ?w3 ?m3 0 = (Ok m4 :: (tun_err, manager) res, w4)"
    using twice_restarted_facts(2) by blast
  from overlapping_restarts_leave_a_process [OF l r t _ stop]
  obtain x es where x: "(x, 0) \<in> set (m_waiters ?m3)" "trace w4 = trace ?w3 @ es" "Interrupt x \<notin> set es" "Kill x \<notin> set es"
    by auto
  then have "Kill x \<notin> set (trace w4)" "Interrupt x \<notin> set (trace w4)" using t by (auto simp: loaded_world_def empty_world_def)
  then show ?thesis using l r stop x(1) by blast
qed

end
