(* ===== verification/Proxy_Race.thy ===== *)
theory Proxy_Race
  imports Proxy_Balance Interleave
begin

text \<open>
  Connections to one country listener at the same time. \<^verbatim>\<open>serveCountryProxy\<close> makes a new
  \<^verbatim>\<open>countryBackendPicker\<close> for every connection; the pickers share the listener's counter, but each has a
  mutex of its own, so the reads and the write of the counter in \<^verbatim>\<open>pick\<close> interleave. One step here is
  one access to the counter. Every schedule picks healthy tunnels only; but turns get lost.
\<close>

section \<open>Steps\<close>

datatype pick_pc =
    KBegin
  | KChosen nat        \<comment> \<open>the index has been computed from the counter\<close>
  | KLoaded nat u64    \<comment> \<open>the counter has been read for the increment\<close>
  | KDone "string \<times> nat option"

fun pick_step :: "manager \<Rightarrow> pick_pc \<Rightarrow> country_proxy \<Rightarrow> pick_pc \<times> country_proxy" where
  "pick_step m KBegin p =
     (let hs = healthy m (cp_tunnels p) in
      if hs = [] then (KDone ([], None), p)
      else (KChosen (hs ! (unat (cp_counter p) mod length hs)), p))"
| "pick_step m (KChosen i) p = (KLoaded i (cp_counter p), p)"
| "pick_step m (KLoaded i c) p = (KDone (backend_addr (tun m i), Some i), p\<lparr>cp_counter := c + 1\<rparr>)"
| "pick_step m (KDone r) p = (KDone r, p)"

fun pick_done :: "pick_pc \<Rightarrow> bool" where
  "pick_done (KDone r) \<longleftrightarrow> True"
| "pick_done _ \<longleftrightarrow> False"

fun pick_rank :: "pick_pc \<Rightarrow> nat" where
  "pick_rank KBegin = 3"
| "pick_rank (KChosen i) = 2"
| "pick_rank (KLoaded i c) = 1"
| "pick_rank (KDone r) = 0"

lemma pick_step_rank: "\<not> pick_done pc \<Longrightarrow> pick_step m pc p = (pc', p') \<Longrightarrow> pick_rank pc' < pick_rank pc"
  by (cases pc) (auto simp: Let_def split: if_splits)

lemma pick_step_done: "pick_done pc \<Longrightarrow> pick_step m pc p = (pc, p)"
  by (cases pc) simp_all

interpretation picking: goroutines "pick_step m" pick_done pick_rank for m
  by unfold_locales (fact pick_step_done, fact pick_step_rank)

abbreviation pick_runs :: "manager \<Rightarrow> pick_pc list \<times> country_proxy \<Rightarrow> pick_pc list \<times> country_proxy \<Rightarrow> bool" where
  "pick_runs m \<equiv> schedule (pick_step m) pick_done"

text \<open>Alone, three steps of a connection are the function \<open>pick\<close>.\<close>

lemma pick_alone: "solo (pick_step m) 3 KBegin p = (case pick m p of (r, p') \<Rightarrow> (KDone r, p'))"
  by (simp add: numeral_3_eq_3 pick_def Let_def)

lemma pick_one_runs: "pick m p = (r, p') \<Longrightarrow> pick_runs m (pre @ KBegin # post, p) (pre @ KDone r # post, p')"
  by (rule picking.solo_schedule [of m 3]) (simp add: pick_alone)

section \<open>Every schedule picks healthy tunnels\<close>

fun pick_inv :: "manager \<Rightarrow> nat list \<Rightarrow> pick_pc \<Rightarrow> bool" where
  "pick_inv m ts KBegin \<longleftrightarrow> True"
| "pick_inv m ts (KChosen i) \<longleftrightarrow> i \<in> set (healthy m ts)"
| "pick_inv m ts (KLoaded i c) \<longleftrightarrow> i \<in> set (healthy m ts)"
| "pick_inv m ts (KDone r) \<longleftrightarrow>
     r = ([], None) \<and> healthy m ts = [] \<or> (\<exists>i\<in>set (healthy m ts). r = (backend_addr (tun m i), Some i))"

lemma pick_step_inv:
  assumes "pick_inv m (cp_tunnels p) pc" and "pick_step m pc p = (pc', p')"
  shows "pick_inv m (cp_tunnels p) pc' \<and> cp_tunnels p' = cp_tunnels p"
  using assms by (cases pc) (auto simp: Let_def split: if_splits)

definition picks_inv :: "manager \<Rightarrow> nat list \<Rightarrow> pick_pc list \<times> country_proxy \<Rightarrow> bool" where
  "picks_inv m ts c \<longleftrightarrow> cp_tunnels (snd c) = ts \<and> (\<forall>pc\<in>set (fst c). pick_inv m ts pc)"

lemma picks_inv_turn:
  assumes "turns (pick_step m) pick_done c c'" and "picks_inv m ts c"
  shows "picks_inv m ts c'"
  using assms(1)
proof (rule turnsE)
  fix k pcs p pc' p'
  assume t: "c = (pcs, p)" "c' = (pcs[k := pc'], p')" "k < length pcs" "pick_step m (pcs ! k) p = (pc', p')"
  have "pick_inv m (cp_tunnels p) (pcs ! k)" using assms(2) t(1,3) by (auto simp: picks_inv_def)
  from pick_step_inv [OF this t(4)] show ?thesis
    using assms(2) t(1,2) set_update_subset_insert [of pcs k pc'] by (auto simp: picks_inv_def)
qed

text \<open>The schedule in which both connections use the counter before either has moved it on.\<close>

lemma lost_turn:
  assumes "pick m p = (r, p')"
  shows "pick_runs m ([KBegin, KBegin], p) ([KDone r, KDone r], p')"
proof (cases "healthy m (cp_tunnels p) = []")
  case True
  then have "pick_runs m ([] @ KBegin # [KBegin], p) ([] @ KDone r # [KBegin], p)"
    "pick_runs m ([KDone r] @ KBegin # [], p) ([KDone r] @ KDone r # [], p)"
    using assms by (intro pick_one_runs; simp add: pick_def)+
  moreover have "p' = p" using True assms by (simp add: pick_def)
  ultimately show ?thesis by simp
next
  case False
  let ?hs = "healthy m (cp_tunnels p)" and ?c = "cp_counter p"
  let ?i = "?hs ! (unat ?c mod length ?hs)"
  have r: "r = (backend_addr (tun m ?i), Some ?i)" "p' = p\<lparr>cp_counter := ?c + 1\<rparr>"
    using False assms by (simp_all add: pick_def Let_def)
  note at = turns_at [where step = "pick_step m" and finished = pick_done]
  have "turns (pick_step m) pick_done ([KBegin, KBegin], p) ([KChosen ?i, KBegin], p)"
    using at [of KBegin p "KChosen ?i" p "[]" "[KBegin]"] False by (simp add: Let_def)
  moreover have "turns (pick_step m) pick_done ([KChosen ?i, KBegin], p) ([KChosen ?i, KChosen ?i], p)"
    using at [of KBegin p "KChosen ?i" p "[KChosen ?i]" "[]"] False by (simp add: Let_def)
  moreover have "turns (pick_step m) pick_done ([KChosen ?i, KChosen ?i], p) ([KLoaded ?i ?c, KChosen ?i], p)"
    using at [of "KChosen ?i" p "KLoaded ?i ?c" p "[]" "[KChosen ?i]"] by simp
  moreover have "turns (pick_step m) pick_done ([KLoaded ?i ?c, KChosen ?i], p) ([KLoaded ?i ?c, KLoaded ?i ?c], p)"
    using at [of "KChosen ?i" p "KLoaded ?i ?c" p "[KLoaded ?i ?c]" "[]"] by simp
  moreover have "turns (pick_step m) pick_done ([KLoaded ?i ?c, KLoaded ?i ?c], p) ([KDone r, KLoaded ?i ?c], p')"
    using at [of "KLoaded ?i ?c" p "KDone r" p' "[]" "[KLoaded ?i ?c]"] r by simp
  moreover have "turns (pick_step m) pick_done ([KDone r, KLoaded ?i ?c], p') ([KDone r, KDone r], p')"
    using at [of "KLoaded ?i ?c" p' "KDone r" p' "[KDone r]" "[]"] r by simp
  ultimately show ?thesis by (meson converse_rtranclp_into_rtranclp rtranclp.rtrancl_refl)
qed

text \<open>
  Connections to a country listener may pick their backends at the same time: in whatever order
  they access the shared counter, each gets a healthy tunnel of that country with its address, or
  none, exactly when none of the country's tunnels is healthy.
\<close>

theorem country_picks_any_schedule:
  assumes "pick_runs m (replicate n KBegin, p) (map KDone rs, p')"
  shows "length rs = n \<and> (\<forall>r\<in>set rs.
    r = ([], None) \<and> healthy m (cp_tunnels p) = [] \<or>
    (\<exists>i\<in>set (cp_tunnels p). IsHealthy (tun m i) \<and> r = (backend_addr (tun m i), Some i)))"
proof -
  have "picks_inv m (cp_tunnels p) (replicate n KBegin, p)" by (simp add: picks_inv_def)
  then have "picks_inv m (cp_tunnels p) (map KDone rs, p')"
    using schedule_invariant [OF assms, of "picks_inv m (cp_tunnels p)"] picks_inv_turn by blast
  then show ?thesis using schedule_length [OF assms] by (auto simp: picks_inv_def healthy_mem)
qed

theorem country_picks_any_schedule_witness:
  "\<exists>r p'. pick_runs three_tunnels (replicate 2 KBegin, \<lparr>cp_port = 10100, cp_tunnels = [0, 2], cp_counter = 0, cp_open = True\<rparr>)
      (map KDone [r, r], p') \<and> snd r \<in> {Some 0, Some 2}"
proof -
  let ?p = "\<lparr>cp_port = 10100, cp_tunnels = [0, 2], cp_counter = 0, cp_open = True\<rparr>"
  obtain r p' where "pick three_tunnels ?p = (r, p')" by (metis prod.exhaust)
  then have r: "pick_runs three_tunnels (replicate 2 KBegin, ?p) (map KDone [r, r], p')"
    using lost_turn [of three_tunnels ?p] by (simp add: numeral_2_eq_2)
  have "healthy three_tunnels [0, 2] \<noteq> []" by code_simp
  then have "snd r \<in> {Some 0, Some 2}" using country_picks_any_schedule [OF r] by auto
  then show ?thesis using r by blast
qed

text \<open>
  C39. Turns get lost at a country listener: where two connections one after the other get two different
  tunnels, two connections at the same time can both get the first of these, and the counter moves on by
  one only, so that the next connection gets the second.
\<close>

theorem country_turn_lost:
  assumes "2 \<le> length (healthy m (cp_tunnels p))" and "distinct (cp_tunnels p)" and "unat (cp_counter p) + 1 < 2 ^ 64"
    and "pick m p = (r1, p1)" and "pick m p1 = (r2, p2)"
  shows "snd r1 \<noteq> snd r2 \<and> pick_runs m ([KBegin, KBegin], p) ([KDone r1, KDone r2], p2) \<and>
    pick_runs m ([KBegin, KBegin], p) ([KDone r1, KDone r1], p1)"
proof (intro conjI)
  let ?hs = "healthy m (cp_tunnels p)" and ?c = "unat (cp_counter p)"
  have ne: "?hs \<noteq> []" using assms(1) by auto
  have r1: "snd r1 = Some (?hs ! (?c mod length ?hs))" "p1 = p\<lparr>cp_counter := cp_counter p + 1\<rparr>"
    using assms(4) ne by (auto simp: pick_def Let_def)
  have "unat (cp_counter p + 1) = Suc ?c" using assms(3) by (simp add: unat_word_ariths)
  then have r2: "snd r2 = Some (?hs ! (Suc ?c mod length ?hs))" using assms(5) ne r1(2) by (auto simp: pick_def Let_def)
  have "Suc ?c mod length ?hs \<noteq> ?c mod length ?hs" using assms(1) by (simp add: mod_Suc)
  moreover have "distinct ?hs" using assms(2) by (simp add: healthy_def)
  moreover have "0 < length ?hs" using ne by simp
  ultimately show "snd r1 \<noteq> snd r2" using r1(1) r2 by (simp add: nth_eq_iff_index_eq)
  have "pick_runs m ([KBegin, KBegin], p) ([KDone r1, KBegin], p1)" using pick_one_runs [OF assms(4), of "[]" "[KBegin]"] by simp
  also have "pick_runs m \<dots> ([KDone r1, KDone r2], p2)" using pick_one_runs [OF assms(5), of "[KDone r1]" "[]"] by simp
  finally show "pick_runs m ([KBegin, KBegin], p) ([KDone r1, KDone r2], p2)" .
  show "pick_runs m ([KBegin, KBegin], p) ([KDone r1, KDone r1], p1)" by (rule lost_turn [OF assms(4)])
qed

theorem country_turn_lost_witness:
  "\<exists>r1 p1. pick_runs three_tunnels ([KBegin, KBegin], \<lparr>cp_port = 10100, cp_tunnels = [0, 2], cp_counter = 0, cp_open = True\<rparr>)
      ([KDone r1, KDone r1], p1)"
proof -
  let ?p = "\<lparr>cp_port = 10100, cp_tunnels = [0, 2], cp_counter = 0, cp_open = True\<rparr>"
  obtain r1 p1 r2 p2 where "pick three_tunnels ?p = (r1, p1)" "pick three_tunnels p1 = (r2, p2)" by (metis prod.exhaust)
  moreover have "2 \<le> length (healthy three_tunnels (cp_tunnels ?p))" by code_simp
  ultimately have "pick_runs three_tunnels ([KBegin, KBegin], ?p) ([KDone r1, KDone r1], p1)"
    using country_turn_lost [of three_tunnels ?p r1 p1 r2 p2] by simp
  then show ?thesis by blast
qed

end
