(* ===== verification/Spec2Isabelle.thy ===== *)
theory Spec2Isabelle
  imports Tunnels_Props Relay Proxy_Props Proxy_Balance Retry_Props Health_Props WgServer_Net WgServer_Start Gateway Tunnels_Start Proxy_Race
begin

text \<open>
  Verification of wg-proxy, a gateway that offers many WireGuard tunnels as SOCKS5 proxies, a VPN
  server whose clients' traffic can be sent through them, and an HTTP interface to administer both.

  \<^bold>\<open>The program.\<close> All Go code is under \<^verbatim>\<open>src/internal/\<close>.

  \<^item> \<^verbatim>\<open>config/config.go\<close> reads the settings from environment variables.
  \<^item> \<^verbatim>\<open>tunnels/manager.go\<close> keeps the tunnels. Each has a configuration file, a local port and a
    \<^verbatim>\<open>wireproxy\<close> process, which offers the tunnel as a SOCKS5 proxy on that port.
  \<^item> \<^verbatim>\<open>proxy/server.go\<close> is the public SOCKS5 proxy: it authenticates a client, picks a running tunnel
    in turn, forwards the request to the tunnel's port and copies bytes both ways. Every country of
    the tunnels gets a listener of its own.
  \<^item> \<^verbatim>\<open>proxy/retry.go\<close> is a SOCKS5 proxy that tries one tunnel after the other. Its ports come from the
    health checker's gold pool if there is one, from the manager's healthy backends otherwise.
  \<^item> \<^verbatim>\<open>health/checker.go\<close> probes the tunnels' ports, sets their states, and keeps the gold pool of
    tunnels that can reach an HTTPS site.
  \<^item> \<^verbatim>\<open>wgserver/peers.go\<close> stores the VPN peers in a JSON file; \<^verbatim>\<open>wgserver/server.go\<close> runs the VPN
    interface with its keys, addresses and packet filter rules; \<^verbatim>\<open>wgserver/routing.go\<close> switches the
    VPN clients' traffic between direct and proxied.
  \<^item> \<^verbatim>\<open>web/dashboard.go\<close> collects the state for the browser and sends it as an event stream;
    \<^verbatim>\<open>handlers/routes.go\<close> is the HTTP interface to all of the above.

  The components share the tunnels: the manager owns them, the health checker writes their state, the
  proxies read it to pick a backend and count connections and bytes on them, and the HTTP interface
  reads and changes them.
\<close>

section \<open>Theories\<close>

text \<open>
  \<^bold>\<open>Shared vocabulary.\<close> \<open>Prelude\<close>: Go's 64-bit integers (as \<open>int\<close> with the wrap-around \<open>s64\<close>),
  bytes (\<open>8 word\<close>), strings (lists of bytes as characters) and the result type \<open>res\<close> with the outcomes
  \<open>Ok\<close>, \<open>Err\<close> and \<open>Panic\<close>. \<open>Go_Strings\<close>, \<open>Utf8\<close>, \<open>Durations\<close>, \<open>Timestamp\<close>, \<open>Json\<close>, \<open>Net\<close> and
  \<open>Http\<close> model what the program uses of Go's standard library. \<open>Os\<close> has the files, commands, clock
  and random bytes, \<open>Conn\<close> the network connections: a connection is the sequence of chunks its peer
  sends, with the reads that fail, and the list of what is written to it.

  \<^bold>\<open>Components.\<close> Each has a theory with its state as a record, its operations as functions on that
  state, and the errors and panics of the code as values.

  \<^item> \<open>Config\<close>: \<open>Load\<close> and its helpers.
  \<^item> \<open>Tunnels\<close>: the record \<open>manager\<close>; tunnels are pointers, so the manager has a heap of tunnels and the
    slice of pointers into it, which other goroutines keep after a deletion. \<open>startTunnel\<close>,
    \<open>stopTunnel\<close>, \<open>Restart\<close>, \<open>Disconnect\<close>, \<open>Delete\<close>, \<open>ImportConfig\<close>, \<open>LoadConfigs\<close>, \<open>wait_exit\<close>
    for the goroutine that waits for a process, and \<open>monitorOutput\<close> for those that log its output. \<open>Tunnels_Run\<close>: sequences of operations and process
    exits.
  \<^item> \<open>Proxy\<close>: \<open>handleConnection\<close> with \<open>authenticate\<close>, \<open>serve_request\<close> and \<open>use_backend\<close>, the pickers,
    the country proxies, the accept loop. \<open>Relay\<close>: the two copying goroutines as a step relation.
  \<^item> \<open>Retry\<close>: \<open>handleConn\<close>, \<open>try_ports\<close>, \<open>tryBackend\<close>, \<open>itoa\<close>.
  \<^item> \<open>Health\<close>: \<open>checkAll\<close>, \<open>deepCheckAll\<close>, \<open>resolveExitIP\<close>, \<open>loop\<close>.
  \<^item> \<open>Peers\<close>: the record \<open>PeerStore\<close> and \<open>ps_Load\<close>, \<open>ps_Save\<close>, \<open>ps_Add\<close>, \<open>ps_Remove\<close>, \<open>ps_Get\<close>, \<open>ps_List\<close>.
  \<^item> \<open>WgServer\<close>: the record \<open>wgserver\<close> and \<open>wg_Start\<close>, \<open>wg_Stop\<close>, \<open>AddPeer\<close>, \<open>RemovePeer\<close>,
    \<open>GetClientConfig\<close>, \<open>allocateIP\<close>, \<open>loadOrGenerateKeys\<close>, \<open>setupInterface\<close>, \<open>setupNAT\<close>.
  \<^item> \<open>Routing\<close>: \<open>SetMode\<close> and the two command lists, byte for byte.
  \<^item> \<open>Dashboard\<close>: \<open>collectState\<close>, \<open>HandleSSE\<close>, \<open>broadcast\<close>. \<open>Handlers\<close>: the record \<open>app\<close> with the state of
    every component, one function per handler, and \<open>serve\<close>, which picks the handler of a request.

  \<^bold>\<open>Contracts.\<close> \<open>Round_Robin\<close> is the locale of a choice in turn; its interpretations are the proxy's two
  pickers (in \<open>Proxy_Balance\<close>) and the retry proxy's starting point (in \<open>Retry_Props\<close>). \<open>Named_Store\<close> is the
  locale of a list of items with first-match lookup; its interpretation is the peer store, on which the VPN server's refinement of a map rests.
  \<open>Interleave\<close> is the locale of goroutines that take turns on shared state; its interpretations are the
  goroutines that start tunnels (in \<open>Tunnels_Start\<close>) and those that pick a backend (in \<open>Proxy_Race\<close>).
\<close>

section \<open>What is proved\<close>

text \<open>
  \<^item> Tunnel manager (\<open>Tunnels_Inv\<close>, \<open>Tunnels_Calm\<close>, \<open>Tunnels_Props\<close>): the invariant of ports and files under
    every operation; the invariant of goroutines and channels, hence no panic while processes end
    promptly, and the double close when one does not; the outcome of every operation; an imported
    tunnel survives a restart of the program. \<open>Tunnels_Start\<close>: the goroutines that start tunnels, step
    by step; those of different tunnels do not disturb each other, two for one tunnel leave a process
    behind.
  \<^item> Proxies (\<open>Relay\<close>, \<open>Proxy_Props\<close>, \<open>Proxy_Balance\<close>, \<open>Retry_Props\<close>): no panic and no open connection after any
    input; no backend without the credentials; the transcript of a session, for every cutting of the
    data into packets; every schedule of the relay ends, with the same bytes; the pickers are fair;
    the order and number of the retries. \<open>Proxy_Race\<close>: the picker of a country listener, whose counter
    is not protected, step by step.
  \<^item> Health checker (\<open>Health_Props\<close>): a pass is what a per-tunnel specification says; what a pass does
    when another goroutine changes a tunnel meanwhile; the content of the gold pool; a tunnel that
    recovers is used again.
  \<^item> VPN server (\<open>Json_Roundtrip\<close>, \<open>Peers_Props\<close>, \<open>WgServer_Keys\<close>, \<open>WgServer_Net\<close>, \<open>WgServer_Props\<close>,
    \<open>WgServer_Start\<close>): JSON is read back as printed; the peers refine a map from names; names and
    addresses are never shared; the address chosen; the form of the keys; the outcomes of a start;
    rules, keys and peers across a stop and a restart.
  \<^item> Traffic routing (\<open>Routing\<close>): what setting a mode runs and leaves.
  \<^item> HTTP interface (\<open>Dashboard_Props\<close>, \<open>Handlers_Props\<close>, \<open>Handlers_Json\<close>, \<open>Handlers_Api\<close>): the order of a
    client's event stream and what a slow client misses; GET requests change nothing; what an error
    answer may have changed; every JSON answer parses; proxied mode uses a verified backend; peers
    and tunnels sent by a client arrive; names with a slash are out of reach.
  \<^item> Several components at once (\<open>Gateway\<close>): a tunnel that a client posts gets one of the proxy's next
    connections; a tunnel that a client disconnects gets none, whatever the health checker finds.
\<close>

section \<open>Parameters, bounds and limits of the model\<close>

text \<open>
  \<^bold>\<open>Parameters.\<close> What lies outside the program is an argument of the definitions, and every theorem holds
  for all of its values: the record \<open>env\<close> (which system call fails and how, output of commands, clock,
  random bytes, whether a process ends within five seconds of an interrupt, upper case and
  printability of characters outside ASCII), \<open>wg_env\<close> (directories, calendar time, interface
  addresses), \<open>hd_env\<close> (downloads, the local time zone, the error text of \<^verbatim>\<open>encoding/json\<close>, the embedded
  page), the connections' data, the outcome of dialling, and \<open>probes\<close> (the health checker's
  dialling, \<^verbatim>\<open>curl\<close> and HTTP client). Random bytes and commands are functions of the number of the
  system call, so two calls may differ.

  \<^bold>\<open>Concurrency.\<close> A section under a mutex is one step. The goroutines are interleaved where the outcome
  depends on it: the two directions of a relay (\<open>relay_step\<close>), the process waiter (\<open>wait_exit\<close>) against
  the manager's operations, a checker's pass against changes by others during a probe (the argument
  \<open>other\<close> of \<open>checkAll\<close>), the order in which deep checks finish, the event streams' sends and
  receives. A goroutine that starts a tunnel runs at the point where it is launched, except in
  \<open>Tunnels_Start\<close>, where its critical sections interleave with those of others and the sequential
  definition is proved to be one of the schedules; two accesses to a country listener's counter
  interleave in \<open>Proxy_Race\<close>. A deep check
  reads the states of the tunnels at one moment; a request is handled as one step.

  \<^bold>\<open>Connections.\<close> What a peer sends is a finite list of chunks and failing reads, after which it has
  closed: a relay, which waits for both directions, ends because both peers close in the end. The
  code itself closes neither connection before that.

  \<^bold>\<open>Bounds.\<close> Integers wrap at 64 bits where the code computes with them; a theorem about counters
  names the bound (\<open>2 ^ 63\<close> retried connections, \<open>2 ^ 64\<close> tunnels). The only fuel is that of the JSON
  parser, \<open>2 * length s + 2\<close> for a text \<open>s\<close>: the recursion takes at most two units for a
  character, and \<open>Json_Roundtrip\<close> proves it enough for every printed value; Go's own bound on the
  nesting, 10000, is part of the parser.

  \<^bold>\<open>HTTP.\<close> Requests are dispatched on the decoded path. A panic in a handler is the outcome \<open>Panic\<close>;
  Go's HTTP server recovers it and closes the connection. The body of a redirect is left out.

  \<^bold>\<open>Not modelled.\<close> The program's own log messages, and the check at start-up that the page is embedded,
  which only logs; the methods of \<^verbatim>\<open>Tunnel\<close> that lock and unlock its mutex; the web page itself (HTML and JavaScript) and the container
  build. The repository contains no main program, so how the components are started is not known.
\<close>

end
